(* ===== verification/Prelude.thy ===== *)
theory Prelude
  imports Main
    "HOL-Library.Word"
    "HOL-Library.Char_ord"
    "HOL-Library.List_Lexorder"
    "HOL-Library.AList"
    "HOL-Library.Sublist"
    "HOL-Library.Multiset"
begin

text \<open>
  The vocabulary every component shares.  It holds the result type of fallible Go code, loops
  that return early, the parts of the Go standard library the sources call (\<^verbatim>\<open>strings\<close>,
  \<^verbatim>\<open>strconv\<close>, \<^verbatim>\<open>path\<close>, \<^verbatim>\<open>sort\<close>, \<^verbatim>\<open>fmt\<close>) and Go maps that are iterated over.

  Go strings and byte slices are both \<^typ>\<open>string\<close>, lists of 8-bit characters.  Case mapping and
  white space are those of ASCII, which is what configuration files use.
\<close>

named_theorems res_simps \<open>inversion rules for the result type\<close>
named_theorems str_simps \<open>evaluation rules for the string library\<close>

section \<open>Results\<close>

text \<open>
  A Go function that returns \<^verbatim>\<open>(T, error)\<close> returns a value, an error, or panics (an out of range
  slice, a failed type assertion).  The state of a failed call is dropped: every caller in scope
  returns as soon as it sees the error.
\<close>

datatype 'a res = Ok 'a | Err string | Panic

fun bind_res :: "'a res \<Rightarrow> ('a \<Rightarrow> 'b res) \<Rightarrow> 'b res" where
  "bind_res (Ok x) f = f x"
| "bind_res (Err e) f = Err e"
| "bind_res Panic f = Panic"

text \<open>\<^verbatim>\<open>if err != nil { return fmt.Errorf("msg: %v", err) }\<close>\<close>

fun wrap_err :: "string \<Rightarrow> 'a res \<Rightarrow> 'a res" where
  "wrap_err msg (Ok x) = Ok x"
| "wrap_err msg (Err e) = Err (msg @ e)"
| "wrap_err msg Panic = Panic"

definition is_ok :: "'a res \<Rightarrow> bool" where
  "is_ok r = (case r of Ok _ \<Rightarrow> True | _ \<Rightarrow> False)"

lemma is_ok_simps [simp]: "is_ok (Ok x)" "\<not> is_ok (Err e)" "\<not> is_ok Panic"
  by (simp_all add: is_ok_def)

lemma is_ok_iff: "is_ok r \<longleftrightarrow> (\<exists>x. r = Ok x)"
  by (cases r) auto

lemma bind_res_Ok_iff [simp, res_simps]:
  "bind_res r f = Ok y \<longleftrightarrow> (\<exists>x. r = Ok x \<and> f x = Ok y)"
  by (cases r) auto

lemma bind_res_Err_iff [res_simps]:
  "bind_res r f = Err e \<longleftrightarrow> r = Err e \<or> (\<exists>x. r = Ok x \<and> f x = Err e)"
  by (cases r) auto

lemma bind_res_Panic_iff [res_simps]:
  "bind_res r f = Panic \<longleftrightarrow> r = Panic \<or> (\<exists>x. r = Ok x \<and> f x = Panic)"
  by (cases r) auto

lemma wrap_err_Ok_iff [simp, res_simps]: "wrap_err m r = Ok y \<longleftrightarrow> r = Ok y"
  by (cases r) auto

lemma wrap_err_Panic_iff [simp, res_simps]: "wrap_err m r = Panic \<longleftrightarrow> r = Panic"
  by (cases r) auto

lemma bind_res_assoc: "bind_res (bind_res r f) g = bind_res r (\<lambda>x. bind_res (f x) g)"
  by (cases r) auto

lemma bind_res_cong [fundef_cong]:
  "r = r' \<Longrightarrow> (\<And>x. r' = Ok x \<Longrightarrow> f x = f' x) \<Longrightarrow> bind_res r f = bind_res r' f'"
  by (cases r') auto

text \<open>\<^verbatim>\<open>for _, x := range xs { ... if err != nil { return err } }\<close> over a state.\<close>

fun loop_res :: "('a \<Rightarrow> 's \<Rightarrow> 's res) \<Rightarrow> 'a list \<Rightarrow> 's \<Rightarrow> 's res" where
  "loop_res f [] s = Ok s"
| "loop_res f (x # xs) s = bind_res (f x s) (loop_res f xs)"

text \<open>The same loop collecting one value per element.\<close>

fun map_res :: "('a \<Rightarrow> 'b res) \<Rightarrow> 'a list \<Rightarrow> 'b list res" where
  "map_res f [] = Ok []"
| "map_res f (x # xs) = bind_res (f x) (\<lambda>y. bind_res (map_res f xs) (\<lambda>ys. Ok (y # ys)))"

lemma loop_res_append: "loop_res f (xs @ ys) s = bind_res (loop_res f xs s) (loop_res f ys)"
proof (induction xs arbitrary: s)
  case Nil
  then show ?case by simp
next
  case (Cons x xs)
  then show ?case by (cases "f x s") simp_all
qed

lemma loop_res_invariant:
  assumes "loop_res f xs s = Ok s'" and "P s"
    and "\<And>x s s'. x \<in> set xs \<Longrightarrow> P s \<Longrightarrow> f x s = Ok s' \<Longrightarrow> P s'"
  shows "P s'"
  using assms by (induction xs arbitrary: s) auto

lemma loop_res_total:
  assumes "P s" and "\<And>x s. x \<in> set xs \<Longrightarrow> P s \<Longrightarrow> \<exists>s'. f x s = Ok s' \<and> P s'"
  shows "\<exists>s'. loop_res f xs s = Ok s' \<and> P s'"
  using assms
proof (induction xs arbitrary: s)
  case Nil
  then show ?case by simp
next
  case (Cons x xs)
  from Cons.prems(1,2) obtain t where "f x s = Ok t" "P t"
    by (meson list.set_intros(1))
  with Cons.IH [of t] Cons.prems(2) show ?case by simp
qed

lemma map_res_Ok_iff: "map_res f xs = Ok ys \<longleftrightarrow> list_all2 (\<lambda>x y. f x = Ok y) xs ys"
proof (induction xs arbitrary: ys)
  case Nil
  then show ?case by auto
next
  case (Cons x xs)
  then show ?case by (cases ys) auto
qed

lemma map_res_pure: "(\<And>x. x \<in> set xs \<Longrightarrow> f x = Ok (g x)) \<Longrightarrow> map_res f xs = Ok (map g xs)"
  by (induction xs) simp_all

lemma is_ok_bind: "is_ok (bind_res r f) \<longleftrightarrow> (\<exists>x. r = Ok x \<and> is_ok (f x))"
  by (cases r) auto

lemma is_ok_bind_Ok [simp]: "is_ok (bind_res r (\<lambda>x. Ok (g x))) \<longleftrightarrow> is_ok r"
  by (cases r) auto

lemma is_ok_bind_const:
  "(\<And>x. is_ok (f x) \<longleftrightarrow> Q) \<Longrightarrow> is_ok (bind_res r f) \<longleftrightarrow> is_ok r \<and> Q"
  by (cases r) auto

lemma map_res_length: "map_res f xs = Ok ys \<Longrightarrow> length ys = length xs"
  by (simp add: map_res_Ok_iff list_all2_lengthD)

section \<open>Strings\<close>

text \<open>\<^verbatim>\<open>strings.HasPrefix\<close>, \<^verbatim>\<open>strings.TrimPrefix\<close>, \<^verbatim>\<open>strings.Contains\<close> of one character.\<close>

definition has_prefix :: "string \<Rightarrow> string \<Rightarrow> bool" where
  "has_prefix s p \<longleftrightarrow> take (length p) s = p"

definition trim_prefix :: "string \<Rightarrow> string \<Rightarrow> string" where
  "trim_prefix s p = (if has_prefix s p then drop (length p) s else s)"

definition contains_char :: "string \<Rightarrow> char \<Rightarrow> bool" where
  "contains_char s c \<longleftrightarrow> c \<in> set s"

lemma has_prefix_iff: "has_prefix s p \<longleftrightarrow> (\<exists>t. s = p @ t)"
  unfolding has_prefix_def by (metis append_eq_conv_conj)

lemma has_prefix_append [simp, str_simps]: "has_prefix (p @ s) p"
  by (simp add: has_prefix_def)

lemma has_prefix_Nil [simp]: "has_prefix s []"
  by (simp add: has_prefix_def)

lemma has_prefix_Cons [simp, str_simps]:
  "has_prefix (x # s) (y # p) \<longleftrightarrow> x = y \<and> has_prefix s p"
  "\<not> has_prefix [] (y # p)"
  by (auto simp: has_prefix_def)

lemma trim_prefix_append [simp, str_simps]: "trim_prefix (p @ s) p = s"
  by (simp add: trim_prefix_def)

text \<open>\<^verbatim>\<open>strings.Split\<close> and \<^verbatim>\<open>strings.SplitN\<close> with a one-character separator, \<^verbatim>\<open>strings.Join\<close>.\<close>

fun split_on :: "char \<Rightarrow> string \<Rightarrow> string list" where
  "split_on c [] = [[]]"
| "split_on c (x # xs) =
     (if x = c then [] # split_on c xs
      else (case split_on c xs of [] \<Rightarrow> [[x]] | y # ys \<Rightarrow> (x # y) # ys))"

fun splitN :: "nat \<Rightarrow> char \<Rightarrow> string \<Rightarrow> string list" where
  "splitN 0 c s = []"
| "splitN (Suc 0) c s = [s]"
| "splitN (Suc (Suc n)) c s =
     (case dropWhile (\<lambda>x. x \<noteq> c) s of
        [] \<Rightarrow> [s]
      | _ # r \<Rightarrow> takeWhile (\<lambda>x. x \<noteq> c) s # splitN (Suc n) c r)"

fun join :: "string \<Rightarrow> string list \<Rightarrow> string" where
  "join sep [] = []"
| "join sep [x] = x"
| "join sep (x # y # ys) = x @ sep @ join sep (y # ys)"

lemma split_on_not_Nil [simp]: "split_on c s \<noteq> []"
  by (induction s) (auto split: list.splits)

lemma join_Cons: "join sep (x # xs) = (if xs = [] then x else x @ sep @ join sep xs)"
  by (cases xs) auto

lemma join_split_on [simp]: "join [c] (split_on c s) = s"
proof (induction s)
  case Nil
  then show ?case by simp
next
  case (Cons x s)
  then show ?case
    by (cases "split_on c s") (auto simp: join_Cons split: if_splits)
qed

lemma split_on_no_sep: "p \<in> set (split_on c s) \<Longrightarrow> c \<notin> set p"
proof (induction s arbitrary: p)
  case Nil
  then show ?case by simp
next
  case (Cons x s)
  then show ?case
    by (cases "split_on c s") (auto split: if_splits)
qed

lemma split_on_free: "c \<notin> set s \<Longrightarrow> split_on c s = [s]"
  by (induction s) auto

lemma split_on_append_sep: "split_on c (s @ c # t) = split_on c s @ split_on c t"
proof (induction s)
  case Nil
  then show ?case by simp
next
  case (Cons x s)
  then show ?case by (cases "split_on c s") auto
qed

lemma split_on_join:
  assumes "xs \<noteq> []" and "\<And>x. x \<in> set xs \<Longrightarrow> c \<notin> set x"
  shows "split_on c (join [c] xs) = xs"
  using assms
proof (induction xs rule: induct_list012)
  case (3 x y zs)
  then have "split_on c (join [c] (y # zs)) = y # zs" and "c \<notin> set x" by auto
  then show ?case by (simp add: split_on_append_sep split_on_free)
qed (auto simp: split_on_free)

lemma length_split_on: "length (split_on c s) = Suc (count_list s c)"
proof (induction s)
  case Nil
  then show ?case by simp
next
  case (Cons x s)
  then show ?case by (cases "split_on c s") auto
qed

text \<open>
  \<^verbatim>\<open>strings.ToUpper\<close>, \<^verbatim>\<open>strings.ToLower\<close>, \<^verbatim>\<open>strings.TrimSpace\<close>, \<^verbatim>\<open>strings.Fields\<close> and
  \<^verbatim>\<open>strings.ReplaceAll\<close> of one character, on ASCII.
\<close>

definition upper_char :: "char \<Rightarrow> char" where
  "upper_char c = (let n = of_char c :: nat in if 97 \<le> n \<and> n \<le> 122 then char_of (n - 32) else c)"

definition lower_char :: "char \<Rightarrow> char" where
  "lower_char c = (let n = of_char c :: nat in if 65 \<le> n \<and> n \<le> 90 then char_of (n + 32) else c)"

definition to_upper :: "string \<Rightarrow> string" where
  "to_upper = map upper_char"

definition to_lower :: "string \<Rightarrow> string" where
  "to_lower = map lower_char"

definition is_space :: "char \<Rightarrow> bool" where
  "is_space c = (let n = of_char c :: nat in n = 32 \<or> (9 \<le> n \<and> n \<le> 13))"

definition trim_space :: "string \<Rightarrow> string" where
  "trim_space s = rev (dropWhile is_space (rev (dropWhile is_space s)))"

fun fields_acc :: "string \<Rightarrow> string \<Rightarrow> string list" where
  "fields_acc w [] = (if w = [] then [] else [rev w])"
| "fields_acc w (x # xs) =
     (if is_space x then (if w = [] then fields_acc [] xs else rev w # fields_acc [] xs)
      else fields_acc (x # w) xs)"

definition fields :: "string \<Rightarrow> string list" where
  "fields s = fields_acc [] s"

definition replace_char :: "char \<Rightarrow> string \<Rightarrow> string \<Rightarrow> string" where
  "replace_char c r s = concat (map (\<lambda>x. if x = c then r else [x]) s)"

text \<open>
  The lines that \<^verbatim>\<open>bufio.Scanner\<close> finds: a carriage return before a newline is dropped, an empty
  last line is not a line, and a line that does not fit the buffer is an error.
\<close>

definition dropCR :: "string \<Rightarrow> string" where
  "dropCR l = (if l \<noteq> [] \<and> last l = CHR 0x0D then butlast l else l)"

definition scanLines :: "string \<Rightarrow> string list \<times> unit res" where
  "scanLines s =
     (let ls = split_on (CHR 0x0A) s;
          ls = (if last ls = [] then butlast ls else ls);
          ok = takeWhile (\<lambda>l. length l < 65536) ls
      in (map dropCR ok, if length ok = length ls then Ok () else Err ''bufio.Scanner: token too long''))"

section \<open>Numbers\<close>

text \<open>\<^verbatim>\<open>fmt.Sprintf\<close> with \<^verbatim>\<open>%d\<close> on a count, and with \<^verbatim>\<open>%03d\<close>.\<close>

fun dec_digits :: "nat \<Rightarrow> string" where
  "dec_digits n =
     (if n < 10 then [char_of (48 + n)] else dec_digits (n div 10) @ [char_of (48 + n mod 10)])"

declare dec_digits.simps [simp del]

definition pad3 :: "nat \<Rightarrow> string" where
  "pad3 n = (let s = dec_digits n in replicate (3 - length s) (CHR ''0'') @ s)"

text \<open>
  \<^verbatim>\<open>strconv.ParseUint(s, base, bits)\<close> and \<^verbatim>\<open>strconv.ParseInt(s, base, bits)\<close> for bases up to 10.
\<close>

definition digit_val :: "char \<Rightarrow> nat option" where
  "digit_val c = (let n = of_char c :: nat in if 48 \<le> n \<and> n \<le> 57 then Some (n - 48) else None)"

fun parse_digits :: "nat \<Rightarrow> nat \<Rightarrow> string \<Rightarrow> nat option" where
  "parse_digits base acc [] = Some acc"
| "parse_digits base acc (c # cs) =
     (case digit_val c of
        None \<Rightarrow> None
      | Some d \<Rightarrow> if d < base then parse_digits base (acc * base + d) cs else None)"

definition ParseUint :: "string \<Rightarrow> nat \<Rightarrow> nat \<Rightarrow> nat res" where
  "ParseUint s base bits =
     (if s = [] then Err ''invalid syntax''
      else case parse_digits base 0 s of
             None \<Rightarrow> Err ''invalid syntax''
           | Some n \<Rightarrow> if n < 2 ^ bits then Ok n else Err ''value out of range'')"

definition ParseInt :: "string \<Rightarrow> nat \<Rightarrow> nat \<Rightarrow> int res" where
  "ParseInt s base bits =
     (case s of
        [] \<Rightarrow> Err ''invalid syntax''
      | c # cs \<Rightarrow>
          bind_res (ParseUint (if c = CHR ''+'' \<or> c = CHR ''-'' then cs else s) base bits)
            (\<lambda>n. if c = CHR ''-''
                 then (if n \<le> 2 ^ (bits - 1) then Ok (- int n) else Err ''value out of range'')
                 else (if n < 2 ^ (bits - 1) then Ok (int n) else Err ''value out of range'')))"

text \<open>The numbers these functions read, by their digits and their value.\<close>

definition is_number :: "nat \<Rightarrow> string \<Rightarrow> bool" where
  "is_number base s \<longleftrightarrow> s \<noteq> [] \<and> list_all (\<lambda>c. 48 \<le> (of_char c :: nat) \<and> of_char c < 48 + base) s"

definition number_value :: "nat \<Rightarrow> string \<Rightarrow> nat" where
  "number_value base s = foldl (\<lambda>acc c. acc * base + (of_char c - 48)) 0 s"

lemma parse_digits_number:
  assumes "base \<le> 10"
  shows "parse_digits base acc s =
    (if list_all (\<lambda>c. 48 \<le> (of_char c :: nat) \<and> of_char c < 48 + base) s
     then Some (foldl (\<lambda>acc c. acc * base + (of_char c - 48)) acc s) else None)"
  using assms by (induction s arbitrary: acc) (auto simp: digit_val_def Let_def)

lemma ParseUint_ok: "base \<le> 10 \<Longrightarrow> is_ok (ParseUint s base bits) \<longleftrightarrow> is_number base s \<and> number_value base s < 2 ^ bits"
  by (auto simp: ParseUint_def parse_digits_number is_number_def number_value_def)

lemma ParseUint_value: "base \<le> 10 \<Longrightarrow> ParseUint s base bits = Ok n \<Longrightarrow> n = number_value base s"
  by (auto simp: ParseUint_def parse_digits_number number_value_def split: if_splits)

definition is_integer :: "nat \<Rightarrow> nat \<Rightarrow> string \<Rightarrow> bool" where
  "is_integer base bits s \<longleftrightarrow>
     (\<exists>sign ds. s = sign @ ds \<and> sign \<in> {[], ''+'', ''-''} \<and> is_number base ds \<and> number_value base ds < 2 ^ bits \<and>
        (if sign = ''-'' then number_value base ds \<le> 2 ^ (bits - 1) else number_value base ds < 2 ^ (bits - 1)))"

lemma is_integer_Cons:
  "is_integer base bits (c # cs) \<longleftrightarrow>
     is_number base (c # cs) \<and> number_value base (c # cs) < 2 ^ bits \<and> number_value base (c # cs) < 2 ^ (bits - 1) \<or>
     c = CHR ''+'' \<and> is_number base cs \<and> number_value base cs < 2 ^ bits \<and> number_value base cs < 2 ^ (bits - 1) \<or>
     c = CHR ''-'' \<and> is_number base cs \<and> number_value base cs < 2 ^ bits \<and> number_value base cs \<le> 2 ^ (bits - 1)"
proof -
  have ex: "(\<exists>sign ds. c # cs = sign @ ds \<and> sign \<in> {[], ''+'', ''-''} \<and> P sign ds) \<longleftrightarrow>
      (\<exists>ds. c # cs = [] @ ds \<and> P [] ds) \<or> (\<exists>ds. c # cs = ''+'' @ ds \<and> P ''+'' ds) \<or> (\<exists>ds. c # cs = ''-'' @ ds \<and> P ''-'' ds)" for P
    by blast
  show ?thesis unfolding is_integer_def by (subst ex) simp
qed

lemma ParseInt_ok:
  assumes "base \<le> 10" shows "is_ok (ParseInt s base bits) \<longleftrightarrow> is_integer base bits s"
proof (cases s)
  case Nil
  then show ?thesis by (simp add: ParseInt_def is_integer_def is_number_def)
next
  case (Cons c cs)
  have signs: "\<not> is_number base (CHR ''+'' # t)" "\<not> is_number base (CHR ''-'' # t)" for t
    by (simp_all add: is_number_def)
  have parsed: "is_ok (bind_res (ParseUint t base bits) k) \<longleftrightarrow>
      is_number base t \<and> number_value base t < 2 ^ bits \<and> is_ok (k (number_value base t))" for t and k :: "nat \<Rightarrow> int res"
    using ParseUint_ok [OF assms, of t bits] ParseUint_value [OF assms, of t bits]
    by (cases "ParseUint t base bits") auto
  consider "c = CHR ''+''" | "c = CHR ''-''" | "c \<noteq> CHR ''+''" "c \<noteq> CHR ''-''" by blast
  then show ?thesis
    unfolding Cons is_integer_Cons ParseInt_def list.case parsed
    by cases (simp_all add: signs is_ok_def)
qed

lemma ParseUint_bound: "ParseUint s base bits = Ok n \<Longrightarrow> n < 2 ^ bits"
  by (auto simp: ParseUint_def split: if_splits option.splits)

lemma ParseInt_bound:
  "ParseInt s base bits = Ok i \<Longrightarrow> - (2 ^ (bits - 1)) \<le> i \<and> i < 2 ^ (bits - 1)"
proof -
  assume ok: "ParseInt s base bits = Ok i"
  have neg: "- (2 ^ k) \<le> (0::int)" and pos: "(0::int) < 2 ^ k" for k
    by simp_all
  have "(\<exists>n. i = int n \<and> n < 2 ^ (bits - 1)) \<or> (\<exists>n. i = - int n \<and> n \<le> 2 ^ (bits - 1))"
  proof (cases s)
    case Nil
    with ok show ?thesis by (simp add: ParseInt_def)
  next
    case (Cons c cs)
    then obtain n where "(if c = CHR ''-''
        then (if n \<le> 2 ^ (bits - 1) then Ok (- int n) else Err ''value out of range'')
        else (if n < 2 ^ (bits - 1) then Ok (int n) else Err ''value out of range'')) = Ok i"
      using ok by (auto simp: ParseInt_def)
    then show ?thesis
      by (cases "c = CHR ''-''"; cases "n < 2 ^ (bits - 1)"; cases "n = 2 ^ (bits - 1)") auto
  qed
  then show ?thesis
    by (auto intro: order_trans [OF neg] le_less_trans [OF _ pos])
qed

lemma dec_digits_not_Nil [simp]: "dec_digits n \<noteq> []"
  by (subst dec_digits.simps) simp

lemma dec_digits_range:
  "c \<in> set (dec_digits n) \<Longrightarrow> 48 \<le> (of_char c :: nat) \<and> (of_char c :: nat) \<le> 57"
proof (induction n rule: dec_digits.induct)
  case (1 n)
  show ?case
  proof (cases "n < 10")
    case True
    with "1.prems" show ?thesis by (simp add: dec_digits.simps [of n])
  next
    case False
    with "1.prems" consider "c \<in> set (dec_digits (n div 10))" | "c = char_of (48 + n mod 10)"
      by (auto simp: dec_digits.simps [of n])
    then show ?thesis
    proof cases
      case 2
      have "n mod 10 < 10" by simp
      with 2 show ?thesis by (simp del: mod_less_divisor)
    qed (use "1.IH" False in blast)
  qed
qed

lemma parse_digits_append:
  "parse_digits b acc (xs @ ys) =
     (case parse_digits b acc xs of None \<Rightarrow> None | Some m \<Rightarrow> parse_digits b m ys)"
  by (induction xs arbitrary: acc) (auto split: option.splits)

lemma digit_val_char: "d < 10 \<Longrightarrow> digit_val (char_of (48 + d)) = Some d"
  by (simp add: digit_val_def)

lemma parse_dec_digits: "parse_digits 10 0 (dec_digits n) = Some n"
proof (induction n rule: dec_digits.induct)
  case (1 n)
  show ?case
  proof (cases "n < 10")
    case True
    then show ?thesis by (simp add: dec_digits.simps [of n] digit_val_char)
  next
    case False
    with "1.IH" show ?thesis
      by (simp add: dec_digits.simps [of n] parse_digits_append digit_val_char)
  qed
qed

lemma ParseUint_dec_digits: "n < 2 ^ bits \<Longrightarrow> ParseUint (dec_digits n) 10 bits = Ok n"
  by (simp add: ParseUint_def parse_dec_digits)

lemma dec_digits_inj: "dec_digits m = dec_digits n \<Longrightarrow> m = n"
  by (metis option.inject parse_dec_digits)

lemma trim_space_id:
  assumes "\<And>c. c \<in> set s \<Longrightarrow> \<not> is_space c" shows "trim_space s = s"
proof -
  have "dropWhile is_space s = s" "dropWhile is_space (rev s) = rev s"
    using assms hd_in_set [of s] hd_in_set [of "rev s"] by (auto simp: dropWhile_eq_self_iff)
  then show ?thesis by (simp add: trim_space_def)
qed

lemma trim_space_dec_digits [simp]: "trim_space (dec_digits n) = dec_digits n"
  by (rule trim_space_id) (auto simp: is_space_def dest: dec_digits_range)

lemma splitN_sep:
  "c \<notin> set s \<Longrightarrow> splitN (Suc (Suc n)) c (s @ c # t) = s # splitN (Suc n) c t"
  by (induction s) (simp_all split: list.splits)

section \<open>Lists and options\<close>

lemma find_unique_key:
  assumes "distinct (map f xs)"
  shows "find (\<lambda>x. f x = k) xs = Some x \<longleftrightarrow> x \<in> set xs \<and> f x = k"
  using assms by (induction xs) (auto simp: image_iff)

lemma option_eqI: "(\<And>x. a = Some x \<longleftrightarrow> b = Some x) \<Longrightarrow> a = b"
  by (cases a; cases b) auto

lemma sort_key_perm:
  assumes "distinct (map f xs)" and "mset ys = mset xs"
  shows "sort_key f ys = sort_key f xs"
proof -
  have set: "set ys = set xs" using assms(2) by (rule mset_eq_setD)
  have "mset (map f ys) = mset (map f xs)" using assms(2) by simp
  then have "distinct (map f ys)"
    using assms(1) mset_eq_imp_distinct_iff by blast
  then have "sorted_wrt (<) (map f (sort_key f ys))" "sorted_wrt (<) (map f (sort_key f xs))"
    using assms(1) by (simp_all add: strict_sorted_iff distinct_map)
  then have "map f (sort_key f ys) = map f (sort_key f xs)"
    by (intro strict_sorted_equal) (simp_all add: set)
  then show ?thesis
    by (rule map_inj_on) (use assms(1) in \<open>simp add: set distinct_map\<close>)
qed

end
