(* ===== verification/Image_Index.thy ===== *)
theory Image_Index
  imports Prelude
begin

text \<open>
  Merging image indexes, \<^verbatim>\<open>util/index.go\<close>.  An index is seen through the two methods of
  \<^verbatim>\<open>v1.ImageIndex\<close> the code calls.  \<^verbatim>\<open>mutate.AppendManifests\<close> is modelled from the vendored
  library, with the library's \<^verbatim>\<open>partial.Descriptor\<close> as the argument \<open>own\<close>; \<^verbatim>\<open>v1.NewHash\<close> is the
  argument \<open>newHash\<close>.
\<close>

section \<open>Definitions\<close>

record Hash =
  h_Algorithm :: string
  h_Hex :: string

record Platform =
  pl_Architecture :: string
  pl_OS :: string
  pl_Variant :: string

record Descriptor =
  d_Digest :: Hash
  d_Platform :: "Platform option"
  d_Annotations :: "(string \<times> string) list"

record 'img ImageIndex =
  ix_manifests :: "Descriptor list res"
  ix_image :: "Hash \<Rightarrow> 'img res"

record 'img IndexAddendum =
  ia_Add :: 'img
  ia_Descriptor :: Descriptor

definition AnnotationDockerReferenceDigest :: string where
  "AnnotationDockerReferenceDigest = ''vnd.docker.reference.digest''"

definition Hash_String :: "Hash \<Rightarrow> string" where
  "Hash_String h = h_Algorithm h @ '':'' @ h_Hex h"

definition platformKey :: "Platform \<Rightarrow> string" where
  "platformKey p = pl_Architecture p @ ''/'' @ pl_OS p @ ''/'' @ pl_Variant p"

definition referenceDigest :: "Descriptor \<Rightarrow> string" where
  "referenceDigest m =
     (case map_of (d_Annotations m) AnnotationDockerReferenceDigest of None \<Rightarrow> [] | Some s \<Rightarrow> s)"

definition indexSuperset :: "Descriptor list \<Rightarrow> Descriptor list \<Rightarrow> bool" where
  "indexSuperset inner outer =
     (if length inner > length outer then False
      else list_all (\<lambda>m. d_Digest m \<in> set (map d_Digest outer)) inner)"

text \<open>The first loop: digests and platforms of the primary index.\<close>

definition primaryMaps :: "Descriptor list \<Rightarrow> (Hash \<Rightarrow> bool) \<times> (string \<Rightarrow> bool)" where
  "primaryMaps pm =
     fold (\<lambda>m (manifestMap, platformMap).
         case d_Platform m of
           None \<Rightarrow> (manifestMap, platformMap)
         | Some p \<Rightarrow>
             if pl_Architecture p = [] then (manifestMap, platformMap)
             else (manifestMap(d_Digest m := True), platformMap(platformKey p := True)))
       pm (\<lambda>_. False, \<lambda>_. False)"

type_synonym 'img addState = "(Hash \<Rightarrow> bool) \<times> 'img IndexAddendum list"

definition addManifest ::
  "(Hash \<Rightarrow> 'img res) \<Rightarrow> Descriptor \<Rightarrow> 'img addState \<Rightarrow> 'img addState res" where
  "addManifest img m st =
     (case st of (manifestMap, adds) \<Rightarrow>
        bind_res (wrap_err (''could not get image '' @ Hash_String (d_Digest m) @ '': '')
                    (img (d_Digest m)))
          (\<lambda>i. Ok (manifestMap(d_Digest m := True),
                   adds @ [\<lparr>ia_Add = i, ia_Descriptor = m\<rparr>])))"

definition addPlatform ::
  "(Hash \<Rightarrow> 'img res) \<Rightarrow> (string \<Rightarrow> bool) \<Rightarrow> Descriptor \<Rightarrow> 'img addState \<Rightarrow> 'img addState res" where
  "addPlatform img platformMap m st =
     (case d_Platform m of
        None \<Rightarrow> Ok st
      | Some p \<Rightarrow>
          if pl_Architecture p = [] \<or> (pl_Architecture p = ''unknown'' \<and> pl_OS p = ''unknown'')
          then Ok st
          else if platformMap (platformKey p) then Ok st
          else if fst st (d_Digest m) then Ok st
          else addManifest img m st)"

definition addAttestation ::
  "(string \<Rightarrow> Hash res) \<Rightarrow> (Hash \<Rightarrow> 'img res) \<Rightarrow> Descriptor \<Rightarrow> 'img addState \<Rightarrow> 'img addState res"
where
  "addAttestation newHash img m st =
     (case d_Platform m of
        None \<Rightarrow> Ok st
      | Some p \<Rightarrow>
          if pl_Architecture p \<noteq> ''unknown'' \<or> pl_OS p \<noteq> ''unknown'' \<or> referenceDigest m = []
          then Ok st
          else if fst st (d_Digest m) then Ok st
          else bind_res (wrap_err (''could not parse hash '' @ referenceDigest m @ '': '')
                           (newHash (referenceDigest m)))
                 (\<lambda>dig. if \<not> fst st dig then Ok st else addManifest img m st))"

definition indexAdds ::
  "(string \<Rightarrow> Hash res) \<Rightarrow> (Hash \<Rightarrow> 'img res) \<Rightarrow> Descriptor list \<Rightarrow> Descriptor list \<Rightarrow>
    'img IndexAddendum list res" where
  "indexAdds newHash img pm sm =
     (let (manifestMap, platformMap) = primaryMaps pm in
      bind_res (loop_res (addPlatform img platformMap) sm (manifestMap, []))
        (\<lambda>st. bind_res (loop_res (addAttestation newHash img) sm st) (\<lambda>st'. Ok (snd st'))))"

text \<open>
  \<^verbatim>\<open>mutate.AppendManifests\<close>: the descriptor given with an addition overrides the image's own,
  field by field, where it is set.
\<close>

definition computeDescriptor :: "('img \<Rightarrow> Descriptor res) \<Rightarrow> 'img IndexAddendum \<Rightarrow> Descriptor res" where
  "computeDescriptor own ia =
     bind_res (own (ia_Add ia))
       (\<lambda>desc. let d = ia_Descriptor ia in
          Ok \<lparr>d_Digest = (if d_Digest d \<noteq> \<lparr>h_Algorithm = [], h_Hex = []\<rparr> then d_Digest d
                           else d_Digest desc),
              d_Platform = (if d_Platform d \<noteq> None then d_Platform d else d_Platform desc),
              d_Annotations = (if d_Annotations d \<noteq> [] then d_Annotations d
                               else d_Annotations desc)\<rparr>)"

definition AppendManifests ::
  "('img \<Rightarrow> Descriptor res) \<Rightarrow> 'img ImageIndex \<Rightarrow> 'img IndexAddendum list \<Rightarrow> 'img ImageIndex" where
  "AppendManifests own base adds =
     \<lparr>ix_manifests =
        bind_res (ix_manifests base)
          (\<lambda>ms. bind_res (map_res (computeDescriptor own) adds) (\<lambda>ds. Ok (ms @ ds))),
      ix_image = (\<lambda>h. case find (\<lambda>ia. d_Digest (ia_Descriptor ia) = h) (rev adds) of
                        Some ia \<Rightarrow> Ok (ia_Add ia) | None \<Rightarrow> ix_image base h)\<rparr>"

definition AppendIndex ::
  "(string \<Rightarrow> Hash res) \<Rightarrow> ('img \<Rightarrow> Descriptor res) \<Rightarrow> 'img ImageIndex \<Rightarrow> 'img ImageIndex \<Rightarrow>
    'img ImageIndex res" where
  "AppendIndex newHash own primary secondary =
     bind_res (ix_manifests primary)
     (\<lambda>primaryManifest. bind_res (ix_manifests secondary)
     (\<lambda>secondaryManifest.
        if indexSuperset primaryManifest secondaryManifest then Ok secondary
        else bind_res (indexAdds newHash (ix_image secondary) primaryManifest secondaryManifest)
               (\<lambda>adds. Ok (AppendManifests own primary adds))))"

section \<open>Lemmas\<close>

text \<open>An image with a platform, an attestation, and the platforms an index covers.\<close>

definition is_image :: "Descriptor \<Rightarrow> bool" where
  "is_image m \<longleftrightarrow> (\<exists>p. d_Platform m = Some p \<and> pl_Architecture p \<noteq> [] \<and>
     \<not> (pl_Architecture p = ''unknown'' \<and> pl_OS p = ''unknown''))"

definition is_attestation :: "Descriptor \<Rightarrow> bool" where
  "is_attestation m \<longleftrightarrow> (\<exists>p. d_Platform m = Some p \<and> pl_Architecture p = ''unknown'' \<and>
     pl_OS p = ''unknown'') \<and> referenceDigest m \<noteq> []"

definition platforms :: "Descriptor list \<Rightarrow> string set" where
  "platforms ms = {platformKey p | m p. m \<in> set ms \<and> d_Platform m = Some p \<and> pl_Architecture p \<noteq> []}"

definition known_digests :: "Descriptor list \<Rightarrow> Hash set" where
  "known_digests ms =
     {d_Digest m | m. m \<in> set ms \<and> (\<exists>p. d_Platform m = Some p \<and> pl_Architecture p \<noteq> [])}"

lemma primaryMaps_sets:
  "primaryMaps pm = (\<lambda>h. h \<in> known_digests pm, \<lambda>k. k \<in> platforms pm)"
proof -
  let ?f = "\<lambda>m (manifestMap, platformMap).
         case d_Platform m of
           None \<Rightarrow> (manifestMap, platformMap)
         | Some p \<Rightarrow>
             if pl_Architecture p = [] then (manifestMap, platformMap)
             else (manifestMap(d_Digest m := True), platformMap(platformKey p := True))"
  have "fold ?f pm (mm, pp) =
      (\<lambda>h. mm h \<or> h \<in> known_digests pm, \<lambda>k. pp k \<or> k \<in> platforms pm)" for mm pp
  proof (induction pm arbitrary: mm pp)
    case Nil
    then show ?case by (simp add: known_digests_def platforms_def)
  next
    case (Cons m pm)
    show ?case
    proof (cases "\<exists>p. d_Platform m = Some p \<and> pl_Architecture p \<noteq> []")
      case True
      then obtain p where p: "d_Platform m = Some p" "pl_Architecture p \<noteq> []" by blast
      then have "known_digests (m # pm) = insert (d_Digest m) (known_digests pm)"
        "platforms (m # pm) = insert (platformKey p) (platforms pm)"
        by (auto simp: known_digests_def platforms_def)
      with p Cons.IH show ?thesis by (auto simp: fun_eq_iff)
    next
      case False
      then have "known_digests (m # pm) = known_digests pm" "platforms (m # pm) = platforms pm"
        by (auto simp: known_digests_def platforms_def)
      moreover have "?f m (mm, pp) = (mm, pp)" using False by (auto split: option.splits)
      ultimately show ?thesis using Cons.IH by simp
    qed
  qed
  from this [of "\<lambda>_. False" "\<lambda>_. False"] show ?thesis by (simp add: primaryMaps_def)
qed

abbreviation added :: "'img IndexAddendum list \<Rightarrow> Hash set" where
  "added adds \<equiv> (\<lambda>a. d_Digest (ia_Descriptor a)) ` set adds"

lemma addManifest_Ok:
  "addManifest img m (mm, adds) = Ok st \<longleftrightarrow>
     (\<exists>i. img (d_Digest m) = Ok i \<and>
       st = (mm(d_Digest m := True), adds @ [\<lparr>ia_Add = i, ia_Descriptor = m\<rparr>]))"
  by (auto simp: addManifest_def)

lemma addPlatform_cases:
  assumes "addPlatform img pf m (mm, adds) = Ok st"
  obtains (skip) "st = (mm, adds)" "is_image m \<Longrightarrow> pf (platformKey (the (d_Platform m))) \<or> mm (d_Digest m)"
  | (add) i where "is_image m" "\<not> pf (platformKey (the (d_Platform m)))" "\<not> mm (d_Digest m)"
      "img (d_Digest m) = Ok i"
      "st = (mm(d_Digest m := True), adds @ [\<lparr>ia_Add = i, ia_Descriptor = m\<rparr>])"
  using assms
  by (cases "d_Platform m") (auto simp: addPlatform_def addManifest_Ok is_image_def split: if_splits)

lemma addAttestation_cases:
  assumes "addAttestation newHash img m (mm, adds) = Ok st"
  obtains (skip) "st = (mm, adds)"
      "is_attestation m \<Longrightarrow> mm (d_Digest m) \<or>
        (\<exists>h. newHash (referenceDigest m) = Ok h \<and> \<not> mm h)"
  | (add) i h where "is_attestation m" "\<not> mm (d_Digest m)"
      "newHash (referenceDigest m) = Ok h" "mm h" "img (d_Digest m) = Ok i"
      "st = (mm(d_Digest m := True), adds @ [\<lparr>ia_Add = i, ia_Descriptor = m\<rparr>])"
  using assms
  by (cases "d_Platform m")
    (auto simp: addAttestation_def addManifest_Ok is_attestation_def split: if_splits)

text \<open>What a run of either loop does to the state: the additions are new, and recorded.\<close>

definition ix_grows :: "'img addState \<Rightarrow> 'img addState \<Rightarrow> 'img IndexAddendum list \<Rightarrow> bool" where
  "ix_grows st st' new \<longleftrightarrow>
     snd st' = snd st @ new \<and> fst st' = (\<lambda>h. fst st h \<or> h \<in> added new) \<and>
     distinct (map (\<lambda>a. d_Digest (ia_Descriptor a)) new) \<and> (\<forall>h \<in> added new. \<not> fst st h)"

lemma ix_grows_refl: "ix_grows st st []"
  by (simp add: ix_grows_def)

lemma ix_grows_step:
  assumes "\<not> mm (d_Digest m)"
    and "ix_grows (mm(d_Digest m := True), adds @ [\<lparr>ia_Add = i, ia_Descriptor = m\<rparr>]) st' new"
  shows "ix_grows (mm, adds) st' (\<lparr>ia_Add = i, ia_Descriptor = m\<rparr> # new)"
  using assms by (fastforce simp: ix_grows_def fun_eq_iff split: if_splits)

lemma ix_grows_mono: "ix_grows st st' new \<Longrightarrow> fst st h \<Longrightarrow> fst st' h"
  by (simp add: ix_grows_def)

lemma platform_loop:
  assumes "loop_res (addPlatform img pf) ms st = Ok st'"
  shows "\<exists>new. ix_grows st st' new \<and>
    (\<forall>a \<in> set new. ia_Descriptor a \<in> set ms \<and> is_image (ia_Descriptor a) \<and>
      \<not> pf (platformKey (the (d_Platform (ia_Descriptor a))))) \<and>
    (\<forall>m \<in> set ms. is_image m \<longrightarrow>
      pf (platformKey (the (d_Platform m))) \<or> fst st' (d_Digest m))"
  using assms
proof (induction ms arbitrary: st)
  case Nil
  then show ?case using ix_grows_refl [of st'] by auto
next
  case (Cons m ms)
  obtain mm adds where st: "st = (mm, adds)" by (cases st)
  from Cons.prems obtain st1 where 1: "addPlatform img pf m (mm, adds) = Ok st1"
    "loop_res (addPlatform img pf) ms st1 = Ok st'" by (auto simp: st)
  from Cons.IH [OF 1(2)] obtain new where new: "ix_grows st1 st' new"
    "\<forall>a \<in> set new. ia_Descriptor a \<in> set ms \<and> is_image (ia_Descriptor a) \<and>
      \<not> pf (platformKey (the (d_Platform (ia_Descriptor a))))"
    "\<forall>m \<in> set ms. is_image m \<longrightarrow>
      pf (platformKey (the (d_Platform m))) \<or> fst st' (d_Digest m)" by blast
  from 1(1) show ?case
  proof (cases rule: addPlatform_cases)
    case skip
    with new ix_grows_mono [OF new(1), of "d_Digest m"] show ?thesis
      by (intro exI [of _ new]) (auto simp: st)
  next
    case (add i)
    with new ix_grows_mono [OF new(1), of "d_Digest m"] ix_grows_step [OF add(3) new(1) [unfolded add(5)]]
    show ?thesis
      by (intro exI [of _ "\<lparr>ia_Add = i, ia_Descriptor = m\<rparr> # new"]) (auto simp: st)
  qed
qed

lemma attestation_loop:
  assumes "loop_res (addAttestation newHash img) ms st = Ok st'"
  shows "\<exists>new. ix_grows st st' new \<and>
    (\<forall>a \<in> set new. ia_Descriptor a \<in> set ms \<and> is_attestation (ia_Descriptor a) \<and>
      (\<exists>h. newHash (referenceDigest (ia_Descriptor a)) = Ok h \<and> fst st' h)) \<and>
    (\<forall>m \<in> set ms. is_attestation m \<longrightarrow> fst st' (d_Digest m) \<or>
      (\<exists>h. newHash (referenceDigest m) = Ok h \<and> \<not> fst st h))"
  using assms
proof (induction ms arbitrary: st)
  case Nil
  then show ?case using ix_grows_refl [of st'] by auto
next
  case (Cons m ms)
  obtain mm adds where st: "st = (mm, adds)" by (cases st)
  from Cons.prems obtain st1 where 1: "addAttestation newHash img m (mm, adds) = Ok st1"
    "loop_res (addAttestation newHash img) ms st1 = Ok st'" by (auto simp: st)
  from Cons.IH [OF 1(2)] obtain new where new: "ix_grows st1 st' new"
    "\<forall>a \<in> set new. ia_Descriptor a \<in> set ms \<and> is_attestation (ia_Descriptor a) \<and>
      (\<exists>h. newHash (referenceDigest (ia_Descriptor a)) = Ok h \<and> fst st' h)"
    "\<forall>m \<in> set ms. is_attestation m \<longrightarrow> fst st' (d_Digest m) \<or>
      (\<exists>h. newHash (referenceDigest m) = Ok h \<and> \<not> fst st1 h)" by blast
  from 1(1) show ?case
  proof (cases rule: addAttestation_cases)
    case skip
    with new ix_grows_mono [OF new(1), of "d_Digest m"] show ?thesis
      by (intro exI [of _ new]) (auto simp: st)
  next
    case (add i h)
    have "fst st' h" using ix_grows_mono [OF new(1)] add(4,6) by simp
    moreover have "\<forall>m \<in> set ms. is_attestation m \<longrightarrow> fst st' (d_Digest m) \<or>
        (\<exists>h. newHash (referenceDigest m) = Ok h \<and> \<not> mm h)"
      using new(3) add(6) by (fastforce split: if_splits)
    ultimately show ?thesis
      using new(2) add ix_grows_mono [OF new(1), of "d_Digest m"]
        ix_grows_step [OF add(2) new(1) [unfolded add(6)]]
      by (intro exI [of _ "\<lparr>ia_Add = i, ia_Descriptor = m\<rparr> # new"]) (auto simp: st)
  qed
qed

lemma indexAdds_Ok:
  assumes "indexAdds newHash img pm sm = Ok adds"
  obtains imgs atts where "adds = imgs @ atts"
    "distinct (map (\<lambda>a. d_Digest (ia_Descriptor a)) adds)" "added adds \<inter> known_digests pm = {}"
    "\<forall>a \<in> set imgs. ia_Descriptor a \<in> set sm \<and> is_image (ia_Descriptor a) \<and>
       platformKey (the (d_Platform (ia_Descriptor a))) \<notin> platforms pm"
    "\<forall>m \<in> set sm. is_image m \<longrightarrow> platformKey (the (d_Platform m)) \<in> platforms pm \<or>
       d_Digest m \<in> known_digests pm \<union> added imgs"
    "\<forall>a \<in> set atts. ia_Descriptor a \<in> set sm \<and> is_attestation (ia_Descriptor a) \<and>
       (\<exists>h. newHash (referenceDigest (ia_Descriptor a)) = Ok h \<and> h \<in> known_digests pm \<union> added adds)"
    "\<forall>m \<in> set sm. is_attestation m \<longrightarrow> d_Digest m \<in> known_digests pm \<union> added adds \<or>
       (\<exists>h. newHash (referenceDigest m) = Ok h \<and> h \<notin> known_digests pm \<union> added imgs)"
proof -
  from assms obtain st1 st2 where
    1: "loop_res (addPlatform img (\<lambda>k. k \<in> platforms pm)) sm (\<lambda>h. h \<in> known_digests pm, []) = Ok st1"
    and 2: "loop_res (addAttestation newHash img) sm st1 = Ok st2" and adds: "adds = snd st2"
    by (auto simp: indexAdds_def primaryMaps_sets)
  from platform_loop [OF 1] obtain imgs where imgs:
    "ix_grows (\<lambda>h. h \<in> known_digests pm, []) st1 imgs"
    "\<forall>a \<in> set imgs. ia_Descriptor a \<in> set sm \<and> is_image (ia_Descriptor a) \<and>
       platformKey (the (d_Platform (ia_Descriptor a))) \<notin> platforms pm"
    "\<forall>m \<in> set sm. is_image m \<longrightarrow> platformKey (the (d_Platform m)) \<in> platforms pm \<or>
       fst st1 (d_Digest m)" by blast
  from attestation_loop [OF 2] obtain atts where atts: "ix_grows st1 st2 atts"
    "\<forall>a \<in> set atts. ia_Descriptor a \<in> set sm \<and> is_attestation (ia_Descriptor a) \<and>
       (\<exists>h. newHash (referenceDigest (ia_Descriptor a)) = Ok h \<and> fst st2 h)"
    "\<forall>m \<in> set sm. is_attestation m \<longrightarrow> fst st2 (d_Digest m) \<or>
       (\<exists>h. newHash (referenceDigest m) = Ok h \<and> \<not> fst st1 h)" by blast
  have fst1: "fst st1 = (\<lambda>h. h \<in> known_digests pm \<union> added imgs)"
    using imgs(1) by (simp add: ix_grows_def fun_eq_iff)
  have all: "adds = imgs @ atts" using imgs(1) atts(1) by (simp add: ix_grows_def adds)
  have fst2: "fst st2 = (\<lambda>h. h \<in> known_digests pm \<union> added adds)"
    using atts(1) by (auto simp: ix_grows_def fun_eq_iff fst1 all)
  have "added imgs \<inter> added atts = {}"
    using atts(1) unfolding ix_grows_def fst1 by blast
  then have dist: "distinct (map (\<lambda>a. d_Digest (ia_Descriptor a)) adds)"
    using imgs(1) atts(1) by (simp add: ix_grows_def all)
  have "added adds \<inter> known_digests pm = {}"
    using imgs(1) atts(1) unfolding ix_grows_def fst1 all by auto
  then show thesis
    using that [OF all dist] imgs(2,3) atts(2,3) unfolding fst1 fst2 by blast
qed

lemma indexAdds_total:
  assumes "\<And>h. is_ok (img h)" and "\<And>s. is_ok (newHash s)"
  shows "is_ok (indexAdds newHash img pm sm)"
proof -
  have add: "is_ok (addManifest img m st)" for m st
    using assms(1) [of "d_Digest m"] by (cases st) (auto simp: addManifest_def is_ok_iff)
  have "is_ok (loop_res f ms st)" if "\<And>m st. is_ok (f m st)"
    for f :: "Descriptor \<Rightarrow> 'a addState \<Rightarrow> 'a addState res" and ms st
    using that by (induction ms arbitrary: st) (simp_all add: is_ok_bind is_ok_iff, blast)
  moreover have "is_ok (addPlatform img pf m st)" for pf m st
    using add by (simp add: addPlatform_def split: option.splits)
  moreover have "is_ok (addAttestation newHash img m st)" for m st
  proof -
    obtain h where "newHash (referenceDigest m) = Ok h"
      using assms(2) unfolding is_ok_iff by blast
    with add show ?thesis by (simp add: addAttestation_def split: option.splits)
  qed
  ultimately show ?thesis
    by (simp add: indexAdds_def is_ok_bind_const primaryMaps_sets)
qed

lemma AppendIndex_ok:
  assumes "ix_manifests primary = Ok pm" and "ix_manifests secondary = Ok sm"
    and "is_ok (indexAdds newHash (ix_image secondary) pm sm)"
  shows "is_ok (AppendIndex newHash own primary secondary)"
  using assms by (simp add: AppendIndex_def)

section \<open>An example\<close>

definition demoDescriptor :: "string \<Rightarrow> string \<Rightarrow> string \<Rightarrow> Descriptor" where
  "demoDescriptor hex arch refers =
     \<lparr>d_Digest = \<lparr>h_Algorithm = ''sha256'', h_Hex = hex\<rparr>,
      d_Platform = Some \<lparr>pl_Architecture = arch,
        pl_OS = (if refers = [] then ''linux'' else ''unknown''), pl_Variant = []\<rparr>,
      d_Annotations = (if refers = [] then [] else [(AnnotationDockerReferenceDigest, refers)])\<rparr>"

definition demoPrimary :: "string ImageIndex" where
  "demoPrimary = \<lparr>ix_manifests = Ok [demoDescriptor ''a1'' ''amd64'' []], ix_image = (\<lambda>h. Ok (h_Hex h))\<rparr>"

definition demoSecondary :: "string ImageIndex" where
  "demoSecondary =
     \<lparr>ix_manifests = Ok [demoDescriptor ''b1'' ''amd64'' [], demoDescriptor ''b2'' ''arm64'' [],
        demoDescriptor ''c1'' ''unknown'' ''b1'', demoDescriptor ''c2'' ''unknown'' ''b2''],
      ix_image = (\<lambda>h. Ok (h_Hex h))\<rparr>"

definition demoHash :: "string \<Rightarrow> Hash res" where
  "demoHash s = Ok \<lparr>h_Algorithm = ''sha256'', h_Hex = s\<rparr>"

definition demoOwn :: "string \<Rightarrow> Descriptor res" where
  "demoOwn s = Ok (demoDescriptor s [] [])"

section \<open>Properties\<close>

definition names_platform :: "Descriptor \<Rightarrow> bool" where
  "names_platform m \<longleftrightarrow> (case d_Platform m of None \<Rightarrow> False | Some p \<Rightarrow> pl_Architecture p \<noteq> [])"

lemma known_digests_all: "list_all names_platform ms \<Longrightarrow> known_digests ms = d_Digest ` set ms"
  by (fastforce simp: known_digests_def list_all_iff names_platform_def split: option.splits)

text \<open>A manifest without a platform is kept, but its attestation is dropped.\<close>

lemma attestation_dropped:
  fixes img :: "Hash \<Rightarrow> 'img res"
  assumes "d_Platform x = None"
    and "newHash (Hash_String (d_Digest x)) = Ok (d_Digest x)" and "Hash_String (d_Digest x) \<noteq> []"
  shows "indexAdds newHash img [x] [\<lparr>d_Digest = d,
      d_Platform = Some \<lparr>pl_Architecture = ''unknown'', pl_OS = ''unknown'', pl_Variant = []\<rparr>,
      d_Annotations = [(AnnotationDockerReferenceDigest, Hash_String (d_Digest x))]\<rparr>] = Ok []"
  using assms
  by (simp add: indexAdds_def primaryMaps_def addPlatform_def addAttestation_def referenceDigest_def)

text \<open>
  C19. Merging two indexes when the second does not already hold the first and every manifest of the
  first names its platform.  Everything the
  primary index lists is kept and comes first; an image is taken from the secondary index only
  for a platform the primary does not cover, and every platform of the secondary is then
  covered by digest or by platform; an attestation is taken only if the manifest it refers to
  is in the merged index, and one whose manifest is there is never dropped; no digest is added
  twice.
\<close>

theorem AppendIndex_merge:
  assumes "AppendIndex newHash own primary secondary = Ok idx"
    and "ix_manifests primary = Ok pm" and "ix_manifests secondary = Ok sm"
    and "\<not> indexSuperset pm sm" and "list_all names_platform pm"
  shows "\<exists>imgs atts. idx = AppendManifests own primary (imgs @ atts) \<and>
    distinct (map (\<lambda>a. d_Digest (ia_Descriptor a)) (imgs @ atts)) \<and>
    added (imgs @ atts) \<inter> d_Digest ` set pm = {} \<and>
    (\<forall>a \<in> set imgs. ia_Descriptor a \<in> set sm \<and> is_image (ia_Descriptor a) \<and>
      platformKey (the (d_Platform (ia_Descriptor a))) \<notin> platforms pm) \<and>
    (\<forall>m \<in> set sm. is_image m \<longrightarrow> platformKey (the (d_Platform m)) \<in> platforms pm \<or>
      d_Digest m \<in> d_Digest ` set pm \<union> added imgs) \<and>
    (\<forall>a \<in> set atts. ia_Descriptor a \<in> set sm \<and> is_attestation (ia_Descriptor a) \<and>
      (\<exists>h. newHash (referenceDigest (ia_Descriptor a)) = Ok h \<and>
        h \<in> d_Digest ` set pm \<union> added (imgs @ atts))) \<and>
    (\<forall>m \<in> set sm. is_attestation m \<longrightarrow> d_Digest m \<in> d_Digest ` set pm \<union> added (imgs @ atts) \<or>
      (\<exists>h. newHash (referenceDigest m) = Ok h \<and> h \<notin> d_Digest ` set pm \<union> added imgs))"
proof -
  from assms obtain adds where "indexAdds newHash (ix_image secondary) pm sm = Ok adds"
    and idx: "idx = AppendManifests own primary adds"
    by (auto simp: AppendIndex_def)
  from this(1) show ?thesis
  proof (cases rule: indexAdds_Ok)
    case (1 imgs atts)
    note kept = 1(2-7) [unfolded known_digests_all [OF assms(5)]]
    show ?thesis unfolding idx
      by (intro exI [of _ imgs] exI [of _ atts]) (use kept in \<open>unfold 1(1), intro conjI refl\<close>)
  qed
qed

theorem AppendIndex_merge_witness:
  "\<exists>idx imgs atts. AppendIndex demoHash demoOwn demoPrimary demoSecondary = Ok idx \<and>
     idx = AppendManifests demoOwn demoPrimary (imgs @ atts)"
proof -
  have pm: "ix_manifests demoPrimary = Ok [demoDescriptor ''a1'' ''amd64'' []]"
    and sm: "ix_manifests demoSecondary = Ok [demoDescriptor ''b1'' ''amd64'' [],
       demoDescriptor ''b2'' ''arm64'' [], demoDescriptor ''c1'' ''unknown'' ''b1'',
       demoDescriptor ''c2'' ''unknown'' ''b2'']"
    by (simp_all add: demoPrimary_def demoSecondary_def)
  have "is_ok (AppendIndex demoHash demoOwn demoPrimary demoSecondary)"
    by (rule AppendIndex_ok [OF pm sm indexAdds_total]) (simp_all add: demoSecondary_def demoHash_def)
  then obtain idx where idx: "AppendIndex demoHash demoOwn demoPrimary demoSecondary = Ok idx"
    unfolding is_ok_iff by blast
  have ns: "\<not> indexSuperset [demoDescriptor ''a1'' ''amd64'' []]
      [demoDescriptor ''b1'' ''amd64'' [], demoDescriptor ''b2'' ''arm64'' [],
       demoDescriptor ''c1'' ''unknown'' ''b1'', demoDescriptor ''c2'' ''unknown'' ''b2'']"
    by (simp add: indexSuperset_def demoDescriptor_def)
  have pl: "list_all names_platform [demoDescriptor ''a1'' ''amd64'' []]"
    by (simp add: names_platform_def demoDescriptor_def)
  obtain imgs atts where "idx = AppendManifests demoOwn demoPrimary (imgs @ atts)"
    by (insert AppendIndex_merge [OF idx pm sm ns pl], elim exE conjE) (rule that)
  with idx show ?thesis by blast
qed

text \<open>
  Merging fails only when the primary or secondary manifest is unreadable, an image of the
  secondary index cannot be fetched or a reference digest cannot be parsed; it never panics.
\<close>

theorem AppendIndex_total:
  assumes "is_ok (ix_manifests primary)" and "is_ok (ix_manifests secondary)"
    and "\<And>h. is_ok (ix_image secondary h)" and "\<And>s. is_ok (newHash s)"
  shows "is_ok (AppendIndex newHash own primary secondary)"
proof -
  from assms(1,2) obtain pm sm where "ix_manifests primary = Ok pm" "ix_manifests secondary = Ok sm"
    unfolding is_ok_iff by blast
  then show ?thesis by (rule AppendIndex_ok) (rule indexAdds_total [OF assms(3,4)])
qed

theorem AppendIndex_total_witness:
  "is_ok (AppendIndex demoHash demoOwn demoPrimary demoSecondary)"
  by (rule AppendIndex_total) (simp_all add: demoPrimary_def demoSecondary_def demoHash_def)

end
