(* ===== verification/Cpio.thy ===== *)
theory Cpio
  imports Prelude
begin

text \<open>
  The cpio archives an initrd is made of: the writer and the reader of the vendored package
  \<^verbatim>\<open>surma/gocpio\<close>, byte by byte, in the new ASCII format.  The underlying stream is in memory (a
  compressor over a \<^verbatim>\<open>bytes.Buffer\<close> when writing), so a write never fails.  The main result is
  that reading an archive back gives the entries that were written, whatever their names and
  contents, as long as every field fits its eight hexadecimal digits.
\<close>

unbundle bit_operations_syntax

section \<open>Headers\<close>

record cpio_hdr =
  c_Mode :: int
  c_Uid :: int
  c_Gid :: int
  c_Mtime :: int
  c_Size :: int
  c_Devmajor :: int
  c_Devminor :: int
  c_Type :: int
  c_Name :: string

abbreviation (input) TYPE_SOCK :: int where "TYPE_SOCK \<equiv> 12"
abbreviation (input) TYPE_SYMLINK :: int where "TYPE_SYMLINK \<equiv> 10"
abbreviation (input) TYPE_REG :: int where "TYPE_REG \<equiv> 8"
abbreviation (input) TYPE_BLK :: int where "TYPE_BLK \<equiv> 6"
abbreviation (input) TYPE_DIR :: int where "TYPE_DIR \<equiv> 4"
abbreviation (input) TYPE_CHAR :: int where "TYPE_CHAR \<equiv> 2"
abbreviation (input) TYPE_FIFO :: int where "TYPE_FIFO \<equiv> 1"

definition trailer :: cpio_hdr where
  "trailer =
     \<lparr>c_Mode = 0, c_Uid = 0, c_Gid = 0, c_Mtime = 0, c_Size = 0, c_Devmajor = 0, c_Devminor = 0,
      c_Type = 0, c_Name = ''TRAILER!!!''\<rparr>"

definition IsTrailer :: "cpio_hdr \<Rightarrow> bool" where
  "IsTrailer h \<longleftrightarrow>
     c_Name h = c_Name trailer \<and> c_Uid h = c_Uid trailer \<and> c_Gid h = c_Gid trailer \<and>
     c_Mtime h = c_Mtime trailer"

section \<open>Hexadecimal fields\<close>

definition hex_char :: "nat \<Rightarrow> char" where
  "hex_char d = (if d < 10 then char_of (48 + d) else char_of (87 + d))"

fun hex_digits :: "nat \<Rightarrow> string" where
  "hex_digits n =
     (if n < 16 then [hex_char n] else hex_digits (n div 16) @ [hex_char (n mod 16)])"

declare hex_digits.simps [simp del]

text \<open>\<^verbatim>\<open>%08x\<close>: the sign counts towards the width.\<close>

definition fmt_08x :: "int \<Rightarrow> string" where
  "fmt_08x i =
     (let s = hex_digits (nat \<bar>i\<bar>) in
      if i < 0 then ''-'' @ replicate (7 - length s) (CHR ''0'') @ s
      else replicate (8 - length s) (CHR ''0'') @ s)"

definition hex_val :: "char \<Rightarrow> nat option" where
  "hex_val c =
     (let n = of_char c :: nat in
      if 48 \<le> n \<and> n \<le> 57 then Some (n - 48)
      else if 97 \<le> n \<and> n \<le> 102 then Some (n - 87)
      else if 65 \<le> n \<and> n \<le> 70 then Some (n - 55) else None)"

fun parse_hex :: "nat \<Rightarrow> string \<Rightarrow> nat option" where
  "parse_hex acc [] = Some acc"
| "parse_hex acc (c # cs) =
     (case hex_val c of None \<Rightarrow> None | Some d \<Rightarrow> parse_hex (acc * 16 + d) cs)"

text \<open>\<^verbatim>\<open>strconv.ParseInt(s, 16, 64)\<close>\<close>

definition ParseHex :: "string \<Rightarrow> int res" where
  "ParseHex s =
     (let neg = (s \<noteq> [] \<and> hd s = CHR ''-'');
          ds = (if s \<noteq> [] \<and> (hd s = CHR ''-'' \<or> hd s = CHR ''+'') then tl s else s) in
      if ds = [] then Err ''invalid syntax''
      else case parse_hex 0 ds of
             None \<Rightarrow> Err ''invalid syntax''
           | Some n \<Rightarrow>
               if neg then (if n \<le> 2 ^ 63 then Ok (- int n) else Err ''value out of range'')
               else (if n < 2 ^ 63 then Ok (int n) else Err ''value out of range''))"

section \<open>The writer\<close>

record cpio_writer =
  cw_w :: string
  cw_inode :: int
  cw_length :: int
  cw_remaining :: int

definition cw_New :: cpio_writer where
  "cw_New = \<lparr>cw_w = [], cw_inode = 721, cw_length = 0, cw_remaining = 0\<rparr>"

definition assemble :: "int \<Rightarrow> int \<Rightarrow> int" where
  "assemble mode typev = (mode AND 0xFFF) OR push_bit 12 (typev AND 0xF)"

definition cw_countedWrite :: "string \<Rightarrow> cpio_writer \<Rightarrow> cpio_writer" where
  "cw_countedWrite b w = w\<lparr>cw_w := cw_w w @ b, cw_length := cw_length w + int (length b)\<rparr>"

fun cw_zeros :: "nat \<Rightarrow> cpio_writer \<Rightarrow> cpio_writer" where
  "cw_zeros 0 w = w"
| "cw_zeros (Suc n) w = cw_zeros n (cw_countedWrite [CHR 0x00] w)"

definition cw_pad :: "int \<Rightarrow> cpio_writer \<Rightarrow> cpio_writer" where
  "cw_pad m w = cw_zeros (nat ((m - cw_length w mod m) mod m)) w"

definition header_line :: "int \<Rightarrow> cpio_hdr \<Rightarrow> string" where
  "header_line inode h =
     ''070701'' @ fmt_08x inode @ fmt_08x (assemble (c_Mode h) (c_Type h)) @ fmt_08x (c_Uid h) @
     fmt_08x (c_Gid h) @ fmt_08x (if c_Type h = TYPE_DIR then 2 else 1) @ fmt_08x (c_Mtime h) @
     fmt_08x (c_Size h) @ fmt_08x 3 @ fmt_08x 1 @ fmt_08x (c_Devmajor h) @ fmt_08x (c_Devminor h) @
     fmt_08x (int (length (c_Name h)) + 1) @ fmt_08x 0"

definition cw_WriteHeader :: "cpio_hdr \<Rightarrow> cpio_writer \<Rightarrow> cpio_writer" where
  "cw_WriteHeader h w =
     (let w = cw_zeros (nat (cw_remaining w)) w;
          w = cw_pad 4 w;
          w = cw_countedWrite (header_line (cw_inode w) h) w;
          w = cw_countedWrite (c_Name h) w;
          w = cw_countedWrite [CHR 0x00] w;
          w = w\<lparr>cw_inode := cw_inode w + 1, cw_remaining := c_Size h\<rparr>
      in cw_pad 4 w)"

text \<open>A write beyond the announced size is cut short, without an error: the count tells.\<close>

definition cw_Write :: "string \<Rightarrow> cpio_writer \<Rightarrow> (nat \<times> cpio_writer) res" where
  "cw_Write b w =
     (if int (length b) > cw_remaining w \<and> cw_remaining w < 0 then Panic
      else let b = (if int (length b) > cw_remaining w then take (nat (cw_remaining w)) b else b);
               w = cw_countedWrite b w
           in Ok (length b, w\<lparr>cw_remaining := cw_remaining w - int (length b)\<rparr>))"

definition cw_Close :: "cpio_writer \<Rightarrow> cpio_writer" where
  "cw_Close w = cw_pad 512 (cw_WriteHeader trailer w)"

section \<open>The reader\<close>

record cpio_reader =
  cr_r :: string
  cr_pos :: int
  cr_remaining :: int

definition cr_New :: "string \<Rightarrow> cpio_reader" where
  "cr_New s = \<lparr>cr_r = s, cr_pos = 0, cr_remaining = 0\<rparr>"

definition disassemble :: "int \<Rightarrow> int \<times> int" where
  "disassemble mode = (mode AND 0xFFF, drop_bit 12 mode AND 0xF)"

text \<open>
  Reading into a zeroed buffer of \<open>n\<close> bytes: at the end of the stream an error, otherwise what is
  left of it, with zeros after it when the read is short.
\<close>

definition cr_countedRead :: "nat \<Rightarrow> cpio_reader \<Rightarrow> (nat \<times> string \<times> cpio_reader) res" where
  "cr_countedRead n r =
     (if n = 0 then Ok (0, [], r)
      else if cr_r r = [] then Err ''EOF''
      else let got = take n (cr_r r) in
           Ok (length got, got @ replicate (n - length got) (CHR 0x00),
               r\<lparr>cr_r := drop n (cr_r r), cr_pos := cr_pos r + int (length got)\<rparr>))"

fun cr_skip :: "nat \<Rightarrow> cpio_reader \<Rightarrow> cpio_reader res" where
  "cr_skip 0 r = Ok r"
| "cr_skip (Suc n) r =
     bind_res (cr_countedRead 1 r)
       (\<lambda>(_, _, r). cr_skip n (r\<lparr>cr_remaining := cr_remaining r - 1\<rparr>))"

definition cr_skipRest :: "cpio_reader \<Rightarrow> cpio_reader res" where
  "cr_skipRest r = cr_skip (nat (cr_remaining r)) r"

definition cr_skipPadding :: "int \<Rightarrow> cpio_reader \<Rightarrow> cpio_reader res" where
  "cr_skipPadding m r =
     bind_res (cr_countedRead (nat ((m - cr_pos r mod m) mod m)) r) (\<lambda>(_, _, r). Ok r)"

definition raw_field :: "nat \<Rightarrow> string \<Rightarrow> string" where
  "raw_field k buf = take 8 (drop (6 + 8 * k) buf)"

definition parseHeader :: "string \<Rightarrow> (cpio_hdr \<times> int) res" where
  "parseHeader buf =
     (if take 6 buf \<noteq> ''070701'' then Err ''Did not find valid magic number''
      else
        bind_res (ParseHex (raw_field 1 buf)) (\<lambda>mode.
        bind_res (ParseHex (raw_field 2 buf)) (\<lambda>uid.
        bind_res (ParseHex (raw_field 3 buf)) (\<lambda>gid.
        bind_res (ParseHex (raw_field 5 buf)) (\<lambda>mtime.
        bind_res (ParseHex (raw_field 6 buf)) (\<lambda>size.
        bind_res (ParseHex (raw_field 9 buf)) (\<lambda>devmajor.
        bind_res (ParseHex (raw_field 10 buf)) (\<lambda>devminor.
        bind_res (ParseHex (raw_field 11 buf)) (\<lambda>namelen.
          Ok (\<lparr>c_Mode = fst (disassemble mode), c_Uid = uid, c_Gid = gid, c_Mtime = mtime,
               c_Size = size, c_Devmajor = devmajor, c_Devminor = devminor,
               c_Type = snd (disassemble mode), c_Name = []\<rparr>, namelen))))))))))"

definition cr_Next :: "cpio_reader \<Rightarrow> (cpio_hdr \<times> cpio_reader) res" where
  "cr_Next r =
     bind_res (cr_skipRest r) (\<lambda>r.
     bind_res (cr_skipPadding 4 r) (\<lambda>r.
     bind_res (cr_countedRead 110 r) (\<lambda>(_, raw_hdr, r).
     bind_res (parseHeader raw_hdr) (\<lambda>(hdr, namelen).
       if namelen < 0 then Panic
       else bind_res (cr_countedRead (nat namelen) r) (\<lambda>(_, bname, r).
         if namelen = 0 then Panic
         else bind_res (cr_skipPadding 4 (r\<lparr>cr_remaining := c_Size hdr\<rparr>)) (\<lambda>r.
           Ok (hdr\<lparr>c_Name := butlast bname\<rparr>, r)))))))"

text \<open>One call of \<^verbatim>\<open>Read\<close> with a buffer of \<open>n\<close> bytes.\<close>

definition cr_Read :: "nat \<Rightarrow> cpio_reader \<Rightarrow> (string \<times> cpio_reader) res" where
  "cr_Read n r =
     (if cr_remaining r = 0 then Err ''EOF''
      else if int n > cr_remaining r \<and> cr_remaining r < 0 then Panic
      else bind_res (cr_countedRead (if int n > cr_remaining r then nat (cr_remaining r) else n) r)
        (\<lambda>(k, buf, r). Ok (take k buf, r\<lparr>cr_remaining := cr_remaining r - int k\<rparr>)))"

text \<open>
  A client of the reader: every entry with its contents up to the trailer.  Reading an entry to
  its end takes one call with a buffer large enough.
\<close>

definition cr_ReadAll :: "cpio_reader \<Rightarrow> (string \<times> cpio_reader) res" where
  "cr_ReadAll r =
     (if cr_remaining r = 0 then Ok ([], r) else cr_Read (Suc (nat (cr_remaining r))) r)"

fun cpio_list :: "nat \<Rightarrow> cpio_reader \<Rightarrow> (cpio_hdr \<times> string) list res" where
  "cpio_list 0 r = Err ''too many entries''"
| "cpio_list (Suc n) r =
     bind_res (cr_Next r) (\<lambda>(h, r).
       if IsTrailer h then Ok []
       else bind_res (cr_ReadAll r) (\<lambda>(d, r).
         bind_res (cpio_list n r) (\<lambda>es. Ok ((h, d) # es))))"

section \<open>Hexadecimal round trip\<close>

lemma hex_digits_not_Nil [simp]: "hex_digits n \<noteq> []"
  by (subst hex_digits.simps) simp

lemma length_hex_digits: "n < 16 ^ Suc k \<Longrightarrow> length (hex_digits n) \<le> Suc k"
proof (induction k arbitrary: n)
  case 0
  then show ?case by (simp add: hex_digits.simps [of n])
next
  case (Suc k)
  then have "n div 16 < 16 ^ Suc k" by (simp add: less_mult_imp_div_less)
  from Suc.IH [OF this] show ?case by (simp add: hex_digits.simps [of n])
qed

lemma hex_val_char: "d < 16 \<Longrightarrow> hex_val (hex_char d) = Some d"
  by (simp add: hex_val_def hex_char_def)

lemma parse_hex_append:
  "parse_hex acc (xs @ ys) = (case parse_hex acc xs of None \<Rightarrow> None | Some m \<Rightarrow> parse_hex m ys)"
  by (induction xs arbitrary: acc) (auto split: option.splits)

lemma parse_hex_digits: "parse_hex 0 (hex_digits n) = Some n"
proof (induction n rule: hex_digits.induct)
  case (1 n)
  then show ?case
    by (cases "n < 16") (simp_all add: hex_digits.simps [of n] parse_hex_append hex_val_char)
qed

lemma parse_hex_zeros: "parse_hex 0 (replicate k (CHR ''0'') @ s) = parse_hex 0 s"
  by (induction k) (simp_all add: hex_val_def)

lemma hex_digits_hd: "hd (hex_digits n) \<noteq> CHR ''-'' \<and> hd (hex_digits n) \<noteq> CHR ''+''"
proof (induction n rule: hex_digits.induct)
  case (1 n)
  have "hex_char d \<noteq> CHR ''-'' \<and> hex_char d \<noteq> CHR ''+''" if "d < 16" for d
    using hex_val_char [OF that] by (auto simp: hex_val_def)
  with 1 show ?case by (cases "n < 16") (simp_all add: hex_digits.simps [of n])
qed

text \<open>A value that fits eight digits.\<close>

definition fits :: "int \<Rightarrow> bool" where
  "fits i \<longleftrightarrow> 0 \<le> i \<and> i < 4294967296"

lemma length_fmt_08x: "fits i \<Longrightarrow> length (fmt_08x i) = 8"
  using length_hex_digits [of "nat i" 7] by (auto simp: fits_def fmt_08x_def Let_def)

lemma ParseHex_fmt: "fits i \<Longrightarrow> ParseHex (fmt_08x i) = Ok i"
proof -
  assume i: "fits i"
  let ?s = "replicate (8 - length (hex_digits (nat i))) (CHR ''0'') @ hex_digits (nat i)"
  have eq: "fmt_08x i = ?s" using i by (simp add: fmt_08x_def fits_def Let_def)
  have "hd ?s \<noteq> CHR ''-'' \<and> hd ?s \<noteq> CHR ''+''"
    using hex_digits_hd [of "nat i"] by (cases "8 - length (hex_digits (nat i))") simp_all
  moreover have "parse_hex 0 ?s = Some (nat i)" by (simp add: parse_hex_zeros parse_hex_digits)
  moreover have "nat i < 2 ^ 63" using i by (auto simp: fits_def)
  ultimately show ?thesis using i by (simp add: eq ParseHex_def fits_def)
qed

lemma fits_fixed: "fits 0" "fits 1" "fits 2" "fits 3"
  by (simp_all add: fits_def)

section \<open>Modes\<close>

lemma mask_consts: "(0xFFF :: int) = mask 12" "(0xF :: int) = mask 4"
  by (simp_all add: mask_eq_exp_minus_1)

lemma and_consts: "(a :: int) AND 0xFFF = take_bit 12 a" "(a :: int) AND 0xF = take_bit 4 a"
  unfolding mask_consts by (simp_all add: take_bit_eq_mask)

lemma disassemble_assemble: "disassemble (assemble m t) = (m AND 0xFFF, t AND 0xF)"
proof -
  have "take_bit 12 (take_bit 12 m OR push_bit 12 (take_bit 4 t)) = take_bit 12 m"
    by (rule bit_eqI) (auto simp: bit_simps)
  moreover have "take_bit 4 (drop_bit 12 (take_bit 12 m OR push_bit 12 (take_bit 4 t))) = take_bit 4 t"
    by (rule bit_eqI) (auto simp: bit_simps)
  ultimately show ?thesis by (simp add: disassemble_def assemble_def and_consts)
qed

lemma fits_assemble: "fits (assemble m t)"
proof -
  have "take_bit 16 (take_bit 12 m OR push_bit 12 (take_bit 4 t)) =
      take_bit 12 m OR push_bit 12 (take_bit 4 t)"
    by (rule bit_eqI) (auto simp: bit_simps)
  then have eq: "assemble m t = take_bit 16 (assemble m t)"
    by (simp add: assemble_def and_consts)
  have "take_bit 16 x < 4294967296" for x :: int
    using take_bit_int_less_exp [of 16 x] by simp
  then show ?thesis unfolding fits_def by (subst (1 2) eq) simp
qed

section \<open>The byte stream of an archive\<close>

text \<open>Zeros up to the next multiple of four.\<close>

definition padn :: "nat \<Rightarrow> nat" where
  "padn n = (4 - n mod 4) mod 4"

abbreviation zs :: "nat \<Rightarrow> string" where
  "zs n \<equiv> replicate n (CHR 0x00)"

definition name_line :: "int \<Rightarrow> cpio_hdr \<Rightarrow> string" where
  "name_line inode h = header_line inode h @ c_Name h @ [CHR 0x00]"

text \<open>A header written at position \<open>p\<close>.\<close>

definition enc_hdr :: "nat \<Rightarrow> int \<Rightarrow> cpio_hdr \<Rightarrow> string" where
  "enc_hdr p inode h =
     zs (padn p) @ name_line inode h @ zs (padn (p + padn p + length (name_line inode h)))"

fun enc_entries :: "nat \<Rightarrow> int \<Rightarrow> (cpio_hdr \<times> string) list \<Rightarrow> string" where
  "enc_entries p inode [] = []"
| "enc_entries p inode ((h, d) # es) =
     enc_hdr p inode h @ d @ enc_entries (p + length (enc_hdr p inode h @ d)) (inode + 1) es"

text \<open>What an entry must satisfy to be stored without loss.\<close>

definition storable :: "cpio_hdr \<times> string \<Rightarrow> bool" where
  "storable e \<longleftrightarrow>
     (case e of (h, d) \<Rightarrow>
        fits (c_Uid h) \<and> fits (c_Gid h) \<and> fits (c_Mtime h) \<and> fits (c_Size h) \<and>
        fits (c_Devmajor h) \<and> fits (c_Devminor h) \<and> fits (int (length (c_Name h)) + 1) \<and>
        0 \<le> c_Type h \<and> c_Type h < 16 \<and> c_Size h = int (length d) \<and> \<not> IsTrailer h)"

text \<open>The archive keeps the twelve permission bits of a mode.\<close>

definition stored :: "cpio_hdr \<times> string \<Rightarrow> cpio_hdr \<times> string" where
  "stored e = ((fst e)\<lparr>c_Mode := c_Mode (fst e) AND 0xFFF\<rparr>, snd e)"

subsection \<open>What the writer writes\<close>

lemma cw_zeros_write: "cw_zeros n w = cw_countedWrite (zs n) w"
proof (induction n arbitrary: w)
  case (Suc n)
  then show ?case by (simp add: cw_countedWrite_def)
qed (simp add: cw_countedWrite_def)

lemma padn_int: "nat ((4 - int n mod 4) mod 4) = padn n"
proof -
  have "4 - int n mod 4 = int (4 - n mod 4)" by (simp add: zmod_int of_nat_diff)
  moreover have "nat (int x mod 4) = x mod 4" for x by (metis nat_int of_nat_numeral zmod_int)
  ultimately show ?thesis by (simp only: padn_def)
qed

lemma cw_pad_write:
  "cw_length w = int (length (cw_w w)) \<Longrightarrow>
     cw_pad 4 w = cw_countedWrite (zs (padn (length (cw_w w)))) w"
  by (simp only: cw_pad_def cw_zeros_write padn_int)

lemma countedWrite_length:
  "cw_length w = int (length (cw_w w)) \<Longrightarrow>
     cw_length (cw_countedWrite b w) = int (length (cw_w (cw_countedWrite b w)))"
  by (simp add: cw_countedWrite_def)

lemma countedWrite_append: "cw_countedWrite b (cw_countedWrite a w) = cw_countedWrite (a @ b) w"
  by (simp add: cw_countedWrite_def)

text \<open>A writer between two entries.\<close>

definition cw_at :: "cpio_writer \<Rightarrow> bool" where
  "cw_at w \<longleftrightarrow> cw_length w = int (length (cw_w w)) \<and> cw_remaining w = 0"

lemma cw_WriteHeader_at:
  assumes "cw_at w"
  shows "cw_WriteHeader h w =
    (let e = enc_hdr (length (cw_w w)) (cw_inode w) h in
     w\<lparr>cw_w := cw_w w @ e, cw_inode := cw_inode w + 1, cw_length := cw_length w + int (length e),
       cw_remaining := c_Size h\<rparr>)"
proof -
  let ?h = "name_line (cw_inode w) h"
  let ?w = "(cw_countedWrite (zs (padn (length (cw_w w))) @ ?h) w)
    \<lparr>cw_inode := cw_inode w + 1, cw_remaining := c_Size h\<rparr>"
  have l: "cw_length w = int (length (cw_w w))" "cw_zeros (nat (cw_remaining w)) w = w"
    using assms by (simp_all add: cw_at_def)
  have "cw_WriteHeader h w = cw_pad 4 ?w"
    by (simp add: cw_WriteHeader_def Let_def l cw_pad_write countedWrite_append name_line_def)
      (simp add: cw_countedWrite_def)
  also have "\<dots> = cw_countedWrite (zs (padn (length (cw_w ?w)))) ?w"
    by (rule cw_pad_write) (simp add: cw_countedWrite_def l)
  finally show ?thesis
    by (simp add: enc_hdr_def Let_def cw_countedWrite_def ac_simps)
qed

text \<open>Writing one whole entry.\<close>

definition cpio_put :: "cpio_hdr \<times> string \<Rightarrow> cpio_writer \<Rightarrow> cpio_writer" where
  "cpio_put e w = (cw_countedWrite (snd e) (cw_WriteHeader (fst e) w))\<lparr>cw_remaining := 0\<rparr>"

lemma cpio_put_at:
  assumes "cw_at w"
  shows "cw_at (cpio_put (h, d) w)"
    "cw_w (cpio_put (h, d) w) = cw_w w @ enc_hdr (length (cw_w w)) (cw_inode w) h @ d"
    "cw_inode (cpio_put (h, d) w) = cw_inode w + 1"
  using assms
  by (simp_all add: cpio_put_def cw_WriteHeader_at cw_countedWrite_def cw_at_def Let_def)

lemma cpio_puts_at:
  assumes "cw_at w"
  shows "cw_at (fold cpio_put es w) \<and>
    cw_w (fold cpio_put es w) = cw_w w @ enc_entries (length (cw_w w)) (cw_inode w) es \<and>
    cw_inode (fold cpio_put es w) = cw_inode w + int (length es)"
  using assms
proof (induction es arbitrary: w)
  case (Cons e es)
  obtain h d where e: "e = (h, d)" by (cases e)
  from Cons.IH [OF cpio_put_at(1) [OF Cons.prems, of h d]] show ?case
    by (simp add: e cpio_put_at(2,3) [OF Cons.prems] ac_simps)
qed simp

lemma cw_Close_at:
  assumes "cw_at w"
  shows "\<exists>z. cw_w (cw_Close w) = cw_w w @ enc_hdr (length (cw_w w)) (cw_inode w) trailer @ z"
  by (simp add: cw_Close_def cw_pad_def cw_zeros_write cw_countedWrite_def
      cw_WriteHeader_at [OF assms] Let_def)

subsection \<open>What the reader reads\<close>

lemma length_header_line:
  assumes "storable (h, d) \<or> h = trailer" and "fits inode"
  shows "length (header_line inode h) = 110"
proof -
  have f: "fits (c_Uid h)" "fits (c_Gid h)" "fits (c_Mtime h)" "fits (c_Size h)"
    "fits (c_Devmajor h)" "fits (c_Devminor h)" "fits (int (length (c_Name h)) + 1)"
    using assms(1) by (auto simp: storable_def trailer_def fits_def)
  then show ?thesis
    using assms(2) by (simp add: header_line_def length_fmt_08x fits_assemble fits_fixed)
qed

lemma raw_field_0: "length a = 6 \<Longrightarrow> raw_field 0 (a @ x) = take 8 x"
  by (simp add: raw_field_def)

lemma parseHeader_line:
  assumes "storable (h, d) \<or> h = trailer" and "fits inode"
  shows "parseHeader (header_line inode h) =
    Ok (h\<lparr>c_Mode := c_Mode h AND 0xFFF, c_Name := []\<rparr>, int (length (c_Name h)) + 1)"
proof -
  have f: "fits (c_Uid h)" "fits (c_Gid h)" "fits (c_Mtime h)" "fits (c_Size h)"
    "fits (c_Devmajor h)" "fits (c_Devminor h)" "fits (int (length (c_Name h)) + 1)"
    "c_Type h AND 0xF = c_Type h"
    using assms(1) by (auto simp: storable_def trailer_def fits_def and_consts take_bit_int_eq_self)
  have l: "length (fmt_08x (if c_Type h = TYPE_DIR then 2 else 1)) = 8"
    by (simp add: length_fmt_08x fits_fixed)
  note lens = length_fmt_08x [OF assms(2)] length_fmt_08x [OF fits_assemble] l
    f(1-7) [THEN length_fmt_08x] fits_fixed [THEN length_fmt_08x]
  show ?thesis
    by (simp add: parseHeader_def header_line_def raw_field_def lens ParseHex_fmt f fits_assemble
        disassemble_assemble del: One_nat_def)
qed

lemma countedRead_exact:
  "length b = n \<Longrightarrow>
     cr_countedRead n \<lparr>cr_r = b @ x, cr_pos = p, cr_remaining = k\<rparr> =
       Ok (n, b, \<lparr>cr_r = x, cr_pos = p + int n, cr_remaining = k\<rparr>)"
  by (auto simp: cr_countedRead_def Let_def)

lemma skipPadding_zeros:
  "cr_skipPadding 4 \<lparr>cr_r = zs (padn p) @ x, cr_pos = int p, cr_remaining = k\<rparr> =
     Ok \<lparr>cr_r = x, cr_pos = int (p + padn p), cr_remaining = k\<rparr>"
  unfolding cr_skipPadding_def cpio_reader.simps padn_int by (simp add: countedRead_exact)

lemma cr_Next_enc:
  assumes "storable (h, d) \<or> h = trailer" and "fits inode"
  shows "cr_Next \<lparr>cr_r = enc_hdr p inode h @ x, cr_pos = int p, cr_remaining = 0\<rparr> =
    Ok (h\<lparr>c_Mode := c_Mode h AND 0xFFF\<rparr>,
        \<lparr>cr_r = x, cr_pos = int (p + length (enc_hdr p inode h)), cr_remaining = c_Size h\<rparr>)"
proof -
  let ?n = "name_line inode h"
  let ?q = "p + padn p" and ?nl = "Suc (length (c_Name h))"
  have len: "length ?n = 110 + ?nl" by (simp add: name_line_def length_header_line [OF assms])
  have rest: "cr_skipRest \<lparr>cr_r = y, cr_pos = q, cr_remaining = 0\<rparr> =
      Ok \<lparr>cr_r = y, cr_pos = q, cr_remaining = 0\<rparr>" for y q
    by (simp add: cr_skipRest_def)
  have hdr: "cr_countedRead 110 \<lparr>cr_r = ?n @ y, cr_pos = q, cr_remaining = 0\<rparr> =
      Ok (110, header_line inode h,
        \<lparr>cr_r = (c_Name h @ [CHR 0x00]) @ y, cr_pos = q + 110, cr_remaining = 0\<rparr>)" for y q
    using countedRead_exact [OF length_header_line [OF assms], of "(c_Name h @ [CHR 0x00]) @ y" q 0]
    by (simp add: name_line_def)
  have name: "cr_countedRead (nat (int (length (c_Name h)) + 1))
        \<lparr>cr_r = (c_Name h @ [CHR 0x00]) @ y, cr_pos = q, cr_remaining = 0\<rparr> =
      Ok (?nl, c_Name h @ [CHR 0x00], \<lparr>cr_r = y, cr_pos = q + int ?nl, cr_remaining = 0\<rparr>)" for y q
    by (rule subst [of _ _ "\<lambda>n. cr_countedRead n _ = _", OF _ countedRead_exact]) simp_all
  have pos: "int ?q + 110 + int ?nl = int (?q + length ?n)" by (simp add: len)
  show ?thesis
    unfolding cr_Next_def enc_hdr_def append_assoc
    by (simp only: rest skipPadding_zeros bind_res.simps hdr parseHeader_line [OF assms] name prod.case
        pos cpio_reader.simps cpio_hdr.simps) (simp add: skipPadding_zeros [simplified])
qed

lemma cr_ReadAll_exact:
  "cr_ReadAll \<lparr>cr_r = d @ x, cr_pos = p, cr_remaining = int (length d)\<rparr> =
     Ok (d, \<lparr>cr_r = x, cr_pos = p + int (length d), cr_remaining = 0\<rparr>)"
  by (simp add: cr_ReadAll_def cr_Read_def countedRead_exact)

lemma cpio_list_enc:
  assumes "list_all storable es" and "0 \<le> inode" and "inode + int (length es) < 4294967296"
  shows "cpio_list (Suc (length es))
      \<lparr>cr_r = enc_entries p inode es @ enc_hdr (p + length (enc_entries p inode es))
         (inode + int (length es)) trailer @ z, cr_pos = int p, cr_remaining = 0\<rparr> =
    Ok (map stored es)"
  using assms
proof (induction es arbitrary: p inode)
  case Nil
  then have "fits inode" by (simp add: fits_def)
  from cr_Next_enc [OF _ this, of trailer] show ?case
    by (simp add: IsTrailer_def)
next
  case (Cons e es)
  obtain h d where e: "e = (h, d)" by (cases e)
  let ?p = "p + length (enc_hdr p inode h @ d)"
  have st: "storable (h, d)" and f: "fits inode" using Cons.prems by (simp_all add: e fits_def)
  then have size: "c_Size h = int (length d)" and no: "\<not> IsTrailer h" by (simp_all add: storable_def)
  have no': "\<not> IsTrailer (h\<lparr>c_Mode := m\<rparr>)" for m using no by (simp add: IsTrailer_def)
  have IH: "cpio_list (Suc (length es))
      \<lparr>cr_r = enc_entries ?p (inode + 1) es @ enc_hdr (?p + length (enc_entries ?p (inode + 1) es))
         (inode + 1 + int (length es)) trailer @ z, cr_pos = int ?p, cr_remaining = 0\<rparr> =
    Ok (map stored es)"
    by (rule Cons.IH) (use Cons.prems in simp_all)
  show ?case
    using IH unfolding e cpio_list.simps(2) [of "length (_ # _)"] enc_entries.simps append_assoc
      cr_Next_enc [OF disjI1 [OF st] f]
    by (simp add: no' size cr_ReadAll_exact stored_def add.assoc del: cpio_list.simps)
qed

section \<open>Round trip\<close>

definition cpio_archive :: "(cpio_hdr \<times> string) list \<Rightarrow> string" where
  "cpio_archive es = cw_w (cw_Close (fold cpio_put es cw_New))"

lemma cpio_roundtrip:
  assumes "list_all storable es" and "721 + int (length es) < 4294967296"
  shows "cpio_list (Suc (length es)) (cr_New (cpio_archive es)) = Ok (map stored es)"
proof -
  have at: "cw_at cw_New" by (simp add: cw_at_def cw_New_def)
  from cpio_puts_at [OF at, of es]
  have w: "cw_at (fold cpio_put es cw_New)" "cw_w (fold cpio_put es cw_New) = enc_entries 0 721 es"
    "cw_inode (fold cpio_put es cw_New) = 721 + int (length es)"
    by (simp_all add: cw_New_def)
  from cw_Close_at [OF w(1)] obtain z where
    "cpio_archive es = enc_entries 0 721 es @
       enc_hdr (length (enc_entries 0 721 es)) (721 + int (length es)) trailer @ z"
    by (auto simp: cpio_archive_def w)
  with cpio_list_enc [OF assms(1) _ assms(2), of 0 z] show ?thesis by (simp add: cr_New_def)
qed

end
