(* ===== verification/Go_Path.thy ===== *)
theory Go_Path
  imports Prelude
begin

text \<open>
  Slash-separated paths as in the Go packages \<^verbatim>\<open>path\<close> and (on Unix) \<^verbatim>\<open>path/filepath\<close>:
  \<^verbatim>\<open>Clean\<close>, \<^verbatim>\<open>Join\<close>, \<^verbatim>\<open>Dir\<close>, \<^verbatim>\<open>Base\<close>, \<^verbatim>\<open>IsAbs\<close> and \<^verbatim>\<open>Rel\<close>.  Everything is done on
  the list of path components: \<open>norm_comps\<close> is the stack machine of \<^verbatim>\<open>Clean\<close>, and \<open>normal\<close>
  describes the component lists it leaves alone.
\<close>

section \<open>Definitions\<close>

fun norm_comps :: "bool \<Rightarrow> string list \<Rightarrow> string list \<Rightarrow> string list" where
  "norm_comps rooted st [] = rev st"
| "norm_comps rooted st (c # cs) =
     (if c = [] \<or> c = ''.'' then norm_comps rooted st cs
      else if c = ''..'' then
        (case st of
           [] \<Rightarrow> if rooted then norm_comps rooted [] cs else norm_comps rooted [''..''] cs
         | t # ts \<Rightarrow> if t = ''..'' then norm_comps rooted (''..'' # st) cs
                    else norm_comps rooted ts cs)
      else norm_comps rooted (c # st) cs)"

definition rooted :: "string \<Rightarrow> bool" where
  "rooted s = has_prefix s ''/''"

definition comps :: "string \<Rightarrow> string list" where
  "comps s = norm_comps (rooted s) [] (split_on (CHR ''/'') s)"

definition path_string :: "bool \<Rightarrow> string list \<Rightarrow> string" where
  "path_string r cs =
     (if r then CHR ''/'' # join ''/'' cs else if cs = [] then ''.'' else join ''/'' cs)"

definition path_clean :: "string \<Rightarrow> string" where
  "path_clean s = path_string (rooted s) (comps s)"

definition path_join :: "string list \<Rightarrow> string" where
  "path_join es =
     (let es' = dropWhile (\<lambda>e. e = []) es in
      if es' = [] then [] else path_clean (join ''/'' es'))"

definition path_dir :: "string \<Rightarrow> string" where
  "path_dir s = path_clean (rev (dropWhile (\<lambda>c. c \<noteq> CHR ''/'') (rev s)))"

definition path_base :: "string \<Rightarrow> string" where
  "path_base s =
     (if s = [] then ''.''
      else let t = rev (dropWhile (\<lambda>c. c = CHR ''/'') (rev s)) in
           if t = [] then ''/'' else rev (takeWhile (\<lambda>c. c \<noteq> CHR ''/'') (rev t)))"

fun drop_common :: "string list \<Rightarrow> string list \<Rightarrow> string list \<times> string list" where
  "drop_common (x # xs) (y # ys) = (if x = y then drop_common xs ys else (x # xs, y # ys))"
| "drop_common xs ys = (xs, ys)"

definition path_rel :: "string \<Rightarrow> string \<Rightarrow> string res" where
  "path_rel base targ =
     (if rooted base \<noteq> rooted targ then Err ''Rel: can't make path relative''
      else case drop_common (comps base) (comps targ) of
             (bs, ts) \<Rightarrow>
               if bs \<noteq> [] \<and> hd bs = ''..'' then Err ''Rel: can't make path relative''
               else Ok (path_string False (replicate (length bs) ''..'' @ ts)))"

section \<open>Normal component lists\<close>

definition plain :: "string \<Rightarrow> bool" where
  "plain c \<longleftrightarrow> c \<noteq> [] \<and> c \<noteq> ''.'' \<and> c \<noteq> ''..'' \<and> CHR ''/'' \<notin> set c"

text \<open>A normal list is some \<^verbatim>\<open>..\<close> (none below a root) followed by plain components.\<close>

definition normal :: "bool \<Rightarrow> string list \<Rightarrow> bool" where
  "normal r cs \<longleftrightarrow>
     (\<exists>n ps. cs = replicate n ''..'' @ ps \<and> list_all plain ps \<and> (r \<longrightarrow> n = 0))"

lemma normal_elem:
  assumes "normal r cs" and "c \<in> set cs"
  shows "c = ''..'' \<and> \<not> r \<or> plain c"
proof -
  from assms(1) obtain n ps where cs: "cs = replicate n ''..'' @ ps" and ps: "list_all plain ps"
    and r: "r \<longrightarrow> n = 0" unfolding normal_def by blast
  from assms(2) cs have "n \<noteq> 0 \<and> c = ''..'' \<or> c \<in> set ps"
    by (simp only: set_append Un_iff in_set_replicate) blast
  with ps r show ?thesis unfolding list_all_iff by blast
qed

lemma normal_no_slash: "normal r cs \<Longrightarrow> c \<in> set cs \<Longrightarrow> CHR ''/'' \<notin> set c"
  using normal_elem [of r cs c] by (auto simp: plain_def)

lemma normal_not_Nil: "normal r cs \<Longrightarrow> c \<in> set cs \<Longrightarrow> c \<noteq> []"
  using normal_elem [of r cs c] by (auto simp: plain_def)

lemma normal_Nil [simp]: "normal r []"
  unfolding normal_def by (intro exI [of _ 0] exI [of _ "[]"]) simp

lemma normalE:
  assumes "normal r cs"
  obtains n ps where "cs = replicate n ''..'' @ ps" "list_all plain ps" "r \<longrightarrow> n = 0"
  using assms unfolding normal_def by blast

lemma normalI: "list_all plain ps \<Longrightarrow> (r \<longrightarrow> n = 0) \<Longrightarrow> normal r (replicate n ''..'' @ ps)"
  unfolding normal_def by blast

lemma norm_comps_append:
  "norm_comps r st (xs @ ys) = norm_comps r (rev (norm_comps r st xs)) ys"
proof (induction xs arbitrary: st)
  case Nil
  then show ?case by simp
next
  case (Cons c cs)
  then show ?case by (cases st; cases r) simp_all
qed

lemma norm_comps_plain:
  "list_all plain ps \<Longrightarrow> norm_comps r st ps = rev st @ ps"
  by (induction ps arbitrary: st) (auto simp: plain_def)

lemma norm_comps_dots:
  "norm_comps False (replicate m ''..'') (replicate n ''..'') = replicate (m + n) ''..''"
proof (induction n arbitrary: m)
  case 0
  then show ?case by simp
next
  case (Suc n)
  then show ?case
    using Suc [of "Suc m"] by (cases m) (auto simp: replicate_app_Cons_same)
qed

lemma norm_comps_normal:
  assumes "normal r cs"
  shows "norm_comps r [] cs = cs"
proof -
  from assms obtain n ps where cs: "cs = replicate n ''..'' @ ps" and ps: "list_all plain ps"
    and r: "r \<longrightarrow> n = 0" by (rule normalE)
  show ?thesis
    using norm_comps_dots [of 0 n] ps r
    by (cases r) (auto simp: cs norm_comps_append norm_comps_plain)
qed

lemma normal_snoc_plain: "normal r cs \<Longrightarrow> plain c \<Longrightarrow> normal r (cs @ [c])"
proof (erule normalE)
  fix n ps assume "plain c" "cs = replicate n ''..'' @ ps" "list_all plain ps" "r \<longrightarrow> n = 0"
  then show "normal r (cs @ [c])" using normalI [of "ps @ [c]" r n] by simp
qed

lemma normal_butlast:
  assumes "normal r (cs @ [c])"
  shows "normal r cs"
proof -
  from assms obtain n ps where eq: "cs @ [c] = replicate n ''..'' @ ps"
    and ps: "list_all plain ps" and r: "r \<longrightarrow> n = 0" by (rule normalE)
  show ?thesis
  proof (cases ps rule: rev_cases)
    case Nil
    with eq have "cs = replicate (n - 1) ''..''"
      using arg_cong [OF eq, of butlast] by (cases n) (auto simp: butlast_append replicate_append_same [symmetric])
    with r show ?thesis using normalI [of "[]" r "n - 1"] by simp
  next
    case (snoc qs q)
    with eq have "cs = replicate n ''..'' @ qs" by simp
    moreover from snoc ps have "list_all plain qs" by simp
    ultimately show ?thesis using r normalI by blast
  qed
qed

lemma normal_prefix: "normal r (p @ q) \<Longrightarrow> normal r p"
proof (induction q rule: rev_induct)
  case (snoc x q)
  then show ?case using normal_butlast [of r "p @ q" x] by simp
qed simp

lemma normal_snoc_dots:
  assumes "normal False cs" and "cs = [] \<or> last cs = ''..''"
  shows "normal False (cs @ [''..''])"
proof -
  from assms(1) obtain n ps where cs: "cs = replicate n ''..'' @ ps" and ps: "list_all plain ps"
    by (rule normalE)
  have "ps = []"
    using assms(2) cs ps by (cases ps rule: rev_cases) (auto simp: plain_def)
  with cs have "cs @ [''..''] = replicate (Suc n) ''..'' @ []"
    by (simp add: replicate_append_same)
  then show ?thesis using normalI [of "[]" False "Suc n"] by simp
qed

lemma normal_norm_comps:
  "normal r (rev st) \<Longrightarrow> (\<And>c. c \<in> set cs \<Longrightarrow> CHR ''/'' \<notin> set c) \<Longrightarrow>
     normal r (norm_comps r st cs)"
proof (induction r st cs rule: norm_comps.induct)
  case (1 r st)
  then show ?case by simp
next
  case (2 r st c cs)
  note IH = "2.IH" and st = "2.prems"(1)
  have noslash: "CHR ''/'' \<notin> set c" and rest: "\<And>c. c \<in> set cs \<Longrightarrow> CHR ''/'' \<notin> set c"
    using "2.prems"(2) by auto
  consider (skip) "c = [] \<or> c = ''.''" | (up) "c = ''..''" | (down) "plain c"
    using noslash by (auto simp: plain_def)
  then show ?case
  proof cases
    case skip
    with IH(1) st rest show ?thesis by auto
  next
    case up
    show ?thesis
    proof (cases st)
      case Nil
      have "normal False [''..'']"
        using normalI [of "[]" False 1] by simp
      with Nil up IH(2,3) st rest show ?thesis
        by (cases r) auto
    next
      case (Cons t ts)
      show ?thesis
      proof (cases "t = ''..''")
        case True
        have "\<not> r"
          using normal_elem [OF st, of t] Cons True by (auto simp: plain_def)
        then have "normal r (rev (''..'' # st))"
          using st Cons True normal_snoc_dots [of "rev st"] by simp
        with Cons up True IH(4) rest show ?thesis by auto
      next
        case False
        have "normal r (rev ts)"
          using st Cons normal_butlast [of r "rev ts" t] by simp
        with Cons up False IH(5) rest show ?thesis by auto
      qed
    qed
  next
    case down
    then have "normal r (rev (c # st))"
      using st normal_snoc_plain by auto
    with down IH(6) rest show ?thesis by (auto simp: plain_def)
  qed
qed

lemma normal_comps: "normal (rooted s) (comps s)"
  unfolding comps_def
  by (rule normal_norm_comps) (auto dest: split_on_no_sep)

section \<open>Clean, Join and Rel\<close>

lemma rooted_path_string:
  assumes "normal r cs" shows "rooted (path_string r cs) = r"
proof (cases cs)
  case Nil
  then show ?thesis by (simp add: rooted_def path_string_def)
next
  case (Cons c cs')
  have "CHR ''/'' \<notin> set c" "c \<noteq> []"
    using normal_no_slash [OF assms, of c] normal_not_Nil [OF assms, of c] Cons by simp_all
  with Cons show ?thesis
    by (cases c) (auto simp: rooted_def path_string_def join_Cons)
qed

lemma split_path_string:
  assumes "normal r cs"
  shows "norm_comps r [] (split_on (CHR ''/'') (path_string r cs)) = cs"
proof (cases "cs = []")
  case True
  then show ?thesis by (simp add: path_string_def)
next
  case False
  then have "split_on (CHR ''/'') (join ''/'' cs) = cs"
    using normal_no_slash [OF assms] by (intro split_on_join) auto
  with False show ?thesis
    using norm_comps_normal [OF assms] by (cases r) (simp_all add: path_string_def)
qed

lemma comps_path_string: "normal r cs \<Longrightarrow> comps (path_string r cs) = cs"
  by (simp add: comps_def rooted_path_string split_path_string)

lemma comps_clean [simp]: "comps (path_clean s) = comps s"
  by (simp add: path_clean_def comps_path_string normal_comps)

lemma rooted_clean [simp]: "rooted (path_clean s) = rooted s"
  by (simp add: path_clean_def rooted_path_string normal_comps)

lemma path_clean_idem [simp]: "path_clean (path_clean s) = path_clean s"
  by (simp add: path_clean_def [of "path_clean s"]) (simp add: path_clean_def)

lemma comps_append:
  assumes "s \<noteq> []"
  shows "comps (s @ CHR ''/'' # t) = norm_comps (rooted s) (rev (comps s)) (split_on (CHR ''/'') t)"
proof -
  have "rooted (s @ CHR ''/'' # t) = rooted s"
    using assms by (cases s) (auto simp: rooted_def)
  then show ?thesis
    by (simp add: comps_def split_on_append_sep norm_comps_append)
qed

lemma drop_common_split:
  "drop_common xs ys = (bs, ts) \<Longrightarrow> \<exists>p. xs = p @ bs \<and> ys = p @ ts"
  by (induction xs ys rule: drop_common.induct) (fastforce split: if_splits)+

lemma norm_comps_pop:
  "list_all plain bs \<Longrightarrow> (r \<longrightarrow> ''..'' \<notin> set st) \<Longrightarrow>
     norm_comps r (rev bs @ st) (replicate (length bs) ''..'' @ ts) = norm_comps r st ts"
  by (induction bs rule: rev_induct) (auto simp: plain_def)

lemma normal_suffix_plain:
  assumes "normal r (p @ b # bs)" and "b \<noteq> ''..''"
  shows "list_all plain (b # bs)"
proof -
  from assms(1) obtain n ps where eq: "p @ b # bs = replicate n ''..'' @ ps"
    and ps: "list_all plain ps" by (rule normalE)
  from eq obtain us where "p = replicate n ''..'' @ us \<and> us @ b # bs = ps
      \<or> p @ us = replicate n ''..'' \<and> b # bs = us @ ps"
    by (auto simp: append_eq_append_conv2)
  then show ?thesis
  proof
    assume "p = replicate n ''..'' @ us \<and> us @ b # bs = ps"
    with ps show ?thesis by auto
  next
    assume us: "p @ us = replicate n ''..'' \<and> b # bs = us @ ps"
    have "us = []"
    proof (cases us)
      case (Cons u us')
      with us have "b \<in> set (replicate n ''..'')"
        by (metis append_Cons in_set_conv_decomp list.inject)
      with assms(2) show ?thesis by (auto split: if_splits)
    qed simp
    with us ps show ?thesis by simp
  qed
qed

text \<open>
  The law of \<^verbatim>\<open>Rel\<close>: walking from the base along the returned relative path leads to the target.
\<close>

lemma path_rel_correct:
  assumes rel: "path_rel base targ = Ok r" and "base \<noteq> []"
  shows "path_clean (base @ ''/'' @ r) = path_clean targ"
proof -
  obtain bs ts where dc: "drop_common (comps base) (comps targ) = (bs, ts)"
    by (cases "drop_common (comps base) (comps targ)")
  then obtain p where p: "comps base = p @ bs" "comps targ = p @ ts"
    using drop_common_split by blast
  from rel dc have root: "rooted base = rooted targ"
    and up: "bs = [] \<or> hd bs \<noteq> ''..''"
    and r: "r = path_string False (replicate (length bs) ''..'' @ ts)"
    by (auto simp: path_rel_def split: if_splits)
  have plain: "list_all plain bs"
    using up normal_suffix_plain [of "rooted base" p "hd bs" "tl bs"] normal_comps [of base] p
    by (cases bs) auto
  have noslash: "CHR ''/'' \<notin> set c" if "c \<in> set (replicate (length bs) ''..'' @ ts)" for c
    using that normal_no_slash [OF normal_comps [of targ], of c] p
    by (cases "c \<in> set ts") (simp_all add: in_set_replicate)
  have nots: "rooted base \<longrightarrow> ''..'' \<notin> set (rev p)"
    using normal_elem [OF normal_comps [of base], of "''..''"] p by (simp add: plain_def) blast
  have split: "norm_comps (rooted base) st (split_on (CHR ''/'') r)
      = norm_comps (rooted base) st (replicate (length bs) ''..'' @ ts)" for st
  proof (cases "replicate (length bs) ''..'' @ ts = []")
    case True
    then show ?thesis by (simp add: r path_string_def)
  next
    case False
    have "split_on (CHR ''/'') (join ''/'' (replicate (length bs) ''..'' @ ts))
        = replicate (length bs) ''..'' @ ts"
      using False noslash by (rule split_on_join)
    with False show ?thesis by (simp add: r path_string_def)
  qed
  have "comps (base @ ''/'' @ r) = norm_comps (rooted base) (rev p) ts"
    using norm_comps_pop [OF plain nots] by (simp add: comps_append assms(2) split p)
  also have "norm_comps (rooted base) [] p = p"
    using normal_prefix [of "rooted base" p bs] normal_comps [of base] p
    by (simp add: norm_comps_normal)
  then have "norm_comps (rooted base) (rev p) ts = norm_comps (rooted base) [] (p @ ts)"
    by (simp add: norm_comps_append)
  also have "\<dots> = comps targ"
    using norm_comps_normal [of "rooted base" "p @ ts"] normal_comps [of targ] p root by simp
  finally have "comps (base @ ''/'' @ r) = comps targ" .
  moreover have "rooted (base @ ''/'' @ r) = rooted targ"
    using assms(2) root by (cases base) (auto simp: rooted_def)
  ultimately show ?thesis by (simp add: path_clean_def)
qed

lemma join_snoc: "xs \<noteq> [] \<Longrightarrow> join sep (xs @ [x]) = join sep xs @ sep @ x"
  by (induction xs) (simp_all add: join_Cons)

text \<open>Joining a plain component appends it.\<close>

lemma comps_join_plain:
  assumes "plain c"
  shows "comps (path_join [p, c]) = comps p @ [c]"
proof (cases "p = []")
  case True
  have "comps c = [c]" "comps [] = []"
    using assms by (simp_all add: comps_def plain_def split_on_free)
  with True assms show ?thesis by (simp add: path_join_def plain_def)
next
  case False
  have "norm_comps r st [c] = rev st @ [c]" for r st
    using assms by (simp add: plain_def)
  with False assms show ?thesis
    by (simp add: path_join_def comps_append plain_def split_on_free)
qed

lemma path_join_plain:
  assumes "plain c"
  shows "\<exists>p'. path_join [p, c] = p' @ c"
proof -
  have "\<exists>s. path_join [p, c] = path_clean s"
    using assms by (auto simp: path_join_def plain_def)
  then obtain s where s: "path_join [p, c] = path_clean s" by blast
  then have "comps s = comps p @ [c]"
    using comps_join_plain [OF assms, of p] by simp
  moreover obtain p' where "join ''/'' (comps p @ [c]) = p' @ c"
    by (cases "comps p = []") (auto simp: join_snoc)
  ultimately have "path_clean s = p' @ c \<or> path_clean s = (CHR ''/'' # p') @ c"
    by (simp add: path_clean_def path_string_def)
  with s show ?thesis by metis
qed

end
