(* ===== verification/Tar.thy ===== *)
theory Tar
  imports Prelude
begin

text \<open>
  The parts of Go's \<^verbatim>\<open>archive/tar\<close> and \<^verbatim>\<open>io\<close> the image builder uses: headers, a reader as the
  list of its entries and the error it ends with, a writer that counts the bytes still owed to
  the current entry, and \<^verbatim>\<open>io.Copy\<close> in blocks.  The Go interface \<^verbatim>\<open>tarWriter\<close> of
  \<^verbatim>\<open>moby/build/image.go\<close> is a record of operations over any state; what its clients rely on is
  the locale \<open>tar_writer\<close>.
\<close>

section \<open>Headers and streams\<close>

datatype tar_format = FormatUnknown | FormatUSTAR | FormatPAX | FormatGNU

record tar_hdr =
  th_Typeflag :: char
  th_Name :: string
  th_Linkname :: string
  th_Size :: nat
  th_Mode :: int
  th_Uid :: int
  th_Gid :: int
  th_ModTime :: int
  th_Devmajor :: int
  th_Devminor :: int
  th_PAXRecords :: "(string \<times> string) list option"
  th_Format :: tar_format

abbreviation TypeRegA :: char where "TypeRegA \<equiv> CHR 0x00"
abbreviation TypeReg :: char where "TypeReg \<equiv> CHR ''0''"
abbreviation TypeLink :: char where "TypeLink \<equiv> CHR ''1''"
abbreviation TypeSymlink :: char where "TypeSymlink \<equiv> CHR ''2''"
abbreviation TypeChar :: char where "TypeChar \<equiv> CHR ''3''"
abbreviation TypeBlock :: char where "TypeBlock \<equiv> CHR ''4''"
abbreviation TypeDir :: char where "TypeDir \<equiv> CHR ''5''"
abbreviation TypeFifo :: char where "TypeFifo \<equiv> CHR ''6''"

text \<open>\<^verbatim>\<open>tar.Header{}\<close>, the base of every composite literal.\<close>

definition Header :: tar_hdr where
  "Header =
     \<lparr>th_Typeflag = TypeRegA, th_Name = [], th_Linkname = [], th_Size = 0, th_Mode = 0, th_Uid = 0,
      th_Gid = 0, th_ModTime = 0, th_Devmajor = 0, th_Devminor = 0, th_PAXRecords = None,
      th_Format = FormatUnknown\<rparr>"

definition isHeaderOnlyType :: "char \<Rightarrow> bool" where
  "isHeaderOnlyType flag \<longleftrightarrow>
     flag \<in> {TypeLink, TypeSymlink, TypeChar, TypeBlock, TypeDir, TypeFifo}"

definition ends_slash :: "string \<Rightarrow> bool" where
  "ends_slash s \<longleftrightarrow> s \<noteq> [] \<and> last s = CHR ''/''"

definition pax_get :: "string \<Rightarrow> tar_hdr \<Rightarrow> string" where
  "pax_get k h =
     (case th_PAXRecords h of
        None \<Rightarrow> []
      | Some m \<Rightarrow> (case map_of m k of None \<Rightarrow> [] | Some v \<Rightarrow> v))"

text \<open>Assigning a PAX record, after the map has been made where it was nil.\<close>

definition pax_put :: "string \<Rightarrow> string \<Rightarrow> tar_hdr \<Rightarrow> tar_hdr" where
  "pax_put k v h =
     h\<lparr>th_PAXRecords := Some (AList.update k v (case th_PAXRecords h of None \<Rightarrow> [] | Some m \<Rightarrow> m))\<rparr>"

type_synonym tar_entry = "tar_hdr \<times> string"
type_synonym tar_stream = "tar_entry list \<times> string option"

text \<open>A loop over \<^verbatim>\<open>tr.Next()\<close>: the body runs on each entry, then end of file or an error.\<close>

definition tar_loop :: "(tar_hdr \<Rightarrow> string \<Rightarrow> 's \<Rightarrow> 's res) \<Rightarrow> tar_stream \<Rightarrow> 's \<Rightarrow> 's res" where
  "tar_loop body tr s =
     bind_res (loop_res (\<lambda>(h, d). body h d) (fst tr) s)
       (\<lambda>s'. case snd tr of None \<Rightarrow> Ok s' | Some e \<Rightarrow> Err e)"

section \<open>The writer interface\<close>

record 'w tarWriter =
  w_WriteHeader :: "tar_hdr \<Rightarrow> 'w \<Rightarrow> 'w res"
  w_Write :: "string \<Rightarrow> 'w \<Rightarrow> 'w res"
  w_Flush :: "'w \<Rightarrow> 'w res"
  w_Close :: "'w \<Rightarrow> 'w res"

fun chunks :: "nat \<Rightarrow> 'a list \<Rightarrow> 'a list list" where
  "chunks n xs = (if n = 0 \<or> xs = [] then [] else take n xs # chunks n (drop n xs))"

declare chunks.simps [simp del]

definition io_Copy :: "'w tarWriter \<Rightarrow> string \<Rightarrow> 'w \<Rightarrow> 'w res" where
  "io_Copy tw d w = loop_res (w_Write tw) (chunks 32768 d) w"

text \<open>A script of calls and its run on a writer.\<close>

datatype tar_op = Hdr tar_hdr | Data string

fun do_op :: "'w tarWriter \<Rightarrow> tar_op \<Rightarrow> 'w \<Rightarrow> 'w res" where
  "do_op tw (Hdr h) w = w_WriteHeader tw h w"
| "do_op tw (Data d) w = w_Write tw d w"

definition run_ops :: "'w tarWriter \<Rightarrow> tar_op list \<Rightarrow> 'w \<Rightarrow> 'w res" where
  "run_ops tw ops w = loop_res (do_op tw) ops w"

definition copy_ops :: "string \<Rightarrow> tar_op list" where
  "copy_ops d = (if d = [] then [] else [Data d])"

section \<open>\<^verbatim>\<open>tar.Writer\<close>\<close>

record tarw =
  tw_out :: "tar_entry list"
  tw_left :: nat
  tw_closed :: bool

definition NewWriter :: tarw where
  "NewWriter = \<lparr>tw_out = [], tw_left = 0, tw_closed = False\<rparr>"

text \<open>
  What reaches the archive: the old flag of a regular file is replaced and the name of a
  directory ends with a slash.
\<close>

definition norm_hdr :: "tar_hdr \<Rightarrow> tar_hdr" where
  "norm_hdr h =
     (let h1 = (if th_Typeflag h = TypeRegA
                then h\<lparr>th_Typeflag := if ends_slash (th_Name h) then TypeDir else TypeReg\<rparr> else h)
      in if th_Typeflag h1 = TypeDir \<and> \<not> ends_slash (th_Name h1)
         then h1\<lparr>th_Name := th_Name h1 @ ''/''\<rparr> else h1)"

definition payload :: "tar_hdr \<Rightarrow> nat" where
  "payload h = (if isHeaderOnlyType (th_Typeflag (norm_hdr h)) then 0 else th_Size h)"

definition tw_Flush :: "tarw \<Rightarrow> tarw res" where
  "tw_Flush w =
     (if tw_closed w then Err ''archive/tar: write after close''
      else if tw_left w > 0
      then Err (''archive/tar: missed writing '' @ dec_digits (tw_left w) @ '' bytes'')
      else Ok w)"

definition tw_WriteHeader :: "tar_hdr \<Rightarrow> tarw \<Rightarrow> tarw res" where
  "tw_WriteHeader h w =
     bind_res (tw_Flush w)
       (\<lambda>w. Ok (w\<lparr>tw_out := tw_out w @ [(norm_hdr h, [])], tw_left := payload h\<rparr>))"

fun app_data :: "string \<Rightarrow> tar_entry list \<Rightarrow> tar_entry list" where
  "app_data d [] = []"
| "app_data d [(h, b)] = [(h, b @ d)]"
| "app_data d (e # e' # es) = e # app_data d (e' # es)"

definition tw_Write :: "string \<Rightarrow> tarw \<Rightarrow> tarw res" where
  "tw_Write d w =
     (if tw_closed w then Err ''archive/tar: write after close''
      else if length d > tw_left w then Err ''archive/tar: write too long''
      else Ok (w\<lparr>tw_out := app_data d (tw_out w), tw_left := tw_left w - length d\<rparr>))"

definition tw_Close :: "tarw \<Rightarrow> tarw res" where
  "tw_Close w =
     (if tw_closed w then Ok w
      else bind_res (tw_Flush w) (\<lambda>w. Ok (w\<lparr>tw_closed := True\<rparr>)))"

definition tarWriter :: "tarw tarWriter" where
  "tarWriter =
     \<lparr>w_WriteHeader = tw_WriteHeader, w_Write = tw_Write, w_Flush = tw_Flush, w_Close = tw_Close\<rparr>"

section \<open>The contract of the interface\<close>

text \<open>
  A writer may be given the bytes of an entry in pieces: writing two pieces is writing their
  concatenation.
\<close>

locale tar_writer =
  fixes tw :: "'w tarWriter"
  assumes write_append: "w_Write tw (a @ b) w = bind_res (w_Write tw a w) (w_Write tw b)"
begin

text \<open>Copying in blocks is one write of everything, and nothing at all for an empty entry.\<close>

lemma io_Copy_write: "io_Copy tw d w = (if d = [] then Ok w else w_Write tw d w)"
proof -
  have "loop_res (w_Write tw) (chunks n d) w = (if d = [] then Ok w else w_Write tw d w)"
    if "n > 0" for n
    using that
  proof (induction n d arbitrary: w rule: chunks.induct)
    case (1 n xs)
    show ?case
    proof (cases "xs = []")
      case True
      then show ?thesis by (simp add: chunks.simps)
    next
      case False
      have "bind_res (w_Write tw (take n xs) w) (loop_res (w_Write tw) (chunks n (drop n xs))) =
          w_Write tw xs w"
      proof (cases "drop n xs = []")
        case True
        then have "take n xs = xs" "chunks n (drop n xs) = []"
          by (simp_all add: chunks.simps)
        then show ?thesis by (cases "w_Write tw xs w") simp_all
      next
        case drop: False
        have "loop_res (w_Write tw) (chunks n (drop n xs)) = w_Write tw (drop n xs)"
          using "1.IH" [OF _ "1.prems"] False "1.prems" drop by (simp add: fun_eq_iff)
        then show ?thesis
          using write_append [of "take n xs" "drop n xs" w] by simp
      qed
      with False "1.prems" show ?thesis
        by (simp add: chunks.simps [of n xs])
    qed
  qed
  then show ?thesis by (simp add: io_Copy_def)
qed

lemma io_Copy_run: "io_Copy tw d w = run_ops tw (copy_ops d) w"
  by (cases "w_Write tw d w") (simp_all add: io_Copy_write copy_ops_def run_ops_def)

lemma io_Copy_eta: "io_Copy tw d = run_ops tw (copy_ops d)"
  by (simp add: fun_eq_iff io_Copy_run)

end

lemma run_ops_eta: "run_ops tw ops = loop_res (do_op tw) ops"
  by (simp add: fun_eq_iff run_ops_def)

lemma run_ops_append: "run_ops tw (a @ b) w = bind_res (run_ops tw a w) (run_ops tw b)"
  by (simp add: run_ops_eta loop_res_append)

lemma run_ops_Nil [simp]: "run_ops tw [] w = Ok w"
  by (simp add: run_ops_eta)

lemma run_ops_Cons: "run_ops tw (op # ops) w = bind_res (do_op tw op w) (run_ops tw ops)"
  by (simp add: run_ops_eta)

lemma run_ops_single: "run_ops tw [op] w = do_op tw op w"
  by (cases "do_op tw op w") (simp_all add: run_ops_Cons)

lemma run_ops_single_eta: "run_ops tw [op] = do_op tw op"
  by (simp add: fun_eq_iff run_ops_single)

lemma do_op_eta: "do_op tw (Hdr h) = w_WriteHeader tw h" "do_op tw (Data d) = w_Write tw d"
  by (simp_all add: fun_eq_iff)

lemma payload_reg: "th_Typeflag h = TypeReg \<Longrightarrow> payload h = th_Size h"
  by (simp add: payload_def norm_hdr_def isHeaderOnlyType_def)

lemma payload_old:
  "th_Typeflag h = TypeRegA \<Longrightarrow> \<not> ends_slash (th_Name h) \<Longrightarrow> payload h = th_Size h"
  by (simp add: payload_def norm_hdr_def isHeaderOnlyType_def Let_def)

lemma payload_only: "isHeaderOnlyType (th_Typeflag h) \<Longrightarrow> payload h = 0"
  by (auto simp: payload_def norm_hdr_def isHeaderOnlyType_def Let_def)

lemma bind_res_Ok_id: "bind_res r Ok = r"
  by (cases r) simp_all

text \<open>A loop whose body runs a script runs the concatenation of the scripts.\<close>

lemma loop_res_run_ops:
  assumes "\<And>x w. f x w = run_ops tw (ops x) w"
  shows "loop_res f xs w = run_ops tw (concat (map ops xs)) w"
proof (induction xs arbitrary: w)
  case (Cons x xs)
  then show ?case
    by (cases "run_ops tw (ops x) w") (simp_all add: assms run_ops_append)
qed simp

lemma app_data_snoc: "app_data d (es @ [(h, b)]) = es @ [(h, b @ d)]"
proof (induction es)
  case (Cons e es)
  then show ?case by (cases es) auto
qed simp

lemma app_data_append: "app_data (a @ b) es = app_data b (app_data a es)"
proof (cases es rule: rev_cases)
  case (snoc es' e)
  then show ?thesis by (cases e) (simp add: app_data_snoc)
qed simp

interpretation tarw: tar_writer tarWriter
proof unfold_locales
  fix a b :: string and w :: tarw
  show "w_Write tarWriter (a @ b) w = bind_res (w_Write tarWriter a w) (w_Write tarWriter b)"
    by (auto simp: tarWriter_def tw_Write_def app_data_append)
qed

section \<open>Which scripts the writer accepts\<close>

text \<open>The bytes owed after a script, or nothing if the writer refuses it.\<close>

fun leaves :: "nat \<Rightarrow> tar_op list \<Rightarrow> nat option" where
  "leaves n [] = Some n"
| "leaves n (Hdr h # ops) = (if n > 0 then None else leaves (payload h) ops)"
| "leaves n (Data d # ops) = (if length d \<le> n then leaves (n - length d) ops else None)"

fun written :: "tar_entry list \<Rightarrow> tar_op list \<Rightarrow> tar_entry list" where
  "written es [] = es"
| "written es (Hdr h # ops) = written (es @ [(norm_hdr h, [])]) ops"
| "written es (Data d # ops) = written (app_data d es) ops"

lemma leaves_append:
  "leaves n (a @ b) = (case leaves n a of None \<Rightarrow> None | Some m \<Rightarrow> leaves m b)"
  by (induction n a rule: leaves.induct) auto

lemma written_append: "written es (a @ b) = written (written es a) b"
  by (induction es a rule: written.induct) auto

lemma tarWriter_sel [simp]:
  "w_WriteHeader tarWriter = tw_WriteHeader" "w_Write tarWriter = tw_Write"
  "w_Flush tarWriter = tw_Flush" "w_Close tarWriter = tw_Close"
  by (simp_all add: tarWriter_def)

lemma run_tarWriter:
  assumes "\<not> tw_closed w"
  shows "run_ops tarWriter ops w = Ok w' \<longleftrightarrow>
    (\<exists>n. leaves (tw_left w) ops = Some n \<and> w' = w\<lparr>tw_out := written (tw_out w) ops, tw_left := n\<rparr>)"
  using assms
proof (induction ops arbitrary: w)
  case Nil
  then show ?case by auto
next
  case (Cons op ops)
  show ?case
  proof (cases op)
    case (Hdr h)
    with Cons.prems Cons.IH [of "w\<lparr>tw_out := tw_out w @ [(norm_hdr h, [])], tw_left := payload h\<rparr>"]
    show ?thesis by (simp add: run_ops_Cons tw_WriteHeader_def tw_Flush_def)
  next
    case (Data d)
    with Cons.prems Cons.IH [of "w\<lparr>tw_out := app_data d (tw_out w), tw_left := tw_left w - length d\<rparr>"]
    show ?thesis by (simp add: run_ops_Cons tw_Write_def)
  qed
qed

lemma run_tarWriter_no_panic: "run_ops tarWriter ops w \<noteq> Panic"
proof (induction ops arbitrary: w)
  case (Cons op ops)
  then show ?case
    by (cases op) (auto simp: run_ops_Cons bind_res_Panic_iff tw_WriteHeader_def tw_Flush_def
        tw_Write_def)
qed simp

text \<open>An entry whose data is exactly what its header announces.\<close>

definition exact :: "tar_entry \<Rightarrow> bool" where
  "exact e \<longleftrightarrow> length (snd e) = payload (fst e)"

definition entry_ops :: "tar_entry \<Rightarrow> tar_op list" where
  "entry_ops e = Hdr (fst e) # copy_ops (snd e)"

definition on_tape :: "tar_entry \<Rightarrow> tar_entry" where
  "on_tape e = (norm_hdr (fst e), snd e)"

lemma app_data_Nil [simp]: "app_data [] es = es"
proof (cases es rule: rev_cases)
  case (snoc es' e)
  then show ?thesis by (cases e) (simp add: app_data_snoc)
qed simp

lemma leaves_entry: "exact e \<Longrightarrow> leaves 0 (entry_ops e) = Some 0"
  by (auto simp: exact_def entry_ops_def copy_ops_def)

lemma written_entry: "written es (entry_ops e) = es @ [on_tape e]"
  by (simp add: entry_ops_def copy_ops_def on_tape_def app_data_snoc)

lemma leaves_entries: "list_all exact es \<Longrightarrow> leaves 0 (concat (map entry_ops es)) = Some 0"
  by (induction es) (simp_all add: leaves_append leaves_entry)

lemma written_entries: "written out (concat (map entry_ops es)) = out @ map on_tape es"
  by (induction es arbitrary: out) (simp_all add: written_append written_entry)

lemma run_entries:
  assumes "list_all exact es" and "\<not> tw_closed w" and "tw_left w = 0"
  shows "run_ops tarWriter (concat (map entry_ops es)) w = Ok (w\<lparr>tw_out := tw_out w @ map on_tape es\<rparr>)"
  using assms by (simp add: run_tarWriter leaves_entries written_entries)

lemma NewWriter_sel: "tw_out NewWriter = []" "tw_left NewWriter = 0" "\<not> tw_closed NewWriter"
  by (simp_all add: NewWriter_def)

lemma copy_ops_Nil: "copy_ops [] = []"
  by (simp add: copy_ops_def)

abbreviation entries :: "tar_entry list \<Rightarrow> tar_op list" where
  "entries es \<equiv> concat (map entry_ops es)"

lemma tw_Write_empty: "\<not> tw_closed w \<Longrightarrow> tw_Write [] w = Ok w"
  by (simp add: tw_Write_def)

lemma tw_WriteHeader_open: "tw_WriteHeader h w = Ok w' \<Longrightarrow> \<not> tw_closed w'"
  by (auto simp: tw_WriteHeader_def tw_Flush_def split: if_splits)

lemma write_entry: "bind_res (tw_WriteHeader h w) (tw_Write d) = run_ops tarWriter (entry_ops (h, d)) w"
  by (cases "tw_WriteHeader h w")
    (auto simp: entry_ops_def copy_ops_def run_ops_Cons run_ops_single_eta do_op_eta tw_Write_empty
      tw_WriteHeader_open)

lemma write_entry_then:
  "bind_res (tw_WriteHeader h w) (\<lambda>w. bind_res (tw_Write d w) f) =
     bind_res (run_ops tarWriter (entry_ops (h, d)) w) f"
  by (simp add: write_entry [symmetric] bind_res_assoc)

lemma header_then: "tw_WriteHeader h w = run_ops tarWriter (entry_ops (h, [])) w"
  by (simp add: entry_ops_def copy_ops_def run_ops_single)

end
