(* ===== verification/Initrd.thy ===== *)
theory Initrd
  imports Cpio Go_Path Tar
begin

text \<open>
  The conversion of the built tar into an initrd (\<^verbatim>\<open>initrd/initrd.go\<close> and \<^verbatim>\<open>tarToInitrd\<close> of
  \<^verbatim>\<open>moby/build/output.go\<close>): the kernel, its command line and the microcode are split out, the
  rest of \<^verbatim>\<open>boot/\<close> is dropped, and every other entry becomes an entry of a compressed cpio
  archive.  The compressor is a parameter; a \<^verbatim>\<open>Writer\<close> is the cpio writer whose output the
  compressor collects.
\<close>

section \<open>The conversion of an entry\<close>

definition typeconv :: "tar_hdr \<Rightarrow> int \<times> tar_hdr" where
  "typeconv thdr =
     (if th_Typeflag thdr = TypeReg then (TYPE_REG, thdr)
      else if th_Typeflag thdr = TypeLink then
        let dir = path_dir (th_Name thdr);
            rel = (case path_rel dir (th_Linkname thdr) of
                     Ok rel \<Rightarrow> rel | _ \<Rightarrow> ''/'' @ th_Linkname thdr)
        in (TYPE_SYMLINK, thdr\<lparr>th_Linkname := rel\<rparr>)
      else if th_Typeflag thdr = TypeSymlink then (TYPE_SYMLINK, thdr)
      else if th_Typeflag thdr = TypeChar then (TYPE_CHAR, thdr)
      else if th_Typeflag thdr = TypeBlock then (TYPE_BLK, thdr)
      else if th_Typeflag thdr = TypeDir then (TYPE_DIR, thdr)
      else if th_Typeflag thdr = TypeFifo then (TYPE_FIFO, thdr)
      else (-1, thdr))"

text \<open>The block of the function that fills in the header.\<close>

definition cpioHdr :: "int \<Rightarrow> tar_hdr \<Rightarrow> cpio_hdr" where
  "cpioHdr tp thdr =
     \<lparr>c_Mode = th_Mode thdr, c_Uid = th_Uid thdr, c_Gid = th_Gid thdr, c_Mtime = th_ModTime thdr,
      c_Size = int (if tp = TYPE_SYMLINK then length (th_Linkname thdr) else th_Size thdr),
      c_Devmajor = th_Devmajor thdr, c_Devminor = th_Devminor thdr, c_Type = tp,
      c_Name = th_Name thdr\<rparr>"

text \<open>\<^verbatim>\<open>io.Copy\<close> into a writer that may take fewer bytes than it is given.\<close>

definition initrd_Copy :: "string \<Rightarrow> cpio_writer \<Rightarrow> cpio_writer res" where
  "initrd_Copy d w =
     loop_res
       (\<lambda>b w. bind_res (cw_Write b w)
          (\<lambda>(n, w). if n = length b then Ok w else Err ''short write''))
       (chunks 32768 d) w"

definition copyTarEntry :: "cpio_writer \<Rightarrow> tar_hdr \<Rightarrow> string \<Rightarrow> cpio_writer res" where
  "copyTarEntry w thdr r =
     (case typeconv thdr of (tp, thdr) \<Rightarrow>
        if tp = -1 then Err ''cannot convert tar file''
        else let w = cw_WriteHeader (cpioHdr tp thdr) w in
             if tp = TYPE_SYMLINK
             then bind_res (cw_Write (th_Linkname thdr) w) (\<lambda>(count, w). Ok w)
             else if tp = TYPE_REG then initrd_Copy r w
             else Ok w)"

section \<open>The split\<close>

record splitOut =
  so_kernel :: string
  so_cmdline :: string
  so_ucode :: string
  so_w :: cpio_writer

definition splitEntry :: "tar_hdr \<Rightarrow> string \<Rightarrow> splitOut \<Rightarrow> splitOut res" where
  "splitEntry thdr r s =
     (if th_Name thdr = ''boot/kernel'' then Ok (s\<lparr>so_kernel := r\<rparr>)
      else if th_Name thdr = ''boot/cmdline'' then Ok (s\<lparr>so_cmdline := r\<rparr>)
      else if th_Name thdr = ''boot/ucode.cpio'' then Ok (s\<lparr>so_ucode := r\<rparr>)
      else if has_prefix (th_Name thdr) ''boot/'' then Ok s
      else bind_res (copyTarEntry (so_w s) thdr r) (\<lambda>w. Ok (s\<lparr>so_w := w\<rparr>)))"

definition CopySplitTar :: "cpio_writer \<Rightarrow> tar_stream \<Rightarrow> splitOut res" where
  "CopySplitTar w r =
     tar_loop splitEntry r \<lparr>so_kernel = [], so_cmdline = [], so_ucode = [], so_w = w\<rparr>"

text \<open>Closing writes the trailer, then the compressor flushes everything to the buffer.\<close>

definition initrd_Close :: "(string \<Rightarrow> string) \<Rightarrow> cpio_writer \<Rightarrow> string" where
  "initrd_Close gzip w = gzip (cw_w (cw_Close w))"

text \<open>Kernel, initrd, command line and microcode.\<close>

definition tarToInitrd ::
  "(string \<Rightarrow> string) \<Rightarrow> tar_stream \<Rightarrow> (string \<times> string \<times> string \<times> string) res" where
  "tarToInitrd gzip r =
     bind_res (CopySplitTar cw_New r)
       (\<lambda>s. Ok (so_kernel s, initrd_Close gzip (so_w s), so_cmdline s, so_ucode s))"

section \<open>What the conversion yields\<close>

definition bootEntry :: "tar_entry \<Rightarrow> bool" where
  "bootEntry e \<longleftrightarrow> has_prefix (th_Name (fst e)) ''boot/''"

text \<open>The contents of the last entry of a name.\<close>

definition lastNamed :: "string \<Rightarrow> tar_entry list \<Rightarrow> string" where
  "lastNamed n es =
     last ([] # map snd (filter (\<lambda>e. th_Name (fst e) = n) es))"

definition initrdEntry :: "tar_entry \<Rightarrow> cpio_hdr \<times> string" where
  "initrdEntry e =
     (case typeconv (fst e) of (tp, thdr) \<Rightarrow>
        (cpioHdr tp thdr,
         if tp = TYPE_SYMLINK then th_Linkname thdr else if tp = TYPE_REG then snd e else []))"

definition convertible :: "tar_entry \<Rightarrow> bool" where
  "convertible e \<longleftrightarrow>
     th_Typeflag (fst e) \<in>
       {TypeReg, TypeLink, TypeSymlink, TypeChar, TypeBlock, TypeDir, TypeFifo} \<and>
     storable (initrdEntry e)"

lemma typeconv_known:
  "th_Typeflag h \<in> {TypeReg, TypeLink, TypeSymlink, TypeChar, TypeBlock, TypeDir, TypeFifo} \<Longrightarrow>
     fst (typeconv h) \<noteq> -1"
  by (auto simp: typeconv_def Let_def)

lemma typeconv_unknown:
  "th_Typeflag h \<notin> {TypeReg, TypeLink, TypeSymlink, TypeChar, TypeBlock, TypeDir, TypeFifo} \<Longrightarrow>
     typeconv h = (-1, h)"
  by (simp add: typeconv_def)

lemma cw_Write_all:
  "int (length b) \<le> cw_remaining w \<Longrightarrow>
     cw_Write b w =
       Ok (length b, (cw_countedWrite b w)\<lparr>cw_remaining := cw_remaining w - int (length b)\<rparr>)"
  by (simp add: cw_Write_def cw_countedWrite_def Let_def)

text \<open>Copying in blocks is one write as long as the contents fit the announced size.\<close>

lemma initrd_Copy_all:
  assumes "int (length d) \<le> cw_remaining w"
  shows "initrd_Copy d w =
    Ok ((cw_countedWrite d w)\<lparr>cw_remaining := cw_remaining w - int (length d)\<rparr>)"
proof -
  let ?f = "\<lambda>b w. bind_res (cw_Write b w)
    (\<lambda>(n, w). if n = length b then Ok w else Err ''short write'')"
  have "loop_res ?f (chunks n d) w =
      Ok ((cw_countedWrite d w)\<lparr>cw_remaining := cw_remaining w - int (length d)\<rparr>)" if "n > 0" for n
    using that assms
  proof (induction n d arbitrary: w rule: chunks.induct)
    case (1 n xs)
    show ?case
    proof (cases "xs = []")
      case True
      then show ?thesis by (simp add: chunks.simps cw_countedWrite_def)
    next
      case False
      let ?w = "(cw_countedWrite (take n xs) w)
        \<lparr>cw_remaining := cw_remaining w - int (length (take n xs))\<rparr>"
      have fit: "int (length (take n xs)) \<le> cw_remaining w"
        and rest: "int (length (drop n xs)) \<le> cw_remaining ?w"
        using "1.prems" by auto
      have "length xs = length (take n xs) + length (drop n xs)" by simp
      then have len: "int (length xs) = int (length (take n xs)) + int (length (drop n xs))"
        by (metis of_nat_add)
      have "loop_res ?f (chunks n xs) w = loop_res ?f (chunks n (drop n xs)) ?w"
        using False "1.prems" cw_Write_all [OF fit] by (simp add: chunks.simps [of n xs])
      also have "\<dots> = Ok ((cw_countedWrite (drop n xs) ?w)
          \<lparr>cw_remaining := cw_remaining ?w - int (length (drop n xs))\<rparr>)"
        using "1.IH" [OF _ "1.prems"(1) rest] False "1.prems"(1) by simp
      also have "\<dots> = Ok ((cw_countedWrite xs w)\<lparr>cw_remaining := cw_remaining w - int (length xs)\<rparr>)"
        unfolding len by (simp add: cw_countedWrite_def)
      finally show ?thesis .
    qed
  qed
  then show ?thesis by (simp add: initrd_Copy_def)
qed

lemma copyTarEntry_put:
  assumes "convertible (h, d)" and "cw_at w"
  shows "copyTarEntry w h d = Ok (cpio_put (initrdEntry (h, d)) w)"
proof -
  obtain tp h' where tc: "typeconv h = (tp, h')" by (cases "typeconv h")
  have tp: "tp \<noteq> -1" using assms(1) typeconv_known [of h] by (simp add: tc convertible_def)
  have rem: "cw_remaining (cw_WriteHeader (cpioHdr tp h') w) = c_Size (cpioHdr tp h')"
    by (simp add: cw_WriteHeader_at [OF assms(2)] Let_def)
  have size: "c_Size (cpioHdr tp h') = int (length (snd (initrdEntry (h, d))))"
    using assms(1) by (simp add: convertible_def storable_def initrdEntry_def tc)
  have clean: "w\<lparr>cw_remaining := 0\<rparr> = w" if "cw_remaining w = 0" for w :: cpio_writer
    using that by (cases w) simp
  consider "tp = TYPE_SYMLINK" | "tp = TYPE_REG" | "tp \<noteq> TYPE_SYMLINK" "tp \<noteq> TYPE_REG" by blast
  then show ?thesis
  proof cases
    case 1
    then show ?thesis
      using size rem by (simp add: copyTarEntry_def tc Let_def cw_Write_all cpio_put_def initrdEntry_def)
  next
    case 2
    then show ?thesis
      using size rem by (simp add: copyTarEntry_def tc Let_def initrd_Copy_all cpio_put_def initrdEntry_def)
  next
    case 3
    then show ?thesis
      using size rem tp
      by (simp add: copyTarEntry_def tc Let_def cpio_put_def initrdEntry_def cw_countedWrite_def clean)
  qed
qed

abbreviation rootEntries :: "tar_entry list \<Rightarrow> tar_entry list" where
  "rootEntries es \<equiv> filter (\<lambda>e. \<not> bootEntry e) es"

definition lastOr :: "string \<Rightarrow> string \<Rightarrow> tar_entry list \<Rightarrow> string" where
  "lastOr k n es = last (k # map snd (filter (\<lambda>e. th_Name (fst e) = n) es))"

lemma lastOr_simps [simp]:
  "lastOr k n [] = k"
  "lastOr k n ((h, d) # es) = (if th_Name h = n then lastOr d n es else lastOr k n es)"
  by (simp_all add: lastOr_def)

lemma splitEntry_root:
  assumes "\<not> bootEntry (h, d)" and "convertible (h, d)" and "cw_at (so_w s)"
  shows "splitEntry h d s = Ok (s\<lparr>so_w := cpio_put (initrdEntry (h, d)) (so_w s)\<rparr>)"
  using assms by (auto simp: splitEntry_def bootEntry_def copyTarEntry_put)

lemma splitEntry_boot:
  assumes "bootEntry (h, d)"
  shows "splitEntry h d s = Ok (s\<lparr>so_kernel := if th_Name h = ''boot/kernel'' then d else so_kernel s,
    so_cmdline := if th_Name h = ''boot/cmdline'' then d else so_cmdline s,
    so_ucode := if th_Name h = ''boot/ucode.cpio'' then d else so_ucode s\<rparr>)"
  using assms by (auto simp: splitEntry_def bootEntry_def)

lemma split_loop:
  assumes "list_all (\<lambda>e. bootEntry e \<or> convertible e) es" and "cw_at (so_w s)"
  shows "loop_res (\<lambda>(h, d). splitEntry h d) es s =
    Ok \<lparr>so_kernel = lastOr (so_kernel s) ''boot/kernel'' es,
        so_cmdline = lastOr (so_cmdline s) ''boot/cmdline'' es,
        so_ucode = lastOr (so_ucode s) ''boot/ucode.cpio'' es,
        so_w = fold cpio_put (map initrdEntry (rootEntries es)) (so_w s)\<rparr>"
  using assms
proof (induction es arbitrary: s)
  case (Cons e es)
  obtain h d where e: "e = (h, d)" by (cases e)
  show ?case
  proof (cases "bootEntry e")
    case True
    from Cons.IH [of "s\<lparr>so_kernel := if th_Name h = ''boot/kernel'' then d else so_kernel s,
        so_cmdline := if th_Name h = ''boot/cmdline'' then d else so_cmdline s,
        so_ucode := if th_Name h = ''boot/ucode.cpio'' then d else so_ucode s\<rparr>"] Cons.prems True
    show ?thesis by (simp add: e splitEntry_boot)
  next
    case False
    have other: "th_Name h \<noteq> ''boot/kernel''" "th_Name h \<noteq> ''boot/cmdline''"
      "th_Name h \<noteq> ''boot/ucode.cpio''"
      using False by (auto simp: e bootEntry_def)
    have at: "cw_at (cpio_put (initrdEntry e) (so_w s))"
      using cpio_put_at(1) [OF Cons.prems(2)] by (cases "initrdEntry e") simp
    from Cons.IH [of "s\<lparr>so_w := cpio_put (initrdEntry e) (so_w s)\<rparr>"] Cons.prems False at
    show ?thesis by (simp add: e splitEntry_root other)
  qed
qed simp

lemma tarToInitrd_split:
  assumes "list_all (\<lambda>e. bootEntry e \<or> convertible e) es"
  shows "tarToInitrd gzip (es, None) =
    Ok (lastNamed ''boot/kernel'' es, gzip (cpio_archive (map initrdEntry (rootEntries es))),
        lastNamed ''boot/cmdline'' es, lastNamed ''boot/ucode.cpio'' es)"
proof -
  have "cw_at cw_New" by (simp add: cw_at_def cw_New_def)
  with split_loop [OF assms] show ?thesis
    by (simp add: tarToInitrd_def CopySplitTar_def tar_loop_def initrd_Close_def cpio_archive_def
        lastNamed_def lastOr_def)
qed

lemma splitEntry_unknown:
  "\<not> bootEntry (h, d) \<Longrightarrow> fst (typeconv h) = -1 \<Longrightarrow> splitEntry h d s = Err ''cannot convert tar file''"
  by (auto simp: splitEntry_def bootEntry_def copyTarEntry_def split: prod.splits)

lemma path_clean_not_Nil: "path_clean s \<noteq> []"
proof -
  have "join ''/'' cs \<noteq> []" if "cs \<noteq> []" "[] \<notin> set cs" for cs
    using that by (cases cs) (auto simp: join_Cons)
  moreover have "[] \<notin> set (comps s)" using normal_not_Nil [OF normal_comps] by blast
  ultimately show ?thesis by (simp add: path_clean_def path_string_def)
qed

text \<open>An archive used as an example: a kernel, a directory, a file and a hard link to it.\<close>

definition demoRoot :: "tar_entry list" where
  "demoRoot =
     [(Header\<lparr>th_Typeflag := TypeReg, th_Name := ''boot/kernel'', th_Size := 3\<rparr>, ''ELF''),
      (Header\<lparr>th_Typeflag := TypeDir, th_Name := ''bin/'', th_Mode := 493\<rparr>, []),
      (Header\<lparr>th_Typeflag := TypeReg, th_Name := ''bin/busybox'', th_Mode := 493, th_Size := 5\<rparr>, ''#!foo''),
      (Header\<lparr>th_Typeflag := TypeLink, th_Name := ''sbin/sh'', th_Linkname := ''bin/busybox''\<rparr>, [])]"

lemma demo_rel: "path_rel (path_dir ''sbin/sh'') ''bin/busybox'' = Ok ''../bin/busybox''"
  by code_simp

lemma demoRoot_ok: "list_all (\<lambda>e. bootEntry e \<or> convertible e) demoRoot"
  by (simp add: demoRoot_def bootEntry_def convertible_def initrdEntry_def typeconv_def Header_def
      Let_def demo_rel storable_def cpioHdr_def fits_def IsTrailer_def trailer_def)

section \<open>Properties\<close>

text \<open>
  C3.  The initrd holds the image: when every entry outside \<^verbatim>\<open>boot/\<close> can be converted, splitting
  succeeds, returns the contents of the last kernel, command line and microcode entries, and the
  archive, once decompressed and read back, has exactly the other entries of the tar, in order.
\<close>

theorem tarToInitrd_roundtrip:
  assumes "\<And>x. gunzip (gzip x) = x"
    and "list_all (\<lambda>e. bootEntry e \<or> convertible e) es"
    and "721 + int (length es) < 4294967296"
  shows "\<exists>initrd. tarToInitrd gzip (es, None) =
      Ok (lastNamed ''boot/kernel'' es, initrd, lastNamed ''boot/cmdline'' es,
          lastNamed ''boot/ucode.cpio'' es) \<and>
    cpio_list (Suc (length (rootEntries es))) (cr_New (gunzip initrd)) =
      Ok (map (\<lambda>e. stored (initrdEntry e)) (rootEntries es))"
proof -
  have "list_all storable (map initrdEntry (rootEntries es))"
    using assms(2) by (auto simp: list_all_iff convertible_def)
  moreover have "721 + int (length (map initrdEntry (rootEntries es))) < 4294967296"
    using assms(3) length_filter_le [of "\<lambda>e. \<not> bootEntry e" es] unfolding length_map by linarith
  ultimately show ?thesis
    using cpio_roundtrip [of "map initrdEntry (rootEntries es)"]
    by (simp add: tarToInitrd_split [OF assms(2)] assms(1) comp_def)
qed

theorem tarToInitrd_roundtrip_witness:
  "\<exists>initrd. tarToInitrd ((@) ''gz'') (demoRoot, None) = Ok (''ELF'', initrd, [], []) \<and>
     cpio_list 4 (cr_New (drop 2 initrd)) =
       Ok (map (\<lambda>e. stored (initrdEntry e)) (tl demoRoot))"
proof -
  have "lastNamed ''boot/kernel'' demoRoot = ''ELF''" "lastNamed ''boot/cmdline'' demoRoot = []"
    "lastNamed ''boot/ucode.cpio'' demoRoot = []" "rootEntries demoRoot = tl demoRoot"
    "length demoRoot = 4"
    by (simp_all add: lastNamed_def demoRoot_def Header_def bootEntry_def)
  then show ?thesis
    using tarToInitrd_roundtrip [of "drop 2" "(@) ''gz''" demoRoot, OF _ demoRoot_ok] by simp
qed

text \<open>
  C33.  Hard links survive as symbolic links: for relative names that do not climb out of the root,
  the link of the initrd entry, followed from the directory of the entry, leads to the file the
  hard link named.
\<close>

theorem hardlink_target:
  assumes "th_Typeflag h = TypeLink"
    and "\<not> rooted (path_dir (th_Name h))" and "\<not> rooted (th_Linkname h)"
    and "''..'' \<notin> set (comps (path_dir (th_Name h)))"
  shows "\<exists>rel. initrdEntry (h, d) = (cpioHdr TYPE_SYMLINK (h\<lparr>th_Linkname := rel\<rparr>), rel) \<and>
    path_clean (path_dir (th_Name h) @ ''/'' @ rel) = path_clean (th_Linkname h)"
proof -
  obtain bs ts where dc:
    "drop_common (comps (path_dir (th_Name h))) (comps (th_Linkname h)) = (bs, ts)"
    by (cases "drop_common (comps (path_dir (th_Name h))) (comps (th_Linkname h))")
  from drop_common_split [OF dc] have "set bs \<subseteq> set (comps (path_dir (th_Name h)))" by auto
  then have "\<not> (bs \<noteq> [] \<and> hd bs = ''..'')" using assms(4) by (metis hd_in_set subsetD)
  then have rel: "path_rel (path_dir (th_Name h)) (th_Linkname h) =
      Ok (path_string False (replicate (length bs) ''..'' @ ts))"
    using assms(2,3) dc by (simp only: path_rel_def prod.case if_False simp_thms)
  have "path_dir (th_Name h) \<noteq> []" by (simp add: path_dir_def path_clean_not_Nil)
  from path_rel_correct [OF rel this] rel assms(1) show ?thesis
    by (simp add: initrdEntry_def typeconv_def Let_def)
qed

theorem hardlink_target_witness:
  "\<exists>rel. initrdEntry (demoRoot ! 3) =
      (cpioHdr TYPE_SYMLINK ((fst (demoRoot ! 3))\<lparr>th_Linkname := rel\<rparr>), rel) \<and>
    path_clean (''sbin/'' @ rel) = ''bin/busybox''"
proof -
  let ?h = "fst (demoRoot ! 3)"
  have h: "demoRoot ! 3 = (?h, [])" "th_Typeflag ?h = TypeLink" "th_Name ?h = ''sbin/sh''"
    "th_Linkname ?h = ''bin/busybox''"
    by (simp_all add: demoRoot_def Header_def)
  have dir: "path_dir ''sbin/sh'' = ''sbin''" "\<not> rooted ''sbin''" "\<not> rooted ''bin/busybox''"
    "''..'' \<notin> set (comps ''sbin'')" "path_clean ''bin/busybox'' = ''bin/busybox''"
    by code_simp+
  show ?thesis
    using hardlink_target [of ?h "[]"] by (simp add: h(2-4) dir h(1) [symmetric])
qed

end
