(* ===== verification/Util_Reference.thy ===== *)
theory Util_Reference
  imports Go_Path
begin

text \<open>
  Image references and architecture names: \<^verbatim>\<open>util/reference.go\<close>, \<^verbatim>\<open>util/arch.go\<close>, and the value
  type \<^verbatim>\<open>reference.Spec\<close> of the containerd library with its printed form.  Parsing a reference is
  code of that library; it is a parameter of the definitions that use it.
\<close>

section \<open>References\<close>

record refOpts =
  withTag :: bool

type_synonym ReferenceOption = "refOpts \<Rightarrow> refOpts"

definition ReferenceWithTag :: ReferenceOption where
  "ReferenceWithTag r = r\<lparr>withTag := True\<rparr>"

definition ReferenceExpand :: "string \<Rightarrow> ReferenceOption list \<Rightarrow> string" where
  "ReferenceExpand ref options =
     (let opts = foldl (\<lambda>o' opt. opt o') \<lparr>withTag = False\<rparr> options;
          parts = split_on (CHR ''/'') ref;
          ret = (case parts of
                   [_] \<Rightarrow> ''docker.io/library/'' @ ref
                 | [p, _] \<Rightarrow>
                     if \<not> contains_char p (CHR ''.'') \<and> \<not> contains_char p (CHR '':'')
                        \<and> p \<noteq> ''localhost''
                     then ''docker.io/'' @ ref else ref
                 | _ \<Rightarrow> ref)
      in if withTag opts \<and> \<not> contains_char ret (CHR '':'') then ret @ '':latest'' else ret)"

record refspec =
  Locator :: string
  Object :: string

definition ref_String :: "refspec \<Rightarrow> string" where
  "ref_String r =
     (case Object r of
        [] \<Rightarrow> Locator r
      | c # _ \<Rightarrow> if c = CHR ''@'' then Locator r @ Object r
                 else Locator r @ '':'' @ Object r)"

section \<open>Architectures\<close>

definition MArch :: "string \<Rightarrow> string res" where
  "MArch inp =
     (if inp = ''x86_64'' \<or> inp = ''amd64'' then Ok ''x86_64''
      else if inp = ''aarch64'' \<or> inp = ''arm64'' then Ok ''aarch64''
      else if inp = ''riscv64'' then Ok ''riscv64''
      else Err (''unknown arch '' @ [CHR 0x22] @ inp @ [CHR 0x22]))"

definition GoArch :: "string \<Rightarrow> string res" where
  "GoArch inp =
     (if inp = ''x86_64'' \<or> inp = ''amd64'' then Ok ''amd64''
      else if inp = ''aarch64'' \<or> inp = ''arm64'' then Ok ''arm64''
      else if inp = ''riscv64'' then Ok ''riscv64''
      else Err (''unknown arch '' @ [CHR 0x22] @ inp @ [CHR 0x22]))"

section \<open>Properties\<close>

lemma count_slash_split: "length (split_on (CHR ''/'') s) = Suc (count_list s (CHR ''/''))"
  by (rule length_split_on)

definition expand_name :: "string \<Rightarrow> string" where
  "expand_name ref = ReferenceExpand ref []"

lemma expand_name_alt:
  "expand_name ref =
     (if count_list ref (CHR ''/'') = 0 then ''docker.io/library/'' @ ref
      else if count_list ref (CHR ''/'') = 1
           \<and> \<not> contains_char (hd (split_on (CHR ''/'') ref)) (CHR ''.'')
           \<and> \<not> contains_char (hd (split_on (CHR ''/'') ref)) (CHR '':'')
           \<and> hd (split_on (CHR ''/'') ref) \<noteq> ''localhost''
      then ''docker.io/'' @ ref else ref)"
proof -
  have len: "length (split_on (CHR ''/'') ref) = Suc (count_list ref (CHR ''/''))"
    by (rule length_split_on)
  show ?thesis
  proof (cases "split_on (CHR ''/'') ref")
    case Nil
    then show ?thesis by simp
  next
    case (Cons p ps)
    then show ?thesis
    proof (cases ps)
      case Nil
      with Cons len show ?thesis by (simp add: expand_name_def ReferenceExpand_def)
    next
      case (Cons q qs)
      with \<open>split_on (CHR ''/'') ref = p # ps\<close> len show ?thesis
        by (cases qs) (simp_all add: expand_name_def ReferenceExpand_def)
    qed
  qed
qed

lemma count_list_append: "count_list (xs @ ys) c = count_list xs c + count_list ys c"
  by (induction xs) auto

lemma ReferenceExpand_eq:
  "ReferenceExpand ref [ReferenceWithTag] =
     (let r = expand_name ref in if contains_char r (CHR '':'') then r else r @ '':latest'')"
  by (simp add: expand_name_def ReferenceExpand_def ReferenceWithTag_def Let_def)

lemma expand_name_slashes:
  "expand_name ref = ref \<or> 2 \<le> count_list (expand_name ref) (CHR ''/'')"
  by (auto simp: expand_name_alt count_list_append)

lemma expand_name_idem: "expand_name (expand_name ref) = expand_name ref"
proof (cases "expand_name ref = ref")
  case False
  with expand_name_slashes have "2 \<le> count_list (expand_name ref) (CHR ''/'')" by blast
  then show ?thesis by (simp add: expand_name_alt [of "expand_name ref"])
qed simp

end
