(* ===== verification/Moby_Types.thy ===== *)
theory Moby_Types
  imports Util_Reference
begin

text \<open>
  The configuration data of \<^verbatim>\<open>moby/config.go\<close>: one record per struct, the fields in the order of
  the source and prefixed by the struct they belong to.  A Go pointer field is an
  \<^typ>\<open>'a option\<close>, an \<^verbatim>\<open>interface{}\<close> holding a user or group id is an \<open>iface\<close>.  The OCI runtime
  types (\<^verbatim>\<open>specs.Mount\<close> and others) are those of the runtime-spec library the file imports.
\<close>

section \<open>Types of the OCI runtime specification\<close>

record LinuxIDMapping =
  idm_ContainerID :: "32 word"
  idm_HostID :: "32 word"
  idm_Size :: "32 word"

record Mount =
  mnt_Destination :: string
  mnt_Type :: string
  mnt_Source :: string
  mnt_Options :: "string list"

record LinuxDeviceCgroup =
  ldc_Allow :: bool
  ldc_Type :: string
  ldc_Major :: "int option"
  ldc_Minor :: "int option"
  ldc_Access :: string

text \<open>
  The cgroup controllers other than the device list are copied unread; they are kept as the
  key and text of each member.
\<close>

record LinuxResources =
  lres_Devices :: "LinuxDeviceCgroup list"
  lres_Other :: "(string \<times> string) list"

section \<open>Types of the configuration\<close>

datatype iface = INil | IInt int | IStr string | IOther

record Device =
  dev_Path :: string
  dev_Type :: string
  dev_Major :: int
  dev_Minor :: int
  dev_Mode :: string

record Interface =
  ifc_Name :: string
  ifc_Add :: string
  ifc_Peer :: string
  ifc_CreateInRoot :: bool

record Namespaces =
  ns_Cgroup :: "string option"
  ns_Ipc :: "string option"
  ns_Mnt :: "string option"
  ns_Net :: "string option"
  ns_Pid :: "string option"
  ns_User :: "string option"
  ns_Uts :: "string option"

record Runtime =
  rt_Cgroups :: "string list option"
  rt_Mounts :: "Mount list option"
  rt_Mkdir :: "string list option"
  rt_Interfaces :: "Interface list option"
  rt_BindNS :: Namespaces
  rt_Namespace :: "string option"

record ImageConfig =
  ic_Capabilities :: "string list option"
  ic_CapabilitiesAdd :: "string list option"
  ic_Ambient :: "string list option"
  ic_Mounts :: "Mount list option"
  ic_Binds :: "string list option"
  ic_BindsAdd :: "string list option"
  ic_Devices :: "Device list option"
  ic_Tmpfs :: "string list option"
  ic_Command :: "string list option"
  ic_Env :: "string list option"
  ic_Cwd :: string
  ic_Net :: string
  ic_Pid :: string
  ic_Ipc :: string
  ic_Uts :: string
  ic_Userns :: string
  ic_Hostname :: string
  ic_Readonly :: "bool option"
  ic_MaskedPaths :: "string list option"
  ic_ReadonlyPaths :: "string list option"
  ic_UID :: "iface option"
  ic_GID :: "iface option"
  ic_AdditionalGids :: "iface list option"
  ic_NoNewPrivileges :: "bool option"
  ic_OOMScoreAdj :: "int option"
  ic_RootfsPropagation :: "string option"
  ic_CgroupsPath :: "string option"
  ic_Resources :: "LinuxResources option"
  ic_Sysctl :: "(string \<times> string) list option"
  ic_Rlimits :: "string list option"
  ic_UIDMappings :: "LinuxIDMapping list option"
  ic_GIDMappings :: "LinuxIDMapping list option"
  ic_Annotations :: "(string \<times> string) list option"
  ic_Runtime :: "Runtime option"
  ic_ref :: "refspec option"

record Image =
  img_Name :: string
  img_Image :: string
  img_Config :: ImageConfig

record KernelConfig =
  kc_Image :: string
  kc_Cmdline :: string
  kc_Binary :: string
  kc_Tar :: "string option"
  kc_UCode :: "string option"
  kc_ref :: "refspec option"

record File =
  f_Path :: string
  f_Directory :: bool
  f_Symlink :: string
  f_Contents :: "string option"
  f_Source :: string
  f_Metadata :: string
  f_Optional :: bool
  f_Mode :: string
  f_UID :: iface
  f_GID :: iface

record Volume =
  vol_Name :: string
  vol_Image :: string
  vol_ReadOnly :: bool
  vol_Format :: string
  vol_Platforms :: "string list"
  vol_ref :: "refspec option"

record Moby =
  mb_Kernel :: KernelConfig
  mb_Init :: "string list"
  mb_Onboot :: "Image list"
  mb_Onshutdown :: "Image list"
  mb_Services :: "Image list"
  mb_Files :: "File list"
  mb_Volumes :: "Volume list"
  mb_initRefs :: "refspec list"
  mb_vols :: "string \<Rightarrow> Volume option"

section \<open>Zero values\<close>

text \<open>The values Go gives to \<^verbatim>\<open>Runtime{}\<close>, \<^verbatim>\<open>Image{}\<close>, \<^verbatim>\<open>Moby{}\<close> and the other structs.\<close>

definition Namespaces_zero :: Namespaces where
  "Namespaces_zero =
     \<lparr>ns_Cgroup = None, ns_Ipc = None, ns_Mnt = None, ns_Net = None, ns_Pid = None,
      ns_User = None, ns_Uts = None\<rparr>"

definition Runtime_zero :: Runtime where
  "Runtime_zero =
     \<lparr>rt_Cgroups = None, rt_Mounts = None, rt_Mkdir = None, rt_Interfaces = None,
      rt_BindNS = Namespaces_zero, rt_Namespace = None\<rparr>"

definition LinuxResources_zero :: LinuxResources where
  "LinuxResources_zero = \<lparr>lres_Devices = [], lres_Other = []\<rparr>"

definition ImageConfig_zero :: ImageConfig where
  "ImageConfig_zero =
     \<lparr>ic_Capabilities = None, ic_CapabilitiesAdd = None, ic_Ambient = None, ic_Mounts = None,
      ic_Binds = None, ic_BindsAdd = None, ic_Devices = None, ic_Tmpfs = None, ic_Command = None,
      ic_Env = None, ic_Cwd = [], ic_Net = [], ic_Pid = [], ic_Ipc = [], ic_Uts = [],
      ic_Userns = [], ic_Hostname = [], ic_Readonly = None, ic_MaskedPaths = None,
      ic_ReadonlyPaths = None, ic_UID = None, ic_GID = None, ic_AdditionalGids = None,
      ic_NoNewPrivileges = None, ic_OOMScoreAdj = None, ic_RootfsPropagation = None,
      ic_CgroupsPath = None, ic_Resources = None, ic_Sysctl = None, ic_Rlimits = None,
      ic_UIDMappings = None, ic_GIDMappings = None, ic_Annotations = None, ic_Runtime = None,
      ic_ref = None\<rparr>"

definition Image_zero :: Image where
  "Image_zero = \<lparr>img_Name = [], img_Image = [], img_Config = ImageConfig_zero\<rparr>"

definition KernelConfig_zero :: KernelConfig where
  "KernelConfig_zero =
     \<lparr>kc_Image = [], kc_Cmdline = [], kc_Binary = [], kc_Tar = None, kc_UCode = None,
      kc_ref = None\<rparr>"

definition Moby_zero :: Moby where
  "Moby_zero =
     \<lparr>mb_Kernel = KernelConfig_zero, mb_Init = [], mb_Onboot = [], mb_Onshutdown = [],
      mb_Services = [], mb_Files = [], mb_Volumes = [], mb_initRefs = [], mb_vols = (\<lambda>_. None)\<rparr>"

section \<open>Volume directories\<close>

definition allVolumesBaseDir :: string where
  "allVolumesBaseDir = ''/containers/volumes''"

definition volumeBaseDir :: "string \<Rightarrow> string" where
  "volumeBaseDir name = path_join [allVolumesBaseDir, name]"

definition volumeLowerDir :: "string \<Rightarrow> string" where
  "volumeLowerDir name = path_join [volumeBaseDir name, ''lower'']"

definition volumeTmpDir :: "string \<Rightarrow> string" where
  "volumeTmpDir name = path_join [volumeBaseDir name, ''tmp'']"

definition volumeMergedDir :: "string \<Rightarrow> string" where
  "volumeMergedDir name = path_join [volumeBaseDir name, ''merged'']"

definition BaseDir :: "Volume \<Rightarrow> string" where
  "BaseDir v = volumeBaseDir (vol_Name v)"

definition LowerDir :: "Volume \<Rightarrow> string" where
  "LowerDir v = volumeLowerDir (vol_Name v)"

definition TmpDir :: "Volume \<Rightarrow> string" where
  "TmpDir v = volumeTmpDir (vol_Name v)"

definition MergedDir :: "Volume \<Rightarrow> string" where
  "MergedDir v = volumeMergedDir (vol_Name v)"

definition VolByName :: "Moby \<Rightarrow> string \<Rightarrow> Volume option" where
  "VolByName m name = mb_vols m name"

end
