(* ===== verification/Moby_Config.thy ===== *)
theory Moby_Config
  imports Moby_Types
begin

text \<open>
  Reading and combining configuration files, \<^verbatim>\<open>moby/config.go\<close>: \<^verbatim>\<open>NewConfig\<close>, \<^verbatim>\<open>AppendConfig\<close>,
  \<^verbatim>\<open>NewImage\<close>, \<^verbatim>\<open>UpdateImages\<close>, \<^verbatim>\<open>Image.Equal\<close> and the checks they run.  The YAML library, the
  JSON schema validator and the reference parser are libraries: their entry points are the
  fields of \<open>YamlLib\<close> and the argument \<open>refParse\<close>.
\<close>

section \<open>Raw documents\<close>

text \<open>
  What the YAML library decodes into an \<^verbatim>\<open>interface{}\<close>.  A mapping whose keys are all strings
  becomes a \<^verbatim>\<open>map[string]interface{}\<close> (\<open>YMapS\<close>), any other a \<^verbatim>\<open>map[interface{}]interface{}\<close>
  (\<open>YMapI\<close>).
\<close>

datatype yaml =
  YNull
| YBool bool
| YInt int
| YStr string
| YSeq "yaml list"
| YMapS "(string \<times> yaml) list"
| YMapI "(yaml \<times> yaml) list"

datatype ykind = DocumentNode | SequenceNode | MappingNode | ScalarNode | AliasNode

datatype ynode = YNode (yn_Kind: ykind) (yn_Value: string) (yn_Content: "ynode list")

record YamlLib =
  yl_decode :: "string \<Rightarrow> yaml res"
  yl_validate :: "yaml \<Rightarrow> bool res"
  yl_unmarshal_moby :: "string \<Rightarrow> Moby res"
  yl_unmarshal_image :: "string \<Rightarrow> Image res"
  yl_unmarshal_node :: "string \<Rightarrow> ynode res"
  yl_marshal_node :: "ynode \<Rightarrow> string res"
  yl_marshal_image :: "Image \<Rightarrow> string res"

lemma map_res_cong [fundef_cong]:
  "xs = ys \<Longrightarrow> (\<And>x. x \<in> set ys \<Longrightarrow> f x = g x) \<Longrightarrow> map_res f xs = map_res g ys"
  by (induction xs arbitrary: ys) auto

text \<open>The type assertion \<^verbatim>\<open>k.(string)\<close> panics on every other key type.\<close>

fun convert :: "yaml \<Rightarrow> yaml res" where
  "convert (YMapI kvs) =
     bind_res
       (map_res (\<lambda>(k, v). case k of
            YStr s \<Rightarrow> bind_res (convert v) (\<lambda>v'. Ok (s, v'))
          | _ \<Rightarrow> Panic) kvs)
       (\<lambda>m2. Ok (YMapS m2))"
| "convert (YSeq xs) = bind_res (map_res convert xs) (\<lambda>ys. Ok (YSeq ys))"
| "convert y = Ok y"

section \<open>Checks on names\<close>

definition uniqueServices :: "Moby \<Rightarrow> unit res" where
  "uniqueServices m =
     bind_res
       (loop_res (\<lambda>s names.
            if names (img_Name s) then Err (''duplicate service name: '' @ img_Name s)
            else Ok (names(img_Name s := True)))
          (mb_Services m) (\<lambda>_. False))
       (\<lambda>_. Ok ())"

definition nameRE_char :: "char \<Rightarrow> bool" where
  "nameRE_char c =
     (let n = of_char c :: nat in
      (97 \<le> n \<and> n \<le> 122) \<or> (48 \<le> n \<and> n \<le> 57) \<or> c = CHR ''_'' \<or> c = CHR ''-'')"

definition nameRE :: "string \<Rightarrow> bool" where
  "nameRE s = list_all nameRE_char s"

definition uniqueVolumes :: "Moby \<Rightarrow> Moby res" where
  "uniqueVolumes m =
     bind_res
       (loop_res (\<lambda>v vols.
            if \<not> nameRE (vol_Name v) then Err (''invalid volume name: '' @ vol_Name v)
            else if vols (vol_Name v) \<noteq> None then Err (''duplicate volume name: '' @ vol_Name v)
            else Ok (vols(vol_Name v \<mapsto> v)))
          (mb_Volumes m) Map.empty)
       (\<lambda>vols. Ok (m\<lparr>mb_vols := vols\<rparr>))"

section \<open>References\<close>

definition set_ref :: "refspec \<Rightarrow> Image \<Rightarrow> Image" where
  "set_ref r i = i\<lparr>img_Config := (img_Config i)\<lparr>ic_ref := Some r\<rparr>\<rparr>"

definition imageRef :: "(string \<Rightarrow> refspec res) \<Rightarrow> string \<Rightarrow> Image \<Rightarrow> Image res" where
  "imageRef refParse what i =
     bind_res (wrap_err (''extract '' @ what @ '' image reference: '')
                 (refParse (ReferenceExpand (img_Image i) [])))
       (\<lambda>r. Ok (set_ref r i))"

definition volumeRef :: "(string \<Rightarrow> refspec res) \<Rightarrow> Volume \<Rightarrow> Volume res" where
  "volumeRef refParse v =
     (if vol_Image v = [] then Ok v
      else bind_res (wrap_err ''extract volume image reference: ''
                       (refParse (ReferenceExpand (vol_Image v) [])))
             (\<lambda>r. Ok (v\<lparr>vol_ref := Some r\<rparr>)))"

text \<open>
  \<^verbatim>\<open>m.vols\<close> holds pointers to the elements of \<^verbatim>\<open>m.Volumes\<close>, so a reference stored in an element
  is seen through the map as well.
\<close>

definition sync_vols :: "Volume list \<Rightarrow> (string \<Rightarrow> Volume option) \<Rightarrow> string \<Rightarrow> Volume option" where
  "sync_vols vs m k =
     (case m k of
        None \<Rightarrow> None
      | Some v \<Rightarrow> (case List.find (\<lambda>w. vol_Name w = vol_Name v) vs of
                    None \<Rightarrow> Some v | Some w \<Rightarrow> Some w))"

definition extractReferences :: "(string \<Rightarrow> refspec res) \<Rightarrow> Moby \<Rightarrow> Moby res" where
  "extractReferences refParse m =
     bind_res
       (if kc_Image (mb_Kernel m) \<noteq> []
        then bind_res (wrap_err ''extract kernel image reference: ''
                         (refParse (ReferenceExpand (kc_Image (mb_Kernel m)) [])))
               (\<lambda>r. Ok ((mb_Kernel m)\<lparr>kc_ref := Some r\<rparr>))
        else Ok (mb_Kernel m))
     (\<lambda>kernel. bind_res
       (map_res (\<lambda>ii. wrap_err ''extract init image reference: ''
                         (refParse (ReferenceExpand ii []))) (mb_Init m))
     (\<lambda>inits. bind_res (map_res (imageRef refParse ''on boot'') (mb_Onboot m))
     (\<lambda>onboot. bind_res (map_res (imageRef refParse ''on shutdown'') (mb_Onshutdown m))
     (\<lambda>onshutdown. bind_res (map_res (imageRef refParse ''service'') (mb_Services m))
     (\<lambda>services. bind_res (map_res (volumeRef refParse) (mb_Volumes m))
     (\<lambda>volumes. Ok (m\<lparr>mb_Kernel := kernel, mb_initRefs := mb_initRefs m @ inits,
          mb_Onboot := onboot, mb_Onshutdown := onshutdown, mb_Services := services,
          mb_Volumes := volumes, mb_vols := sync_vols volumes (mb_vols m)\<rparr>)))))))"

definition updateImage :: "Image \<Rightarrow> Image" where
  "updateImage i =
     (case ic_ref (img_Config i) of None \<Rightarrow> i | Some r \<Rightarrow> i\<lparr>img_Image := ref_String r\<rparr>)"

text \<open>\<^verbatim>\<open>m.Init[i] = ii.String()\<close> panics when there are more references than init images.\<close>

definition UpdateImages :: "Moby \<Rightarrow> Moby res" where
  "UpdateImages m =
     (if length (mb_Init m) < length (mb_initRefs m) then Panic
      else Ok (m\<lparr>mb_Kernel := (case kc_ref (mb_Kernel m) of
                     None \<Rightarrow> mb_Kernel m
                   | Some r \<Rightarrow> (mb_Kernel m)\<lparr>kc_Image := ref_String r\<rparr>),
                 mb_Init := map ref_String (mb_initRefs m)
                            @ drop (length (mb_initRefs m)) (mb_Init m),
                 mb_Onboot := map updateImage (mb_Onboot m),
                 mb_Onshutdown := map updateImage (mb_Onshutdown m),
                 mb_Services := map updateImage (mb_Services m)\<rparr>))"

text \<open>
  \<^verbatim>\<open>Equal\<close> copies the pointers, not the images: both images keep the expanded name afterwards.
\<close>

definition Image_Equal :: "YamlLib \<Rightarrow> Image \<Rightarrow> Image \<Rightarrow> bool \<times> Image \<times> Image" where
  "Image_Equal yl i o1 =
     (let i0 = i\<lparr>img_Image := ReferenceExpand (img_Image i) []\<rparr> in
      case yl_marshal_image yl i0 of
        Ok iy \<Rightarrow>
          (let o0 = o1\<lparr>img_Image := ReferenceExpand (img_Image o1) []\<rparr> in
           case yl_marshal_image yl o0 of
             Ok oy \<Rightarrow> (iy = oy, i0, o0)
           | _ \<Rightarrow> (False, i0, o0))
      | _ \<Rightarrow> (False, i0, o1))"

section \<open>Templates\<close>

text \<open>A package finder returns the resolved text, or nothing where the source returns an error.\<close>

fun handleTemplate :: "(string \<Rightarrow> string option) \<Rightarrow> ynode \<Rightarrow> ynode" where
  "handleTemplate packageFinder (YNode k v content) =
     (case k of
        ScalarNode \<Rightarrow> YNode k (case packageFinder v of Some r \<Rightarrow> r | None \<Rightarrow> v) content
      | AliasNode \<Rightarrow> YNode k v content
      | _ \<Rightarrow> YNode k v (map (handleTemplate packageFinder) content))"

definition processTemplates ::
  "YamlLib \<Rightarrow> string \<Rightarrow> (string \<Rightarrow> string option) option \<Rightarrow> string res" where
  "processTemplates yl b packageFinder =
     (case packageFinder of
        None \<Rightarrow> Ok b
      | Some pf \<Rightarrow> bind_res (yl_unmarshal_node yl b)
                     (\<lambda>node. yl_marshal_node yl (handleTemplate pf node)))"

section \<open>Whole configurations\<close>

definition NewConfig ::
  "YamlLib \<Rightarrow> (string \<Rightarrow> refspec res) \<Rightarrow> string \<Rightarrow> (string \<Rightarrow> string option) option \<Rightarrow> Moby res"
where
  "NewConfig yl refParse config packageFinder =
     bind_res (yl_decode yl config)
     (\<lambda>rawYaml. bind_res (convert rawYaml)
     (\<lambda>rawJSON. bind_res (yl_validate yl rawJSON)
     (\<lambda>valid. if \<not> valid then Err ''invalid configuration file'' else
       bind_res (processTemplates yl config packageFinder)
     (\<lambda>config'. bind_res (yl_unmarshal_moby yl config')
     (\<lambda>m. bind_res (uniqueServices m)
     (\<lambda>_. bind_res (uniqueVolumes m)
     (\<lambda>m. extractReferences refParse m)))))))"

definition appendMoby :: "Moby \<Rightarrow> Moby \<Rightarrow> Moby" where
  "appendMoby m0 m1 =
     (let k0 = mb_Kernel m0; k1 = mb_Kernel m1
      in m0\<lparr>mb_Kernel :=
              \<lparr>kc_Image = (if kc_Image k1 \<noteq> [] then kc_Image k1 else kc_Image k0),
               kc_Cmdline = (if kc_Cmdline k1 \<noteq> [] then kc_Cmdline k1 else kc_Cmdline k0),
               kc_Binary = (if kc_Binary k1 \<noteq> [] then kc_Binary k1 else kc_Binary k0),
               kc_Tar = (if kc_Tar k1 \<noteq> None then kc_Tar k1 else kc_Tar k0),
               kc_UCode = (if kc_UCode k1 \<noteq> None then kc_UCode k1 else kc_UCode k0),
               kc_ref = (if kc_ref k1 \<noteq> None then kc_ref k1 else kc_ref k0)\<rparr>,
              mb_Init := mb_Init m0 @ mb_Init m1,
              mb_Onboot := mb_Onboot m0 @ mb_Onboot m1,
              mb_Onshutdown := mb_Onshutdown m0 @ mb_Onshutdown m1,
              mb_Services := mb_Services m0 @ mb_Services m1,
              mb_Files := mb_Files m0 @ mb_Files m1,
              mb_initRefs := mb_initRefs m0 @ mb_initRefs m1,
              mb_Volumes := mb_Volumes m0 @ mb_Volumes m1,
              mb_vols := mb_vols m1\<rparr>)"

definition AppendConfig :: "Moby \<Rightarrow> Moby \<Rightarrow> Moby res" where
  "AppendConfig m0 m1 =
     (let moby = appendMoby m0 m1 in bind_res (uniqueServices moby) (\<lambda>_. Ok moby))"

text \<open>The label of an image must be an object; a name and an image are added to pass validation.\<close>

definition NewImage :: "YamlLib \<Rightarrow> string \<Rightarrow> Image res" where
  "NewImage yl config =
     bind_res (yl_decode yl config)
     (\<lambda>rawYaml. bind_res (convert rawYaml)
     (\<lambda>rawJSON. case rawJSON of
        YMapS obj \<Rightarrow>
          (let obj' = AList.update ''image'' (YStr ''dummyimage'')
                        (AList.update ''name'' (YStr ''dummyname'') obj)
           in bind_res (yl_validate yl (YMapS [(''services'', YSeq [YMapS obj'])]))
           (\<lambda>valid. if \<not> valid then Err ''invalid configuration label'' else
             bind_res (yl_unmarshal_image yl config)
           (\<lambda>mi. if img_Name mi \<noteq> [] then Err ''name cannot be set in metadata label''
                  else if img_Image mi \<noteq> [] then Err ''image cannot be set in metadata label''
                  else Ok mi)))
      | _ \<Rightarrow> Err (''JSON is an array not an object: '' @ config)))"

section \<open>Lemmas\<close>

lemma services_loop:
  "loop_res (\<lambda>s names.
       if names (img_Name s) then Err (''duplicate service name: '' @ img_Name s)
       else Ok (names(img_Name s := True))) xs names = Ok names' \<longleftrightarrow>
     distinct (map img_Name xs) \<and> (\<forall>x\<in>set xs. \<not> names (img_Name x))
     \<and> names' = (\<lambda>n. names n \<or> n \<in> img_Name ` set xs)"
proof (induction xs arbitrary: names)
  case Nil
  then show ?case by auto
next
  case (Cons x xs)
  show ?case
  proof (cases "names (img_Name x)")
    case True
    then show ?thesis by simp
  next
    case False
    have "(\<lambda>n. (names(img_Name x := True)) n \<or> n \<in> img_Name ` set xs)
        = (\<lambda>n. names n \<or> n \<in> img_Name ` set (x # xs))" by auto
    with False show ?thesis by (auto simp: Cons.IH image_iff)
  qed
qed

lemma uniqueServices_iff [simp]:
  "uniqueServices m = Ok u \<longleftrightarrow> distinct (map img_Name (mb_Services m))"
  by (simp add: uniqueServices_def services_loop)

lemma volumes_loop:
  "loop_res (\<lambda>v vols.
       if \<not> nameRE (vol_Name v) then Err (''invalid volume name: '' @ vol_Name v)
       else if vols (vol_Name v) \<noteq> None then Err (''duplicate volume name: '' @ vol_Name v)
       else Ok (vols(vol_Name v \<mapsto> v))) xs vols = Ok vols' \<longleftrightarrow>
     distinct (map vol_Name xs) \<and> (\<forall>x\<in>set xs. nameRE (vol_Name x) \<and> vols (vol_Name x) = None)
     \<and> vols' = vols ++ map_of (map (\<lambda>v. (vol_Name v, v)) xs)"
proof (induction xs arbitrary: vols)
  case Nil
  then show ?case by auto
next
  case (Cons x xs)
  show ?case
  proof (cases "nameRE (vol_Name x) \<and> vols (vol_Name x) = None")
    case False
    then show ?thesis by auto
  next
    case True
    show ?thesis
    proof (cases "vol_Name x \<in> vol_Name ` set xs")
      case dup: True
      with True show ?thesis by (auto simp: Cons.IH)
    next
      case new: False
      have maps: "vols(vol_Name x \<mapsto> x) ++ map_of (map (\<lambda>v. (vol_Name v, v)) xs)
          = vols ++ map_of (map (\<lambda>v. (vol_Name v, v)) (x # xs))"
        using new by (auto simp: fun_eq_iff map_add_def map_of_eq_None_iff image_image
            split: option.splits dest!: map_of_SomeD)
      have "(\<forall>y\<in>set xs. nameRE (vol_Name y) \<and> (vols(vol_Name x \<mapsto> x)) (vol_Name y) = None)
          \<longleftrightarrow> (\<forall>y\<in>set xs. nameRE (vol_Name y) \<and> vols (vol_Name y) = None)"
        using new by (auto simp: image_iff)
      with True new show ?thesis
        by (simp add: Cons.IH maps del: fun_upd_apply map_of.simps list.map)
          (auto simp: image_iff fun_eq_iff map_add_def)
    qed
  qed
qed

lemma uniqueVolumes_iff:
  "uniqueVolumes m = Ok m' \<longleftrightarrow>
     distinct (map vol_Name (mb_Volumes m)) \<and> (\<forall>v\<in>set (mb_Volumes m). nameRE (vol_Name v))
     \<and> m' = m\<lparr>mb_vols := map_of (map (\<lambda>v. (vol_Name v, v)) (mb_Volumes m))\<rparr>"
  by (auto simp: uniqueVolumes_def volumes_loop)

lemma imageRef_Ok:
  "imageRef refParse what i = Ok i' \<longleftrightarrow>
     (\<exists>r. refParse (expand_name (img_Image i)) = Ok r \<and> i' = set_ref r i)"
  by (auto simp: imageRef_def expand_name_def)

lemma volumeRef_Ok:
  "volumeRef refParse v = Ok v' \<longleftrightarrow>
     (if vol_Image v = [] then v' = v
      else \<exists>r. refParse (expand_name (vol_Image v)) = Ok r \<and> v' = v\<lparr>vol_ref := Some r\<rparr>)"
  by (auto simp: volumeRef_def expand_name_def)

lemma set_ref_simps [simp]:
  "img_Name (set_ref r i) = img_Name i" "img_Image (set_ref r i) = img_Image i"
  "ic_ref (img_Config (set_ref r i)) = Some r"
  by (simp_all add: set_ref_def)

definition has_ref :: "(string \<Rightarrow> refspec res) \<Rightarrow> Image \<Rightarrow> bool" where
  "has_ref refParse i \<longleftrightarrow>
     (\<exists>r. ic_ref (img_Config i) = Some r \<and> refParse (expand_name (img_Image i)) = Ok r)"

lemma map_res_imageRef:
  assumes "map_res (imageRef refParse what) xs = Ok ys"
  shows "map img_Name ys = map img_Name xs" and "list_all (has_ref refParse) ys"
  using assms
  by (induction xs arbitrary: ys) (auto simp: imageRef_Ok has_ref_def)

lemma map_res_volumeRef:
  assumes "map_res (volumeRef refParse) xs = Ok ys"
  shows "map vol_Name ys = map vol_Name xs" and "map vol_ReadOnly ys = map vol_ReadOnly xs"
  using assms
  by (induction xs arbitrary: ys) (auto simp: volumeRef_Ok split: if_splits)

text \<open>What a configuration that was read successfully satisfies.\<close>

definition wf_Moby :: "(string \<Rightarrow> refspec res) \<Rightarrow> Moby \<Rightarrow> bool" where
  "wf_Moby refParse m \<longleftrightarrow>
     distinct (map img_Name (mb_Services m))
     \<and> distinct (map vol_Name (mb_Volumes m)) \<and> list_all (\<lambda>v. nameRE (vol_Name v)) (mb_Volumes m)
     \<and> mb_vols m = map_of (map (\<lambda>v. (vol_Name v, v)) (mb_Volumes m))
     \<and> list_all (has_ref refParse) (mb_Onboot m @ mb_Onshutdown m @ mb_Services m)"

lemma sync_vols_map_of:
  assumes "distinct (map vol_Name vs)" and "map vol_Name ws = map vol_Name vs"
  shows "sync_vols ws (map_of (map (\<lambda>v. (vol_Name v, v)) vs))
       = map_of (map (\<lambda>v. (vol_Name v, v)) ws)"
proof
  fix k
  have find: "List.find (\<lambda>w. vol_Name w = k) ws = map_of (map (\<lambda>v. (vol_Name v, v)) ws) k"
    by (induction ws) auto
  show "sync_vols ws (map_of (map (\<lambda>v. (vol_Name v, v)) vs)) k
      = map_of (map (\<lambda>v. (vol_Name v, v)) ws) k"
  proof (cases "map_of (map (\<lambda>v. (vol_Name v, v)) vs) k")
    case None
    then have "k \<notin> set (map vol_Name vs)" by (simp add: map_of_eq_None_iff image_image)
    then have "k \<notin> vol_Name ` set ws" using assms(2) by (metis set_map)
    with None show ?thesis
      by (simp add: sync_vols_def map_of_eq_None_iff [THEN iffD2] image_image)
  next
    case (Some v)
    then have v: "vol_Name v = k" "v \<in> set vs" by (auto dest!: map_of_SomeD)
    then have "k \<in> vol_Name ` set ws" using assms(2) by (metis image_eqI set_map)
    then have "map_of (map (\<lambda>v. (vol_Name v, v)) ws) k \<noteq> None"
      by (simp add: map_of_eq_None_iff image_image)
    with Some v find show ?thesis by (auto simp: sync_vols_def)
  qed
qed

lemma extractReferences_wf:
  assumes ok: "extractReferences refParse m = Ok m'"
    and "distinct (map img_Name (mb_Services m))" "distinct (map vol_Name (mb_Volumes m))"
    and "\<forall>v\<in>set (mb_Volumes m). nameRE (vol_Name v)"
    and "mb_vols m = map_of (map (\<lambda>v. (vol_Name v, v)) (mb_Volumes m))"
  shows "wf_Moby refParse m'"
proof -
  from ok obtain kernel inits onboot onshutdown services volumes where
    parts: "map_res (imageRef refParse ''on boot'') (mb_Onboot m) = Ok onboot"
      "map_res (imageRef refParse ''on shutdown'') (mb_Onshutdown m) = Ok onshutdown"
      "map_res (imageRef refParse ''service'') (mb_Services m) = Ok services"
      "map_res (volumeRef refParse) (mb_Volumes m) = Ok volumes"
    and m': "m' = m\<lparr>mb_Kernel := kernel, mb_initRefs := mb_initRefs m @ inits,
          mb_Onboot := onboot, mb_Onshutdown := onshutdown, mb_Services := services,
          mb_Volumes := volumes, mb_vols := sync_vols volumes (mb_vols m)\<rparr>"
    unfolding extractReferences_def by auto
  have "list_all (\<lambda>v. nameRE (vol_Name v)) volumes"
    using map_res_volumeRef(1) [OF parts(4)] assms(4)
    by (metis (no_types, lifting) list_all_iff image_eqI image_iff set_map)
  with map_res_imageRef [OF parts(1)] map_res_imageRef [OF parts(2)]
    map_res_imageRef [OF parts(3)] map_res_volumeRef [OF parts(4)] assms sync_vols_map_of
  show ?thesis by (simp add: wf_Moby_def m')
qed

text \<open>A document converts when no general mapping that \<^verbatim>\<open>convert\<close> reaches has a key of another type.\<close>

fun json_keys :: "yaml \<Rightarrow> bool" where
  "json_keys (YMapI kvs) = list_all (\<lambda>(k, v). (\<exists>s. k = YStr s) \<and> json_keys v) kvs"
| "json_keys (YSeq xs) = list_all json_keys xs"
| "json_keys y = True"

lemma map_res_no_Err: "(\<And>x. x \<in> set xs \<Longrightarrow> f x \<noteq> Err e) \<Longrightarrow> map_res f xs \<noteq> Err e"
  by (induction xs) (auto simp: bind_res_Err_iff)

lemma map_res_is_ok: "is_ok (map_res f xs) \<longleftrightarrow> list_all (\<lambda>x. is_ok (f x)) xs"
proof (induction xs)
  case (Cons x xs)
  then show ?case by (cases "f x"; cases "map_res f xs") auto
qed simp

lemma convert_is_ok: "is_ok (convert y) \<longleftrightarrow> json_keys y"
proof (induction y rule: convert.induct)
  case (1 kvs)
  have "is_ok (case k of YStr s \<Rightarrow> bind_res (convert v) (\<lambda>v'. Ok (s, v')) | _ \<Rightarrow> Panic)
      \<longleftrightarrow> (\<exists>s. k = YStr s) \<and> json_keys v" if "(k, v) \<in> set kvs" for k v
    using 1 [OF that refl] by (cases k) auto
  then show ?case
    by (auto simp: map_res_is_ok list_all_iff split: prod.splits)
next
  case (2 xs)
  then show ?case by (simp add: map_res_is_ok list_all_iff)
qed auto

lemma convert_no_Err: "convert y \<noteq> Err e"
proof (induction y rule: convert.induct)
  case (1 kvs)
  have "(case k of YStr s \<Rightarrow> bind_res (convert v) (\<lambda>v'. Ok (s, v')) | _ \<Rightarrow> Panic) \<noteq> Err e"
    if "(k, v) \<in> set kvs" for k v
    using 1 [OF that refl] by (cases k) (auto simp: bind_res_Err_iff)
  then have "map_res (\<lambda>(k, v). case k of
      YStr s \<Rightarrow> bind_res (convert v) (\<lambda>v'. Ok (s, v')) | _ \<Rightarrow> Panic) kvs \<noteq> Err e"
    by (intro map_res_no_Err) auto
  then show ?case by (simp add: bind_res_Err_iff)
next
  case (2 xs)
  then have "map_res convert xs \<noteq> Err e" by (intro map_res_no_Err) auto
  then show ?case by (simp add: bind_res_Err_iff)
qed auto

lemma map_res_length_refs:
  assumes "extractReferences refParse m = Ok m'" and "mb_initRefs m = []"
  shows "length (mb_initRefs m') = length (mb_Init m')"
  using assms unfolding extractReferences_def
  by (auto dest!: map_res_length)

lemma updateImage_simps [simp]:
  "img_Name (updateImage i) = img_Name i" "img_Config (updateImage i) = img_Config i"
  by (simp_all add: updateImage_def split: option.splits)

lemma updateImage_all:
  "list_all (has_ref refParse) xs \<Longrightarrow>
     list_all2 (\<lambda>i i'. \<exists>r. refParse (expand_name (img_Image i)) = Ok r \<and>
       img_Image i' = ref_String r) xs (map updateImage xs)"
  by (induction xs) (auto simp: has_ref_def updateImage_def)

lemma AppendConfig_Ok_iff:
  "AppendConfig m0 m1 = Ok m \<longleftrightarrow>
     distinct (map img_Name (mb_Services m0 @ mb_Services m1)) \<and> m = appendMoby m0 m1"
  by (auto simp: AppendConfig_def appendMoby_def Let_def)

lemma appendMoby_Services [simp]:
  "mb_Services (appendMoby m0 m1) = mb_Services m0 @ mb_Services m1"
  by (simp add: appendMoby_def Let_def)

lemma NewConfig_Ok:
  assumes "NewConfig yl refParse config packageFinder = Ok m"
  obtains c m0 where "yl_unmarshal_moby yl c = Ok m0" "distinct (map img_Name (mb_Services m0))"
    "distinct (map vol_Name (mb_Volumes m0))" "\<forall>v\<in>set (mb_Volumes m0). nameRE (vol_Name v)"
    "extractReferences refParse
       (m0\<lparr>mb_vols := map_of (map (\<lambda>v. (vol_Name v, v)) (mb_Volumes m0))\<rparr>) = Ok m"
  using assms by (auto simp: NewConfig_def uniqueVolumes_iff split: if_splits)

lemma NewConfig_wf_Moby: "NewConfig yl refParse config packageFinder = Ok m \<Longrightarrow> wf_Moby refParse m"
  by (elim NewConfig_Ok extractReferences_wf) simp_all

section \<open>An example configuration\<close>

definition demoMoby :: Moby where
  "demoMoby = Moby_zero
     \<lparr>mb_Init := [''linuxkit/init:v1''],
      mb_Services := [Image_zero\<lparr>img_Name := ''dhcpcd'', img_Image := ''linuxkit/dhcpcd''\<rparr>,
                      Image_zero\<lparr>img_Name := ''sshd'', img_Image := ''linuxkit/sshd''\<rparr>],
      mb_Volumes := [\<lparr>vol_Name = ''data'', vol_Image = [], vol_ReadOnly = True, vol_Format = [],
                      vol_Platforms = [], vol_ref = None\<rparr>]\<rparr>"

definition demoLib :: YamlLib where
  "demoLib =
     \<lparr>yl_decode = (\<lambda>s. Ok (YMapI [(YStr ''services'', YSeq [])])), yl_validate = (\<lambda>y. Ok True),
      yl_unmarshal_moby = (\<lambda>s. Ok demoMoby), yl_unmarshal_image = (\<lambda>s. Ok Image_zero),
      yl_unmarshal_node = (\<lambda>s. Ok (YNode ScalarNode s [])), yl_marshal_node = (\<lambda>n. Ok (yn_Value n)),
      yl_marshal_image = (\<lambda>i. Ok (img_Name i))\<rparr>"

definition demoRef :: "string \<Rightarrow> refspec res" where
  "demoRef s = Ok \<lparr>Locator = s, Object = []\<rparr>"

lemma demoRef_no_fail: "demoRef s = Ok \<lparr>Locator = s, Object = []\<rparr>"
  by (simp add: demoRef_def)

lemma demo_NewConfig: "is_ok (NewConfig demoLib demoRef [] None)"
proof -
  have vols: "uniqueVolumes demoMoby =
      Ok (demoMoby\<lparr>mb_vols := map_of (map (\<lambda>v. (vol_Name v, v)) (mb_Volumes demoMoby))\<rparr>)"
    unfolding uniqueVolumes_iff
    by (simp add: demoMoby_def nameRE_def nameRE_char_def)
  have servs: "uniqueServices demoMoby = Ok ()"
    by (simp add: demoMoby_def)
  have refs: "map_res (imageRef demoRef w) xs =
      Ok (map (\<lambda>i. set_ref \<lparr>Locator = expand_name (img_Image i), Object = []\<rparr> i) xs)" for w xs
    by (rule map_res_pure) (simp add: imageRef_def demoRef_def expand_name_def)
  have "NewConfig demoLib demoRef [] None = extractReferences demoRef
      (demoMoby\<lparr>mb_vols := map_of (map (\<lambda>v. (vol_Name v, v)) (mb_Volumes demoMoby))\<rparr>)"
    by (simp add: NewConfig_def demoLib_def processTemplates_def servs vols)
  moreover have "is_ok (extractReferences demoRef m)"
    if "kc_Image (mb_Kernel m) = []" "mb_Init m = [a]" "mb_Volumes m = [v]" "vol_Image v = []"
    for m a v
    using that by (simp add: extractReferences_def refs demoRef_def volumeRef_def)
  ultimately show ?thesis
    by (simp add: demoMoby_def Moby_zero_def KernelConfig_zero_def)
qed

section \<open>Properties\<close>

text \<open>
  C18. A configuration that is read successfully is well formed: service names are distinct,
  volume names are distinct and made of the permitted characters, the volume index maps each
  name to its volume, and every image of the \<^verbatim>\<open>onboot\<close>, \<^verbatim>\<open>onshutdown\<close> and \<^verbatim>\<open>services\<close> sections
  carries the parsed reference of its expanded name.
\<close>

theorem NewConfig_wf:
  assumes "NewConfig yl refParse config packageFinder = Ok m"
  shows "wf_Moby refParse m"
  using assms by (rule NewConfig_wf_Moby)

theorem NewConfig_wf_witness:
  "\<exists>m. NewConfig demoLib demoRef [] None = Ok m \<and> wf_Moby demoRef m"
  using demo_NewConfig NewConfig_wf unfolding is_ok_iff by blast

text \<open>
  C27. After reading a configuration, \<^verbatim>\<open>UpdateImages\<close> does not panic (decoding leaves the
  unexported list of init references empty); it replaces each init image and each container
  image by the printed form of its own parsed reference and changes no name, so the result
  has the same services.
\<close>

theorem NewConfig_UpdateImages:
  assumes "NewConfig yl refParse config packageFinder = Ok m"
    and "\<And>c m. yl_unmarshal_moby yl c = Ok m \<Longrightarrow> mb_initRefs m = []"
  shows "\<exists>m'. UpdateImages m = Ok m' \<and> mb_Init m' = map ref_String (mb_initRefs m) \<and>
    length (mb_Init m') = length (mb_Init m) \<and>
    map img_Name (mb_Services m') = map img_Name (mb_Services m) \<and>
    list_all2 (\<lambda>i i'. \<exists>r. refParse (expand_name (img_Image i)) = Ok r \<and>
        img_Image i' = ref_String r)
      (mb_Onboot m @ mb_Onshutdown m @ mb_Services m)
      (mb_Onboot m' @ mb_Onshutdown m' @ mb_Services m')"
proof -
  from assms(1) have len: "length (mb_initRefs m) = length (mb_Init m)"
    by (elim NewConfig_Ok map_res_length_refs) (simp add: assms(2))
  from NewConfig_wf_Moby [OF assms(1)] have "list_all (has_ref refParse) (mb_Onboot m @ mb_Onshutdown m @ mb_Services m)"
    by (simp add: wf_Moby_def)
  from updateImage_all [OF this] len show ?thesis by (simp add: UpdateImages_def)
qed

theorem NewConfig_UpdateImages_witness:
  "\<exists>m m'. NewConfig demoLib demoRef [] None = Ok m \<and> UpdateImages m = Ok m'"
proof -
  obtain m where m: "NewConfig demoLib demoRef [] None = Ok m"
    using demo_NewConfig unfolding is_ok_iff by blast
  have "\<exists>m'. UpdateImages m = Ok m' \<and> mb_Init m' = map ref_String (mb_initRefs m) \<and>
    length (mb_Init m') = length (mb_Init m) \<and>
    map img_Name (mb_Services m') = map img_Name (mb_Services m) \<and>
    list_all2 (\<lambda>i i'. \<exists>r. demoRef (expand_name (img_Image i)) = Ok r \<and> img_Image i' = ref_String r)
      (mb_Onboot m @ mb_Onshutdown m @ mb_Services m)
      (mb_Onboot m' @ mb_Onshutdown m' @ mb_Services m')"
    by (rule NewConfig_UpdateImages [OF m]) (auto simp: demoLib_def demoMoby_def Moby_zero_def)
  with m show ?thesis by blast
qed

text \<open>
  The raw document is converted exactly when no general mapping it reaches has a key that
  is not a string; the conversion reports no error, so on every other document it panics.
\<close>

theorem convert_ok_or_panic:
  "(is_ok (convert y) \<longleftrightarrow> json_keys y) \<and> (\<not> json_keys y \<longleftrightarrow> convert y = Panic)"
  using convert_is_ok [of y] convert_no_Err [of y] by (cases "convert y") auto

text \<open>Appending keeps only the volume index of the second configuration.\<close>

lemma AppendConfig_forgets_volumes:
  "AppendConfig m0 m1 = Ok m \<Longrightarrow> VolByName m name = VolByName m1 name"
  by (auto simp: AppendConfig_Ok_iff appendMoby_def Let_def VolByName_def)

end
