(* ===== verification/Moby_Assign.thy ===== *)
theory Moby_Assign
  imports Moby_Config
begin

text \<open>
  The override helpers of \<^verbatim>\<open>moby/config.go\<close>.  A value comes from the YAML file if it is set
  there, otherwise from the image label, otherwise from a default.  The locale \<open>override\<close>
  states that contract once; every \<^verbatim>\<open>assign...\<close> function is an interpretation of it.
\<close>

section \<open>Definitions\<close>

definition assignBool :: "bool option \<Rightarrow> bool option \<Rightarrow> bool" where
  "assignBool v1 v2 =
     (case v2 of Some b \<Rightarrow> b | None \<Rightarrow> (case v1 of Some a \<Rightarrow> a | None \<Rightarrow> False))"

definition assignIntPtr :: "int option \<Rightarrow> int option \<Rightarrow> int option" where
  "assignIntPtr v1 v2 =
     (if v2 \<noteq> None then v2 else if v1 \<noteq> None then v1 else None)"

definition assignInterface :: "iface option \<Rightarrow> iface option \<Rightarrow> iface" where
  "assignInterface v1 v2 =
     (case v2 of Some b \<Rightarrow> b | None \<Rightarrow> (case v1 of Some a \<Rightarrow> a | None \<Rightarrow> IInt 0))"

definition assignInterfaceArray :: "iface list option \<Rightarrow> iface list option \<Rightarrow> iface list" where
  "assignInterfaceArray v1 v2 =
     (case v2 of Some b \<Rightarrow> b | None \<Rightarrow> (case v1 of Some a \<Rightarrow> a | None \<Rightarrow> []))"

definition assignRuntimeInterfaceArray ::
  "Interface list option \<Rightarrow> Interface list option \<Rightarrow> Interface list" where
  "assignRuntimeInterfaceArray v1 v2 =
     (case v2 of Some b \<Rightarrow> b | None \<Rightarrow> (case v1 of Some a \<Rightarrow> a | None \<Rightarrow> []))"

definition assignStrings :: "string list option \<Rightarrow> string list option \<Rightarrow> string list" where
  "assignStrings v1 v2 =
     (case v2 of Some b \<Rightarrow> b | None \<Rightarrow> (case v1 of Some a \<Rightarrow> a | None \<Rightarrow> []))"

definition assignStrings3 ::
  "string list \<Rightarrow> string list option \<Rightarrow> string list option \<Rightarrow> string list" where
  "assignStrings3 v1 v2 v3 =
     (case v3 of Some c \<Rightarrow> c | None \<Rightarrow> (case v2 of Some b \<Rightarrow> b | None \<Rightarrow> v1))"

text \<open>
  \<^verbatim>\<open>mergeStrings\<close> looks each element up in the map \<^verbatim>\<open>m\<close> and skips the ones it finds; nothing is
  ever stored in \<^verbatim>\<open>m\<close>.
\<close>

fun mergeLoop :: "(string \<Rightarrow> bool) \<Rightarrow> string list \<Rightarrow> string list \<Rightarrow> string list" where
  "mergeLoop m ret [] = ret"
| "mergeLoop m ret (s # ss) = (if m s then mergeLoop m ret ss else mergeLoop m (ret @ [s]) ss)"

definition mergeStrings ::
  "string list option \<Rightarrow> string list option \<Rightarrow> string list option" where
  "mergeStrings v1 v2 =
     (case (v1, v2) of
        (None, None) \<Rightarrow> Some []
      | (_, None) \<Rightarrow> v1
      | (None, _) \<Rightarrow> v2
      | (Some a, Some b) \<Rightarrow> (let m = (\<lambda>_. False) in Some (mergeLoop m (mergeLoop m [] a) b)))"

definition assignMaps ::
  "(string \<times> string) list option \<Rightarrow> (string \<times> string) list option \<Rightarrow> (string \<times> string) list"
where
  "assignMaps v1 v2 =
     (case v2 of Some b \<Rightarrow> b | None \<Rightarrow> (case v1 of Some a \<Rightarrow> a | None \<Rightarrow> []))"

definition assignBinds :: "Mount list option \<Rightarrow> Mount list option \<Rightarrow> Mount list" where
  "assignBinds v1 v2 =
     (case v2 of Some b \<Rightarrow> b | None \<Rightarrow> (case v1 of Some a \<Rightarrow> a | None \<Rightarrow> []))"

definition assignString :: "string option \<Rightarrow> string option \<Rightarrow> string" where
  "assignString v1 v2 =
     (case v2 of Some b \<Rightarrow> b | None \<Rightarrow> (case v1 of Some a \<Rightarrow> a | None \<Rightarrow> []))"

definition assignStringPtr :: "string option \<Rightarrow> string option \<Rightarrow> string option" where
  "assignStringPtr v1 v2 =
     (if v2 \<noteq> None then v2 else if v1 \<noteq> None then v1 else Some [])"

definition assignMappings ::
  "LinuxIDMapping list option \<Rightarrow> LinuxIDMapping list option \<Rightarrow> LinuxIDMapping list" where
  "assignMappings v1 v2 =
     (case v2 of Some b \<Rightarrow> b | None \<Rightarrow> (case v1 of Some a \<Rightarrow> a | None \<Rightarrow> []))"

definition assignResources ::
  "LinuxResources option \<Rightarrow> LinuxResources option \<Rightarrow> LinuxResources" where
  "assignResources v1 v2 =
     (case v2 of Some b \<Rightarrow> b
      | None \<Rightarrow> (case v1 of Some a \<Rightarrow> a | None \<Rightarrow> LinuxResources_zero))"

definition assignDevices :: "Device list option \<Rightarrow> Device list option \<Rightarrow> Device list" where
  "assignDevices v1 v2 =
     (case v2 of Some b \<Rightarrow> b | None \<Rightarrow> (case v1 of Some a \<Rightarrow> a | None \<Rightarrow> []))"

definition assignRuntime :: "Runtime option \<Rightarrow> Runtime option \<Rightarrow> Runtime" where
  "assignRuntime p1 p2 =
     (let v1 = (case p1 of None \<Rightarrow> Runtime_zero | Some r \<Rightarrow> r);
          v2 = (case p2 of None \<Rightarrow> Runtime_zero | Some r \<Rightarrow> r);
          n1 = rt_BindNS v1; n2 = rt_BindNS v2
      in \<lparr>rt_Cgroups = Some (assignStrings (rt_Cgroups v1) (rt_Cgroups v2)),
          rt_Mounts = Some (assignBinds (rt_Mounts v1) (rt_Mounts v2)),
          rt_Mkdir = Some (assignStrings (rt_Mkdir v1) (rt_Mkdir v2)),
          rt_Interfaces = Some (assignRuntimeInterfaceArray (rt_Interfaces v1) (rt_Interfaces v2)),
          rt_BindNS =
            \<lparr>ns_Cgroup = assignStringPtr (ns_Cgroup n1) (ns_Cgroup n2),
             ns_Ipc = assignStringPtr (ns_Ipc n1) (ns_Ipc n2),
             ns_Mnt = assignStringPtr (ns_Mnt n1) (ns_Mnt n2),
             ns_Net = assignStringPtr (ns_Net n1) (ns_Net n2),
             ns_Pid = assignStringPtr (ns_Pid n1) (ns_Pid n2),
             ns_User = assignStringPtr (ns_User n1) (ns_User n2),
             ns_Uts = assignStringPtr (ns_Uts n1) (ns_Uts n2)\<rparr>,
          rt_Namespace = Some (assignString (rt_Namespace v1) (rt_Namespace v2))\<rparr>)"

definition assignStringEmpty :: "string \<Rightarrow> string \<Rightarrow> string" where
  "assignStringEmpty v1 v2 = (if v2 \<noteq> [] then v2 else v1)"

definition assignStringEmpty3 :: "string \<Rightarrow> string \<Rightarrow> string \<Rightarrow> string" where
  "assignStringEmpty3 v1 v2 v3 = (if v3 \<noteq> [] then v3 else if v2 \<noteq> [] then v2 else v1)"

definition assignStringEmpty4 :: "string \<Rightarrow> string \<Rightarrow> string \<Rightarrow> string \<Rightarrow> string" where
  "assignStringEmpty4 v1 v2 v3 v4 =
     (if v4 \<noteq> [] then v4 else if v3 \<noteq> [] then v3 else if v2 \<noteq> [] then v2 else v1)"

section \<open>The override contract\<close>

locale override =
  fixes assign :: "'a option \<Rightarrow> 'a option \<Rightarrow> 'b" and inj :: "'a \<Rightarrow> 'b" and dflt :: 'b
  assumes second: "assign v1 (Some x) = inj x"
    and first: "assign (Some x) None = inj x"
    and neither: "assign None None = dflt"
begin

text \<open>The label is irrelevant to a value the YAML file sets.\<close>

lemma label_irrelevant: "v2 \<noteq> None \<Longrightarrow> assign v1 v2 = assign v1' v2"
  by (auto simp: second)

text \<open>Overriding by a set value twice is overriding once.\<close>

lemma absorb: "v2 \<noteq> None \<Longrightarrow> assign v1 v2 = assign v2 None"
  by (auto simp: second first)

lemma result_cases:
  obtains (yaml) x where "v2 = Some x" "assign v1 v2 = inj x"
  | (label) x where "v2 = None" "v1 = Some x" "assign v1 v2 = inj x"
  | (default) "v2 = None" "v1 = None" "assign v1 v2 = dflt"
  using first second neither by (cases v1; cases v2) auto

end

interpretation ovBool: override assignBool id False
  by unfold_locales (simp_all add: assignBool_def)

interpretation ovIntPtr: override assignIntPtr Some None
  by unfold_locales (simp_all add: assignIntPtr_def)

interpretation ovInterface: override assignInterface id "IInt 0"
  by unfold_locales (simp_all add: assignInterface_def)

interpretation ovInterfaceArray: override assignInterfaceArray id "[]"
  by unfold_locales (simp_all add: assignInterfaceArray_def)

interpretation ovRuntimeInterfaceArray: override assignRuntimeInterfaceArray id "[]"
  by unfold_locales (simp_all add: assignRuntimeInterfaceArray_def)

interpretation ovStrings: override assignStrings id "[]"
  by unfold_locales (simp_all add: assignStrings_def)

interpretation ovMaps: override assignMaps id "[]"
  by unfold_locales (simp_all add: assignMaps_def)

interpretation ovBinds: override assignBinds id "[]"
  by unfold_locales (simp_all add: assignBinds_def)

interpretation ovString: override assignString id "[]"
  by unfold_locales (simp_all add: assignString_def)

interpretation ovStringPtr: override assignStringPtr Some "Some []"
  by unfold_locales (simp_all add: assignStringPtr_def)

interpretation ovMappings: override assignMappings id "[]"
  by unfold_locales (simp_all add: assignMappings_def)

interpretation ovResources: override assignResources id LinuxResources_zero
  by unfold_locales (simp_all add: assignResources_def)

interpretation ovDevices: override assignDevices id "[]"
  by unfold_locales (simp_all add: assignDevices_def)

lemmas assign_second =
  ovBool.second ovIntPtr.second ovInterface.second ovInterfaceArray.second
  ovRuntimeInterfaceArray.second ovStrings.second ovMaps.second ovBinds.second ovString.second
  ovStringPtr.second ovMappings.second ovResources.second ovDevices.second

lemmas assign_neither =
  ovBool.neither ovIntPtr.neither ovInterface.neither ovInterfaceArray.neither
  ovRuntimeInterfaceArray.neither ovStrings.neither ovMaps.neither ovBinds.neither
  ovString.neither ovStringPtr.neither ovMappings.neither ovResources.neither ovDevices.neither

section \<open>Lemmas\<close>

lemma mergeLoop_append: "mergeLoop (\<lambda>_. False) ret ss = ret @ ss"
  by (induction ss arbitrary: ret) auto

lemma mergeStrings_both: "mergeStrings (Some a) (Some b) = Some (a @ b)"
  by (simp add: mergeStrings_def mergeLoop_append)

lemma mergeStrings_Some: "\<exists>xs. mergeStrings v1 v2 = Some xs"
  by (cases v1; cases v2) (simp_all add: mergeStrings_def Let_def)

lemma assignRuntime_absorb: "assignRuntime v1 (Some (assignRuntime v0 v2)) = assignRuntime v0 v2"
proof -
  have ptr: "\<exists>x. assignStringPtr a b = Some x" for a b
    by (cases a; cases b) (simp_all add: assignStringPtr_def)
  have "assignStringPtr c (assignStringPtr a b) = assignStringPtr a b" for a b c
    using ptr [of a b] by (auto simp: ovStringPtr.second)
  then show ?thesis
    by (simp add: assignRuntime_def Let_def assign_second)
qed

end
