(* ===== verification/Moby_OCI.thy ===== *)
theory Moby_OCI
  imports Moby_Assign
begin

text \<open>
  \<^verbatim>\<open>ConfigToOCI\<close> of \<^verbatim>\<open>moby/config.go\<close>: from an image section of the configuration, the image's
  own metadata and the id table to an OCI runtime specification.  The function is one long
  body in the source; here each stretch of it is a definition (mounts, namespaces,
  capabilities, limits, ids, devices) and \<open>ConfigToOCI\<close> composes them in the same order.

  A Go map that the source iterates over is an association list, updated by
  \<^const>\<open>AList.update\<close>; the order in which Go iterates is not specified.
\<close>

section \<open>The OCI specification\<close>

record ImageSpecConfig =
  isc_Env :: "string list"
  isc_Entrypoint :: "string list"
  isc_Cmd :: "string list"
  isc_WorkingDir :: string
  isc_Labels :: "string \<Rightarrow> string option"

record LinuxNamespace =
  lns_Type :: string
  lns_Path :: string

record POSIXRlimit =
  rl_Type :: string
  rl_Soft :: "64 word"
  rl_Hard :: "64 word"

record LinuxDevice =
  ld_Path :: string
  ld_Type :: string
  ld_Major :: int
  ld_Minor :: int
  ld_FileMode :: "32 word"

record LinuxCapabilities =
  cap_Bounding :: "string list"
  cap_Effective :: "string list"
  cap_Inheritable :: "string list"
  cap_Permitted :: "string list"
  cap_Ambient :: "string list"

record Process =
  pr_Terminal :: bool
  pr_UID :: "32 word"
  pr_GID :: "32 word"
  pr_AdditionalGids :: "32 word list"
  pr_Args :: "string list"
  pr_Env :: "string list"
  pr_Cwd :: string
  pr_Capabilities :: LinuxCapabilities
  pr_Rlimits :: "POSIXRlimit list"
  pr_NoNewPrivileges :: bool
  pr_OOMScoreAdj :: "int option"

record Root =
  root_Path :: string
  root_Readonly :: bool

record Linux =
  lx_UIDMappings :: "LinuxIDMapping list"
  lx_GIDMappings :: "LinuxIDMapping list"
  lx_Sysctl :: "(string \<times> string) list"
  lx_Resources :: LinuxResources
  lx_CgroupsPath :: string
  lx_Namespaces :: "LinuxNamespace list"
  lx_Devices :: "LinuxDevice list"
  lx_RootfsPropagation :: string
  lx_MaskedPaths :: "string list"
  lx_ReadonlyPaths :: "string list"

record Spec =
  sp_Version :: string
  sp_Process :: Process
  sp_Root :: Root
  sp_Hostname :: string
  sp_Mounts :: "Mount list"
  sp_Annotations :: "(string \<times> string) list"
  sp_Linux :: Linux

definition specs_Version :: string where
  "specs_Version = ''1.3.0''"

section \<open>Mounts\<close>

definition defaultMountpoint :: "string \<Rightarrow> string" where
  "defaultMountpoint tp =
     (if tp = ''proc'' then ''/proc''
      else if tp = ''devpts'' then ''/dev/pts''
      else if tp = ''sysfs'' then ''/sys''
      else if tp = ''cgroup'' then ''/sys/fs/cgroup''
      else if tp = ''mqueue'' then ''/dev/mqueue''
      else [])"

type_synonym mounts = "(string \<times> Mount) list"

definition mount :: "string \<Rightarrow> string \<Rightarrow> string \<Rightarrow> string list \<Rightarrow> Mount" where
  "mount dest tp src opts =
     \<lparr>mnt_Destination = dest, mnt_Type = tp, mnt_Source = src, mnt_Options = opts\<rparr>"

definition defaultMounts :: "bool \<Rightarrow> mounts" where
  "defaultMounts readonly =
     (let procOptions = [''nosuid'', ''nodev'', ''noexec'', ''relatime''];
          devOptions = [''nosuid'', ''strictatime'', ''mode=755'', ''size=65536k'']
                       @ (if readonly then [''ro''] else []);
          ptsOptions = [''nosuid'', ''noexec'', ''newinstance'', ''ptmxmode=0666'', ''mode=0620''];
          sysOptions = [''nosuid'', ''noexec'', ''nodev''] @ (if readonly then [''ro''] else []);
          cgroupOptions = [''nosuid'', ''noexec'', ''nodev'', ''relatime'', ''ro'']
      in [(''/proc'', mount ''/proc'' ''proc'' ''proc'' procOptions),
          (''/dev'', mount ''/dev'' ''tmpfs'' ''tmpfs'' devOptions),
          (''/dev/pts'', mount ''/dev/pts'' ''devpts'' ''devpts'' ptsOptions),
          (''/sys'', mount ''/sys'' ''sysfs'' ''sysfs'' sysOptions),
          (''/sys/fs/cgroup'', mount ''/sys/fs/cgroup'' ''cgroup'' ''cgroup'' cgroupOptions)])"

definition parseTmpfs :: "string \<Rightarrow> Mount res" where
  "parseTmpfs t =
     (case split_on (CHR '':'') t of
        [dest] \<Rightarrow> Ok (mount dest ''tmpfs'' ''tmpfs'' [])
      | [dest, o1] \<Rightarrow> Ok (mount dest ''tmpfs'' ''tmpfs'' (split_on (CHR '','') o1))
      | _ \<Rightarrow> Err (''cannot parse tmpfs, too many ':': '' @ t))"

definition parseBind :: "string \<Rightarrow> Mount res" where
  "parseBind b =
     (case split_on (CHR '':'') b of
        [src, dest] \<Rightarrow> Ok (mount dest ''bind'' src [''rw'', ''rbind'', ''rshared''])
      | [src, dest, o1] \<Rightarrow> Ok (mount dest ''bind'' src (split_on (CHR '','') o1 @ [''rbind'']))
      | parts \<Rightarrow>
          if length parts < 2 then Err (''cannot parse bind, missing ':': '' @ b)
          else Err (''cannot parse bind, too many ':': '' @ b))"

definition parseMount :: "Mount \<Rightarrow> Mount res" where
  "parseMount m =
     (let src = mnt_Source m; dest = mnt_Destination m; opts = mnt_Options m;
          tp = mnt_Type m;
          tp = (if tp = [] \<and> src \<in> {''mqueue'', ''devpts'', ''proc'', ''sysfs'', ''cgroup''}
                then src else tp);
          tp = (if tp = [] \<and> dest = ''/dev'' then ''tmpfs'' else tp)
      in if tp = [] then Err (''mount for destination '' @ dest @ '' is missing type'')
         else let src = (if src = [] then tp else src);
                  dest = (if dest = [] then defaultMountpoint tp else dest)
              in if dest = [] then Err (''mount type '' @ tp @ '' is missing destination'')
                 else Ok (mount dest tp src opts))"

text \<open>The body of each of the three loops: parse one entry and store it under its destination.\<close>

definition putMount :: "('a \<Rightarrow> Mount res) \<Rightarrow> 'a \<Rightarrow> mounts \<Rightarrow> mounts res" where
  "putMount parse x mounts =
     bind_res (parse x) (\<lambda>m. Ok (AList.update (mnt_Destination m) m mounts))"

definition mountList :: "mounts \<Rightarrow> Mount list" where
  "mountList mounts = sort_key mnt_Destination (map snd mounts)"

definition ociMounts :: "ImageConfig \<Rightarrow> ImageConfig \<Rightarrow> bool \<Rightarrow> mounts res" where
  "ociMounts label yaml readonly =
     bind_res (loop_res (putMount parseTmpfs) (assignStrings (ic_Tmpfs label) (ic_Tmpfs yaml))
                 (defaultMounts readonly))
     (\<lambda>m1. bind_res (loop_res (putMount parseBind)
                 (assignStrings (mergeStrings (ic_Binds label) (ic_BindsAdd yaml)) (ic_Binds yaml))
                 m1)
     (\<lambda>m2. loop_res (putMount parseMount) (assignBinds (ic_Mounts label) (ic_Mounts yaml)) m2))"

section \<open>Namespaces\<close>

text \<open>
  A namespace entry is added unless the choice is \<^verbatim>\<open>host\<close> or \<^verbatim>\<open>root\<close>; a choice in \<open>fresh\<close> asks for
  a new namespace and has an empty path.
\<close>

definition addNS :: "string \<Rightarrow> string list \<Rightarrow> string \<Rightarrow> LinuxNamespace list" where
  "addNS tp fresh ns =
     (if ns \<noteq> ''host'' \<and> ns \<noteq> ''root''
      then [\<lparr>lns_Type = tp, lns_Path = (if ns \<in> set fresh then [] else ns)\<rparr>] else [])"

definition ociNamespaces :: "ImageConfig \<Rightarrow> ImageConfig \<Rightarrow> LinuxNamespace list" where
  "ociNamespaces label yaml =
     addNS ''network'' [''none'', ''new''] (assignStringEmpty3 ''root'' (ic_Net label) (ic_Net yaml))
     @ addNS ''ipc'' [''new''] (assignStringEmpty3 ''root'' (ic_Ipc label) (ic_Ipc yaml))
     @ addNS ''uts'' [''new''] (assignStringEmpty3 ''root'' (ic_Uts label) (ic_Uts yaml))
     @ addNS ''pid'' [''new''] (assignStringEmpty (ic_Pid label) (ic_Pid yaml))
     @ addNS ''user'' [''new''] (assignStringEmpty3 ''root'' (ic_Userns label) (ic_Userns yaml))
     @ [\<lparr>lns_Type = ''mount'', lns_Path = []\<rparr>]"

section \<open>Capabilities\<close>

definition getAllCapabilities :: "string list \<Rightarrow> string list" where
  "getAllCapabilities known = map (\<lambda>c. ''CAP_'' @ to_upper c) known"

definition expandCaps :: "string list \<Rightarrow> string list \<Rightarrow> string list" where
  "expandCaps allCaps caps =
     (case caps of
        [c] \<Rightarrow> if to_lower c = ''none'' then [] else if to_lower c = ''all'' then allCaps else caps
      | _ \<Rightarrow> caps)"

definition checkCap :: "string list \<Rightarrow> string \<Rightarrow> string list \<Rightarrow> string list res" where
  "checkCap allCaps capability boundingSet =
     (if capability \<notin> set allCaps then Err (''unknown capability: '' @ capability)
      else Ok (List.insert capability boundingSet))"

definition ociCapabilities ::
  "string list \<Rightarrow> ImageConfig \<Rightarrow> ImageConfig \<Rightarrow> LinuxCapabilities res" where
  "ociCapabilities allCaps label yaml =
     (let caps = expandCaps allCaps
            (assignStrings (mergeStrings (ic_Capabilities label) (ic_CapabilitiesAdd yaml))
               (ic_Capabilities yaml));
          ambient = expandCaps allCaps (assignStrings (ic_Ambient label) (ic_Ambient yaml))
      in bind_res (loop_res (checkCap allCaps) caps [])
         (\<lambda>b1. bind_res (loop_res (checkCap allCaps) ambient b1)
         (\<lambda>b2. let bounding = sort b2 in
            Ok \<lparr>cap_Bounding = bounding, cap_Effective = caps, cap_Inheritable = bounding,
                cap_Permitted = bounding, cap_Ambient = ambient\<rparr>)))"

section \<open>Resource limits\<close>

definition knownLimits :: "string list" where
  "knownLimits =
     [''RLIMIT_CPU'', ''RLIMIT_FSIZE'', ''RLIMIT_DATA'', ''RLIMIT_STACK'', ''RLIMIT_CORE'',
      ''RLIMIT_RSS'', ''RLIMIT_NPROC'', ''RLIMIT_NOFILE'', ''RLIMIT_MEMLOCK'', ''RLIMIT_AS'',
      ''RLIMIT_LOCKS'', ''RLIMIT_SIGPENDING'', ''RLIMIT_MSGQUEUE'', ''RLIMIT_NICE'',
      ''RLIMIT_RTPRIO'', ''RLIMIT_RTTIME'']"

definition limitValue :: "string \<Rightarrow> 64 word res" where
  "limitValue field =
     (let s = trim_space field in
      if to_lower s = ''unlimited'' then Ok 18446744073709551615
      else bind_res (wrap_err (''cannot parse '' @ s @ '' as uint64: '') (ParseUint s 10 64))
             (\<lambda>n. Ok (of_nat n)))"

definition limitName :: "string \<Rightarrow> string" where
  "limitName field =
     (let limit = to_upper (trim_space field) in
      if has_prefix limit ''RLIMIT_'' then limit else ''RLIMIT_'' @ limit)"

text \<open>\<^verbatim>\<open>origLimit\<close> is read before the limit is set, so the error never names it.\<close>

definition parseRlimit :: "string list \<Rightarrow> string \<Rightarrow> POSIXRlimit res" where
  "parseRlimit rlimitsString limitString =
     (case splitN 3 (CHR '','') limitString of
        [r0, r1, r2] \<Rightarrow>
          bind_res (limitValue r1)
          (\<lambda>soft. bind_res (limitValue r2)
          (\<lambda>hard. if limitName r0 \<in> set knownLimits
                  then Ok \<lparr>rl_Type = limitName r0, rl_Soft = soft, rl_Hard = hard\<rparr>
                  else Err ''unknown limit: ''))
      | _ \<Rightarrow> Err (''cannot parse rlimit: ['' @ join '' '' rlimitsString @ '']''))"

definition ociRlimits :: "ImageConfig \<Rightarrow> ImageConfig \<Rightarrow> POSIXRlimit list res" where
  "ociRlimits label yaml =
     (let rlimitsString = assignStrings (ic_Rlimits label) (ic_Rlimits yaml) in
      map_res (parseRlimit rlimitsString) rlimitsString)"

section \<open>User and group ids\<close>

type_synonym idMap = "string \<Rightarrow> 32 word option"

definition IDNumeric :: "iface \<Rightarrow> idMap \<Rightarrow> 32 word res" where
  "IDNumeric v idMap =
     (case v of
        INil \<Rightarrow> Ok 0
      | IInt i \<Rightarrow> Ok (word_of_int i)
      | IStr s \<Rightarrow>
          if s = [] \<or> s = ''root'' then Ok 0
          else (case idMap s of Some n \<Rightarrow> Ok n | None \<Rightarrow> Err (''cannot find id: '' @ s))
      | IOther \<Rightarrow> Err ''bad type for uid or gid'')"

section \<open>Devices\<close>

definition deviceCgroup :: "LinuxDevice \<Rightarrow> LinuxDeviceCgroup" where
  "deviceCgroup device =
     \<lparr>ldc_Allow = True, ldc_Type = ld_Type device, ldc_Major = Some (ld_Major device),
      ldc_Minor = Some (ld_Minor device), ldc_Access = ''rwm''\<rparr>"

definition addDevice ::
  "Device \<Rightarrow> LinuxResources \<times> LinuxDevice list \<Rightarrow> (LinuxResources \<times> LinuxDevice list) res" where
  "addDevice device st =
     (case st of (resources, linuxDevices) \<Rightarrow>
        if dev_Path device = ''all''
        then Ok (resources\<lparr>lres_Devices := lres_Devices resources @
                   [\<lparr>ldc_Allow = True, ldc_Type = dev_Type device, ldc_Major = None,
                     ldc_Minor = None, ldc_Access = ''rwm''\<rparr>]\<rparr>, linuxDevices)
        else bind_res (wrap_err ''cannot parse device mode as octal value: ''
                         (ParseInt (dev_Mode device) 8 32))
             (\<lambda>mode.
               let linuxDevice = \<lparr>ld_Path = dev_Path device, ld_Type = dev_Type device,
                     ld_Major = dev_Major device, ld_Minor = dev_Minor device,
                     ld_FileMode = word_of_int mode\<rparr>
               in Ok (resources\<lparr>lres_Devices :=
                         lres_Devices resources @ [deviceCgroup linuxDevice]\<rparr>,
                      linuxDevices @ [linuxDevice])))"

section \<open>The whole conversion\<close>

definition labelImage :: "YamlLib \<Rightarrow> ImageSpecConfig \<Rightarrow> Image res" where
  "labelImage yl config =
     (let labelString = (case isc_Labels config ''org.mobyproject.config'' of
                           None \<Rightarrow> [] | Some s \<Rightarrow> s)
      in if labelString \<noteq> [] then NewImage yl labelString else Ok Image_zero)"

definition ociSpec ::
  "ImageConfig \<Rightarrow> ImageConfig \<Rightarrow> 32 word \<Rightarrow> 32 word \<Rightarrow> 32 word list \<Rightarrow> string list \<Rightarrow> string list \<Rightarrow>
    string \<Rightarrow> LinuxCapabilities \<Rightarrow> POSIXRlimit list \<Rightarrow> bool \<Rightarrow> Mount list \<Rightarrow> LinuxResources \<Rightarrow>
    LinuxDevice list \<Rightarrow> Spec" where
  "ociSpec label yaml uid gid additionalGroups args env cwd caps rlimits readonly ml
      resources linuxDevices =
     \<lparr>sp_Version = specs_Version,
       sp_Process =
         \<lparr>pr_Terminal = False, pr_UID = uid, pr_GID = gid,
          pr_AdditionalGids = additionalGroups, pr_Args = args, pr_Env = env,
          pr_Cwd = cwd, pr_Capabilities = caps, pr_Rlimits = rlimits,
          pr_NoNewPrivileges =
            assignBool (ic_NoNewPrivileges label) (ic_NoNewPrivileges yaml),
          pr_OOMScoreAdj = assignIntPtr (ic_OOMScoreAdj label) (ic_OOMScoreAdj yaml)\<rparr>,
       sp_Root = \<lparr>root_Path = ''rootfs'', root_Readonly = readonly\<rparr>,
       sp_Hostname = assignStringEmpty (ic_Hostname label) (ic_Hostname yaml),
       sp_Mounts = ml,
       sp_Annotations = assignMaps (ic_Annotations label) (ic_Annotations yaml),
       sp_Linux =
         \<lparr>lx_UIDMappings = assignMappings (ic_UIDMappings label) (ic_UIDMappings yaml),
          lx_GIDMappings = assignMappings (ic_GIDMappings label) (ic_GIDMappings yaml),
          lx_Sysctl = assignMaps (ic_Sysctl label) (ic_Sysctl yaml),
          lx_Resources = resources,
          lx_CgroupsPath = assignString (ic_CgroupsPath label) (ic_CgroupsPath yaml),
          lx_Namespaces = ociNamespaces label yaml,
          lx_Devices = linuxDevices,
          lx_RootfsPropagation =
            assignString (ic_RootfsPropagation label) (ic_RootfsPropagation yaml),
          lx_MaskedPaths = assignStrings (ic_MaskedPaths label) (ic_MaskedPaths yaml),
          lx_ReadonlyPaths =
            assignStrings (ic_ReadonlyPaths label) (ic_ReadonlyPaths yaml)\<rparr>\<rparr>"

definition ConfigToOCI ::
  "YamlLib \<Rightarrow> string list \<Rightarrow> Image \<Rightarrow> ImageSpecConfig \<Rightarrow> idMap \<Rightarrow> (Spec \<times> Runtime) res" where
  "ConfigToOCI yl known img config idMap =
     bind_res (labelImage yl config)
     (\<lambda>lab.
       let label = img_Config lab; yaml = img_Config img;
           inspectCommand = isc_Entrypoint config @ isc_Cmd config;
           args = assignStrings3 inspectCommand (ic_Command label) (ic_Command yaml);
           env = assignStrings3 (isc_Env config) (ic_Env label) (ic_Env yaml);
           cwd = assignStringEmpty4 ''/'' (isc_WorkingDir config) (ic_Cwd label) (ic_Cwd yaml);
           readonly = assignBool (ic_Readonly label) (ic_Readonly yaml);
           allCaps = getAllCapabilities known
       in bind_res (ociMounts label yaml readonly)
       (\<lambda>mounts. bind_res (ociCapabilities allCaps label yaml)
       (\<lambda>caps. bind_res (ociRlimits label yaml)
       (\<lambda>rlimits. bind_res (IDNumeric (assignInterface (ic_UID label) (ic_UID yaml)) idMap)
       (\<lambda>uid. bind_res (IDNumeric (assignInterface (ic_GID label) (ic_GID yaml)) idMap)
       (\<lambda>gid. bind_res (map_res (\<lambda>v. IDNumeric v idMap)
                  (assignInterfaceArray (ic_AdditionalGids label) (ic_AdditionalGids yaml)))
       (\<lambda>additionalGroups. bind_res
          (loop_res addDevice (assignDevices (ic_Devices label) (ic_Devices yaml))
             (assignResources (ic_Resources label) (ic_Resources yaml), []))
       (\<lambda>(resources, linuxDevices).
          Ok (ociSpec label yaml uid gid additionalGroups args env cwd caps rlimits readonly
                (mountList mounts) resources linuxDevices,
              assignRuntime (ic_Runtime label) (ic_Runtime yaml))))))))))"

section \<open>The mount table\<close>

text \<open>Every mount is stored under its own destination, once.\<close>

definition mounts_ok :: "mounts \<Rightarrow> bool" where
  "mounts_ok ms \<longleftrightarrow> distinct (map fst ms) \<and> (\<forall>(k, m) \<in> set ms. mnt_Destination m = k)"

lemma mount_simps [simp]:
  "mnt_Destination (mount d t s os) = d" "mnt_Type (mount d t s os) = t"
  "mnt_Source (mount d t s os) = s" "mnt_Options (mount d t s os) = os"
  by (simp_all add: mount_def)

lemma defaultMounts_ok: "mounts_ok (defaultMounts ro)"
  by (simp add: mounts_ok_def defaultMounts_def Let_def)

lemma mounts_ok_update:
  assumes "mounts_ok ms" shows "mounts_ok (AList.update (mnt_Destination m) m ms)"
proof -
  have "\<forall>(k, m') \<in> set (AList.update (mnt_Destination m) m ms). mnt_Destination m' = k"
    if "\<forall>(k, m') \<in> set ms. mnt_Destination m' = k"
    using that by (induction ms) auto
  with assms show ?thesis by (simp add: mounts_ok_def distinct_update)
qed

lemma putMount_Ok_iff:
  "putMount parse x ms = Ok ms' \<longleftrightarrow>
     (\<exists>m. parse x = Ok m \<and> ms' = AList.update (mnt_Destination m) m ms)"
  by (auto simp: putMount_def)

lemma putMounts_Ok:
  assumes "loop_res (putMount parse) xs ms = Ok ms'" and "mounts_ok ms"
  shows "\<exists>es. map_res parse xs = Ok es \<and> mounts_ok ms' \<and>
    map_of ms' = map_of ms ++ map_of (rev (map (\<lambda>m. (mnt_Destination m, m)) es))"
  using assms
proof (induction xs arbitrary: ms)
  case (Cons x xs)
  then obtain m where m: "parse x = Ok m"
    "loop_res (putMount parse) xs (AList.update (mnt_Destination m) m ms) = Ok ms'"
    by (auto simp: putMount_Ok_iff)
  have "map_of (AList.update (mnt_Destination m) m ms) = map_of ms ++ map_of [(mnt_Destination m, m)]"
    by (simp add: update_conv')
  with Cons.IH [OF m(2) mounts_ok_update [OF Cons.prems(2)]] m(1) show ?case
    by (auto simp del: map_of.simps)
qed simp

lemma putMounts_parse:
  "is_ok (loop_res (putMount parse) xs ms) \<longleftrightarrow> list_all (\<lambda>x. is_ok (parse x)) xs"
proof (induction xs arbitrary: ms)
  case (Cons x xs)
  then show ?case by (cases "parse x") (auto simp: putMount_def)
qed simp

lemma mounts_ok_map_snd: "mounts_ok ms \<Longrightarrow> map mnt_Destination (map snd ms) = map fst ms"
  by (auto simp: mounts_ok_def)

lemma mountList_sorted: "sorted (map mnt_Destination (mountList ms))"
  by (simp add: mountList_def)

lemma mountList_distinct:
  assumes "mounts_ok ms" shows "distinct (map mnt_Destination (mountList ms))"
proof -
  have "mset (map mnt_Destination (mountList ms)) = mset (map mnt_Destination (map snd ms))"
    by (simp only: mountList_def mset_map mset_sort)
  with assms show ?thesis
    unfolding mounts_ok_map_snd [OF assms] mounts_ok_def
    by (metis mset_eq_imp_distinct_iff)
qed

lemma mountList_find:
  assumes "mounts_ok ms"
  shows "find (\<lambda>m. mnt_Destination m = d) (mountList ms) = map_of ms d"
proof -
  have "find (\<lambda>m. mnt_Destination m = d) (mountList ms) = Some m \<longleftrightarrow> map_of ms d = Some m" for m
  proof -
    have "m \<in> snd ` set ms \<and> mnt_Destination m = d \<longleftrightarrow> (d, m) \<in> set ms"
      using assms by (force simp: mounts_ok_def)
    moreover have "set (mountList ms) = snd ` set ms" by (simp add: mountList_def)
    ultimately show ?thesis
      using assms by (simp add: find_unique_key [OF mountList_distinct [OF assms]] mounts_ok_def)
  qed
  then show ?thesis by (rule option_eqI)
qed

text \<open>The list does not depend on the order in which the map is iterated.\<close>

lemma mountList_perm:
  assumes "mounts_ok ms" and "mset ms' = mset ms"
  shows "mountList ms' = mountList ms"
  unfolding mountList_def using assms
  by (intro sort_key_perm) (simp_all add: mounts_ok_map_snd mounts_ok_def del: map_map)

lemma mounts_ok_map_of_rev:
  assumes "mounts_ok ms"
  shows "map_of ms = map_of (rev (map (\<lambda>m. (mnt_Destination m, m)) (map snd ms)))"
proof -
  have "map (\<lambda>m. (mnt_Destination m, m)) (map snd ms) = ms"
    using assms by (auto simp: mounts_ok_def intro!: map_idI)
  moreover have "map_of (rev ms) = map_of ms"
    using assms by (simp add: mounts_ok_def map_of_inject_set flip: rev_map)
  ultimately show ?thesis by simp
qed

lemma ociMounts_Ok:
  assumes "ociMounts label yaml ro = Ok ms"
  obtains ts bs es where
    "map_res parseTmpfs (assignStrings (ic_Tmpfs label) (ic_Tmpfs yaml)) = Ok ts"
    "map_res parseBind (assignStrings (mergeStrings (ic_Binds label) (ic_BindsAdd yaml))
       (ic_Binds yaml)) = Ok bs"
    "map_res parseMount (assignBinds (ic_Mounts label) (ic_Mounts yaml)) = Ok es"
    "mounts_ok ms"
    "map_of ms = map_of (rev (map (\<lambda>m. (mnt_Destination m, m))
       (map snd (defaultMounts ro) @ ts @ bs @ es)))"
proof -
  from assms obtain m1 m2 where
    1: "loop_res (putMount parseTmpfs) (assignStrings (ic_Tmpfs label) (ic_Tmpfs yaml))
          (defaultMounts ro) = Ok m1" and
    2: "loop_res (putMount parseBind) (assignStrings (mergeStrings (ic_Binds label)
          (ic_BindsAdd yaml)) (ic_Binds yaml)) m1 = Ok m2" and
    3: "loop_res (putMount parseMount) (assignBinds (ic_Mounts label) (ic_Mounts yaml)) m2 = Ok ms"
    by (auto simp: ociMounts_def)
  from putMounts_Ok [OF 1 defaultMounts_ok] obtain ts where ts:
    "map_res parseTmpfs (assignStrings (ic_Tmpfs label) (ic_Tmpfs yaml)) = Ok ts" "mounts_ok m1"
    "map_of m1 = map_of (defaultMounts ro) ++ map_of (rev (map (\<lambda>m. (mnt_Destination m, m)) ts))"
    by blast
  from putMounts_Ok [OF 2 ts(2)] obtain bs where bs:
    "map_res parseBind (assignStrings (mergeStrings (ic_Binds label) (ic_BindsAdd yaml))
       (ic_Binds yaml)) = Ok bs" "mounts_ok m2"
    "map_of m2 = map_of m1 ++ map_of (rev (map (\<lambda>m. (mnt_Destination m, m)) bs))" by blast
  from putMounts_Ok [OF 3 bs(2)] obtain es where es:
    "map_res parseMount (assignBinds (ic_Mounts label) (ic_Mounts yaml)) = Ok es" "mounts_ok ms"
    "map_of ms = map_of m2 ++ map_of (rev (map (\<lambda>m. (mnt_Destination m, m)) es))" by blast
  have "map_of (defaultMounts ro) =
      map_of (rev (map (\<lambda>m. (mnt_Destination m, m)) (map snd (defaultMounts ro))))"
    by (rule mounts_ok_map_of_rev [OF defaultMounts_ok])
  then have "map_of ms = map_of (rev (map (\<lambda>m. (mnt_Destination m, m))
      (map snd (defaultMounts ro) @ ts @ bs @ es)))"
    by (simp only: ts(3) bs(3) es(3) map_append rev_append map_of_append map_add_assoc)
  with ts(1) bs(1) es(1,2) show thesis by (rule that)
qed

section \<open>Lemmas on the parts\<close>

lemma ConfigToOCI_Ok:
  assumes "ConfigToOCI yl known img config idMap = Ok (spec, rt)"
  obtains lab ms resources devs where "labelImage yl config = Ok lab"
    "ociMounts (img_Config lab) (img_Config img) (root_Readonly (sp_Root spec)) = Ok ms"
    "sp_Mounts spec = mountList ms"
    "ociCapabilities (getAllCapabilities known) (img_Config lab) (img_Config img) =
       Ok (pr_Capabilities (sp_Process spec))"
    "ociRlimits (img_Config lab) (img_Config img) = Ok (pr_Rlimits (sp_Process spec))"
    "loop_res addDevice (assignDevices (ic_Devices (img_Config lab)) (ic_Devices (img_Config img)))
       (assignResources (ic_Resources (img_Config lab)) (ic_Resources (img_Config img)), []) =
       Ok (lx_Resources (sp_Linux spec), lx_Devices (sp_Linux spec))"
    "lx_Namespaces (sp_Linux spec) = ociNamespaces (img_Config lab) (img_Config img)"
    "root_Readonly (sp_Root spec) =
       assignBool (ic_Readonly (img_Config lab)) (ic_Readonly (img_Config img))"
  using assms unfolding ConfigToOCI_def ociSpec_def Let_def
  by (auto split: prod.splits)

lemma map_of_find: "map_of (map (\<lambda>m. (f m, m)) xs) d = find (\<lambda>m. f m = d) xs"
  by (induction xs) auto

lemma parseTmpfs_ok: "is_ok (parseTmpfs t) \<longleftrightarrow> count_list t (CHR '':'') \<le> 1"
proof -
  have "length (split_on (CHR '':'') t) = Suc (count_list t (CHR '':''))"
    by (rule length_split_on)
  then show ?thesis
    by (auto simp: parseTmpfs_def is_ok_def split: list.splits)
qed

lemma parseBind_ok: "is_ok (parseBind b) \<longleftrightarrow> count_list b (CHR '':'') \<in> {1, 2}"
proof -
  have "length (split_on (CHR '':'') b) = Suc (count_list b (CHR '':''))"
    by (rule length_split_on)
  then show ?thesis
    by (auto simp: parseBind_def is_ok_def split: list.splits)
qed

lemma checkCap_loop:
  "loop_res (checkCap allCaps) caps b =
     (case find (\<lambda>c. c \<notin> set allCaps) caps of
        Some c \<Rightarrow> Err (''unknown capability: '' @ c)
      | None \<Rightarrow> Ok (fold List.insert caps b))"
  by (induction caps arbitrary: b) (auto simp: checkCap_def split: option.splits)

lemma fold_insert_set: "set (fold List.insert caps b) = set caps \<union> set b"
  by (induction caps arbitrary: b) auto

lemma fold_insert_distinct: "distinct b \<Longrightarrow> distinct (fold List.insert caps b)"
  by (induction caps arbitrary: b) auto

lemma addDevice_loop:
  assumes "loop_res addDevice ds (res, devs) = Ok (res', devs')"
  shows "\<exists>new. devs' = devs @ new \<and>
    map ld_Path new = map dev_Path (filter (\<lambda>d. dev_Path d \<noteq> ''all'') ds) \<and>
    lres_Other res' = lres_Other res \<and>
    (\<exists>rules. lres_Devices res' = lres_Devices res @ rules \<and> length rules = length ds \<and>
      list_all (\<lambda>r. ldc_Allow r \<and> ldc_Access r = ''rwm'') rules \<and>
      map ldc_Type rules = map dev_Type ds \<and>
      filter (\<lambda>r. ldc_Major r \<noteq> None) rules = map deviceCgroup new)"
  using assms
proof (induction ds arbitrary: res devs)
  case (Cons d ds)
  from Cons.prems obtain res1 devs1 where 1: "addDevice d (res, devs) = Ok (res1, devs1)"
    "loop_res addDevice ds (res1, devs1) = Ok (res', devs')"
    by auto
  from Cons.IH [OF 1(2)] 1(1) show ?case
    by (auto simp: addDevice_def deviceCgroup_def Let_def split: if_splits)
qed simp

lemma less_append: "t \<noteq> [] \<Longrightarrow> (d :: string) < d @ t"
  by (induction d) (auto simp: neq_Nil_conv)

lemma limitValue_unlimited: "limitValue ''unlimited'' = Ok 18446744073709551615"
  by (simp add: limitValue_def trim_space_def is_space_def to_lower_def lower_char_def)

lemma limitValue_dec:
  assumes "n < 2 ^ 64" shows "limitValue (dec_digits n) = Ok (of_nat n)"
proof -
  have "to_lower (dec_digits n) \<noteq> ''unlimited''"
  proof
    assume "to_lower (dec_digits n) = ''unlimited''"
    then obtain c where "c \<in> set (dec_digits n)" "lower_char c = CHR ''u''"
      unfolding to_lower_def by (metis image_eqI image_iff list.set_intros(1) set_map)
    then show False
      using dec_digits_range [of c n] by (auto simp: lower_char_def)
  qed
  with assms show ?thesis
    by (simp add: limitValue_def ParseUint_dec_digits)
qed

lemma limitName_known: "t \<in> set knownLimits \<Longrightarrow> limitName t = t \<and> CHR '','' \<notin> set t"
  by (auto simp: knownLimits_def limitName_def trim_space_def is_space_def to_upper_def
      upper_char_def has_prefix_def)

lemma parseRlimit_fields:
  assumes "t \<in> set knownLimits" and "CHR '','' \<notin> set s" and "CHR '','' \<notin> set h"
    and "limitValue s = Ok soft" and "limitValue h = Ok hard"
  shows "parseRlimit xs (t @ '','' @ s @ '','' @ h) =
    Ok \<lparr>rl_Type = t, rl_Soft = soft, rl_Hard = hard\<rparr>"
proof -
  have t: "limitName t = t" "CHR '','' \<notin> set t"
    using limitName_known [OF assms(1)] by blast+
  have "splitN 3 (CHR '','') (t @ '','' @ s @ '','' @ h) = [t, s, h]"
    using t(2) assms(2) by (simp add: numeral_3_eq_3 splitN_sep del: splitN.simps(3))
  with assms t(1) show ?thesis
    by (simp add: parseRlimit_def del: splitN.simps)
qed

lemma parseRlimit_known:
  "parseRlimit xs s = Ok l \<Longrightarrow> rl_Type l \<in> set knownLimits"
  by (auto simp: parseRlimit_def split: list.splits if_splits)

lemma dec_digits_no_comma: "CHR '','' \<notin> set (dec_digits n)"
  using dec_digits_range [of "CHR '',''" n] by auto

lemma parseMount_ok:
  "is_ok (parseMount m) \<longleftrightarrow>
     (let tp = (if mnt_Type m \<noteq> [] then mnt_Type m
                else if mnt_Source m \<in> {''mqueue'', ''devpts'', ''proc'', ''sysfs'', ''cgroup''}
                then mnt_Source m else if mnt_Destination m = ''/dev'' then ''tmpfs'' else [])
      in tp \<noteq> [] \<and> (mnt_Destination m \<noteq> [] \<or> defaultMountpoint tp \<noteq> []))"
  by (simp add: parseMount_def Let_def is_ok_def)

lemma ociMounts_ok:
  "is_ok (ociMounts label yaml ro) \<longleftrightarrow>
     list_all (\<lambda>t. count_list t (CHR '':'') \<le> 1) (assignStrings (ic_Tmpfs label) (ic_Tmpfs yaml)) \<and>
     list_all (\<lambda>b. count_list b (CHR '':'') \<in> {1, 2})
       (assignStrings (mergeStrings (ic_Binds label) (ic_BindsAdd yaml)) (ic_Binds yaml)) \<and>
     list_all (\<lambda>m. is_ok (parseMount m)) (assignBinds (ic_Mounts label) (ic_Mounts yaml))"
proof -
  have "is_ok (bind_res r (\<lambda>m1. bind_res (loop_res (putMount parseBind) xs m1)
        (loop_res (putMount parseMount) ms))) \<longleftrightarrow>
      is_ok r \<and> list_all (\<lambda>x. is_ok (parseBind x)) xs \<and> list_all (\<lambda>m. is_ok (parseMount m)) ms"
    for r xs ms
    by (rule is_ok_bind_const) (simp only: is_ok_bind_const [OF putMounts_parse] putMounts_parse)
  then show ?thesis
    unfolding ociMounts_def by (simp only: putMounts_parse parseTmpfs_ok parseBind_ok)
qed

lemma ociCapabilities_ok:
  "is_ok (ociCapabilities allCaps label yaml) \<longleftrightarrow>
     set (expandCaps allCaps (assignStrings (mergeStrings (ic_Capabilities label)
       (ic_CapabilitiesAdd yaml)) (ic_Capabilities yaml))) \<subseteq> set allCaps \<and>
     set (expandCaps allCaps (assignStrings (ic_Ambient label) (ic_Ambient yaml))) \<subseteq> set allCaps"
  by (auto simp: ociCapabilities_def Let_def checkCap_loop is_ok_bind find_None_iff find_Some_iff
      split: option.splits dest: nth_mem)

lemma addDevice_ok:
  "is_ok (loop_res addDevice ds st) \<longleftrightarrow>
     list_all (\<lambda>d. dev_Path d = ''all'' \<or> is_ok (ParseInt (dev_Mode d) 8 32)) ds"
proof (induction ds arbitrary: st)
  case (Cons d ds)
  then show ?case
    by (cases st; cases "ParseInt (dev_Mode d) 8 32") (auto simp: addDevice_def Let_def)
qed simp

text \<open>
  The configurations the conversion accepts: every \<^verbatim>\<open>tmpfs\<close> entry has at most one colon, every
  bind has one or two, every mount has a type and a destination given or implied, every
  capability is known, every limit parses, every id is numeric or in the table and the mode
  of every device that is not \<^verbatim>\<open>all\<close> is octal.
\<close>

definition acceptable :: "string list \<Rightarrow> idMap \<Rightarrow> ImageConfig \<Rightarrow> ImageConfig \<Rightarrow> bool" where
  "acceptable known idMap label yaml \<longleftrightarrow>
     (let allCaps = getAllCapabilities known in
       list_all (\<lambda>t. count_list t (CHR '':'') \<le> 1) (assignStrings (ic_Tmpfs label) (ic_Tmpfs yaml)) \<and>
       list_all (\<lambda>b. count_list b (CHR '':'') \<in> {1, 2})
         (assignStrings (mergeStrings (ic_Binds label) (ic_BindsAdd yaml)) (ic_Binds yaml)) \<and>
       list_all (\<lambda>m. is_ok (parseMount m)) (assignBinds (ic_Mounts label) (ic_Mounts yaml)) \<and>
       set (expandCaps allCaps (assignStrings (mergeStrings (ic_Capabilities label)
         (ic_CapabilitiesAdd yaml)) (ic_Capabilities yaml))) \<subseteq> set allCaps \<and>
       set (expandCaps allCaps (assignStrings (ic_Ambient label) (ic_Ambient yaml)))
         \<subseteq> set allCaps \<and>
       is_ok (ociRlimits label yaml) \<and>
       is_ok (IDNumeric (assignInterface (ic_UID label) (ic_UID yaml)) idMap) \<and>
       is_ok (IDNumeric (assignInterface (ic_GID label) (ic_GID yaml)) idMap) \<and>
       list_all (\<lambda>v. is_ok (IDNumeric v idMap))
         (assignInterfaceArray (ic_AdditionalGids label) (ic_AdditionalGids yaml)) \<and>
       list_all (\<lambda>d. dev_Path d = ''all'' \<or> is_ok (ParseInt (dev_Mode d) 8 32))
         (assignDevices (ic_Devices label) (ic_Devices yaml)))"

lemma ConfigToOCI_ok_iff:
  "is_ok (ConfigToOCI yl known img config idMap) \<longleftrightarrow>
    (\<exists>lab. labelImage yl config = Ok lab \<and> acceptable known idMap (img_Config lab) (img_Config img))"
proof (cases "labelImage yl config")
  case (Ok lab)
  define label yaml where "label = img_Config lab" and "yaml = img_Config img"
  have dev: "is_ok (bind_res r (\<lambda>(x, y). Ok (g x y))) \<longleftrightarrow> is_ok r"
    for r :: "(LinuxResources \<times> LinuxDevice list) res" and g :: "_ \<Rightarrow> _ \<Rightarrow> Spec \<times> Runtime"
    by (cases r) auto
  note steps = is_ok_bind_const [OF is_ok_bind_const [OF is_ok_bind_const [OF is_ok_bind_const
    [OF is_ok_bind_const [OF is_ok_bind_const [OF dev]]]]]]
  show ?thesis
    unfolding ConfigToOCI_def Let_def Ok bind_res.simps steps
    by (simp add: acceptable_def Let_def ociMounts_ok ociCapabilities_ok addDevice_ok map_res_is_ok
        conj_assoc)
qed (simp_all add: ConfigToOCI_def)

text \<open>The same conditions, written out for each part of a configuration.\<close>

definition mount_ok :: "Mount \<Rightarrow> bool" where
  "mount_ok m \<longleftrightarrow>
     (mnt_Type m \<noteq> [] \<or> mnt_Source m \<in> {''mqueue'', ''devpts'', ''proc'', ''sysfs'', ''cgroup''} \<or>
        mnt_Destination m = ''/dev'') \<and>
     (mnt_Destination m \<noteq> [] \<or>
        (if mnt_Type m \<noteq> [] then mnt_Type m else mnt_Source m) \<in> {''mqueue'', ''devpts'', ''proc'', ''sysfs'', ''cgroup''})"






lemma parseMount_mount_ok: "is_ok (parseMount m) \<longleftrightarrow> mount_ok m"
  by (auto simp: parseMount_ok mount_ok_def Let_def defaultMountpoint_def)








text \<open>A mount of type \<^verbatim>\<open>dev\<close> has no default destination.\<close>

lemma type_dev_rejected: "\<not> is_ok (parseMount (mount [] ''dev'' src opts))"
  by (simp add: parseMount_mount_ok mount_ok_def mount_def)

section \<open>An example configuration\<close>

definition demoYaml :: YamlLib where
  "demoYaml =
     \<lparr>yl_decode = (\<lambda>s. Ok (YMapS [])), yl_validate = (\<lambda>y. Ok True),
      yl_unmarshal_moby = (\<lambda>s. Ok Moby_zero), yl_unmarshal_image = (\<lambda>s. Ok Image_zero),
      yl_unmarshal_node = (\<lambda>s. Ok (YNode ScalarNode s [])), yl_marshal_node = (\<lambda>n. Ok (yn_Value n)),
      yl_marshal_image = (\<lambda>i. Ok (img_Name i))\<rparr>"

definition demoSpecConfig :: ImageSpecConfig where
  "demoSpecConfig =
     \<lparr>isc_Env = [''PATH=/bin''], isc_Entrypoint = [''/sbin/dhcpcd''], isc_Cmd = [''-f''],
      isc_WorkingDir = [], isc_Labels = Map.empty\<rparr>"

definition demoImage :: Image where
  "demoImage =
     \<lparr>img_Name = ''dhcpcd'', img_Image = ''linuxkit/dhcpcd:v1'',
      img_Config = ImageConfig_zero
        \<lparr>ic_Capabilities := Some [''CAP_NET_RAW'', ''CAP_NET_ADMIN''],
         ic_Ambient := Some [''CAP_NET_RAW''],
         ic_Tmpfs := Some [''/tmp:size=1m'', ''/dev''],
         ic_Binds := Some [''/run:/run'', ''/etc:/dev:ro''],
         ic_Mounts := Some
           [\<lparr>mnt_Destination = [], mnt_Type = [], mnt_Source = ''mqueue'', mnt_Options = []\<rparr>],
         ic_Rlimits := Some [''RLIMIT_NOFILE,'' @ dec_digits 100 @ '','' @ dec_digits 200],
         ic_UID := Some (IInt 100),
         ic_Devices := Some
           [\<lparr>dev_Path = ''all'', dev_Type = ''b'', dev_Major = 0, dev_Minor = 0, dev_Mode = []\<rparr>,
            \<lparr>dev_Path = ''/dev/console'', dev_Type = ''c'', dev_Major = 5, dev_Minor = 1,
             dev_Mode = ''0666''\<rparr>]\<rparr>\<rparr>"

lemma demo_label: "labelImage demoYaml demoSpecConfig = Ok Image_zero"
  by (simp add: labelImage_def demoSpecConfig_def)

definition demoOCI :: "(Spec \<times> Runtime) res" where
  "demoOCI = ConfigToOCI demoYaml [''net_raw'', ''net_admin''] demoImage demoSpecConfig Map.empty"

lemma demo_ok: "is_ok demoOCI"
proof -
  have rl: "parseRlimit xs (''RLIMIT_NOFILE,'' @ dec_digits 100 @ '','' @ dec_digits 200) =
      Ok \<lparr>rl_Type = ''RLIMIT_NOFILE'', rl_Soft = of_nat 100, rl_Hard = of_nat 200\<rparr>" for xs
    using parseRlimit_fields [of "''RLIMIT_NOFILE''" "dec_digits 100" "dec_digits 200"]
    by (simp add: knownLimits_def dec_digits_no_comma limitValue_dec)
  have caps: "getAllCapabilities [''net_raw'', ''net_admin''] = [''CAP_NET_RAW'', ''CAP_NET_ADMIN'']"
    "expandCaps cs [''CAP_NET_RAW''] = [''CAP_NET_RAW'']" for cs
    by code_simp+
  show ?thesis
    unfolding demoOCI_def ConfigToOCI_ok_iff demo_label
    by (simp add: acceptable_def demoImage_def Image_zero_def ImageConfig_zero_def assign_second assign_neither
        parseMount_ok defaultMountpoint_def caps expandCaps_def [of _ "_ # _ # _"]
        ociRlimits_def rl [simplified] IDNumeric_def ParseInt_def ParseUint_def digit_val_def)
qed

lemma demo_obtain:
  obtains spec rt where
    "ConfigToOCI demoYaml [''net_raw'', ''net_admin''] demoImage demoSpecConfig Map.empty
       = Ok (spec, rt)"
  using demo_ok unfolding demoOCI_def is_ok_iff by auto

section \<open>Properties\<close>

text \<open>
  C23. The mounts of a generated specification are listed in strictly increasing order of
  destination, so no destination is mounted twice and a mount always comes before every mount
  at a destination that extends it (\<^verbatim>\<open>/dev\<close> before \<^verbatim>\<open>/dev/pts\<close>).
\<close>

theorem ConfigToOCI_mounts_sorted:
  assumes "ConfigToOCI yl known img config idMap = Ok (spec, rt)"
  shows "sorted_wrt (<) (map mnt_Destination (sp_Mounts spec)) \<and>
    (\<forall>i j t. i < length (sp_Mounts spec) \<and> j < length (sp_Mounts spec) \<and> t \<noteq> [] \<and>
       mnt_Destination (sp_Mounts spec ! j) = mnt_Destination (sp_Mounts spec ! i) @ t \<longrightarrow> i < j)"
proof -
  from assms obtain lab :: Image and ms where
    "ociMounts (img_Config lab) (img_Config img) (root_Readonly (sp_Root spec)) = Ok ms"
    and m: "sp_Mounts spec = mountList ms"
    by (rule ConfigToOCI_Ok) (rule that)
  then have "mounts_ok ms" by (auto elim: ociMounts_Ok)
  then have s: "sorted_wrt (<) (map mnt_Destination (sp_Mounts spec))"
    by (simp add: m strict_sorted_iff mountList_sorted mountList_distinct del: sorted_map)
  have "i < j" if "i < length (sp_Mounts spec)" "j < length (sp_Mounts spec)" "t \<noteq> []"
    "mnt_Destination (sp_Mounts spec ! j) = mnt_Destination (sp_Mounts spec ! i) @ t" for i j t
  proof (rule ccontr)
    assume "\<not> i < j"
    then have "mnt_Destination (sp_Mounts spec ! j) \<le> mnt_Destination (sp_Mounts spec ! i)"
      using sorted_wrt_nth_less [OF s, of j i] that(1) by (cases "i = j") auto
    with less_append [OF that(3), of "mnt_Destination (sp_Mounts spec ! i)"] that(4)
    show False by simp
  qed
  with s show ?thesis by blast
qed

theorem ConfigToOCI_mounts_sorted_witness:
  "\<exists>spec rt. demoOCI = Ok (spec, rt) \<and> sorted_wrt (<) (map mnt_Destination (sp_Mounts spec))"
proof -
  obtain spec rt where "ConfigToOCI demoYaml [''net_raw'', ''net_admin''] demoImage demoSpecConfig
    Map.empty = Ok (spec, rt)" by (rule demo_obtain)
  with ConfigToOCI_mounts_sorted [OF this] show ?thesis unfolding demoOCI_def by blast
qed


text \<open>
  C7. What is mounted at a destination is the last entry for it in the list of the default
  mounts, the \<^verbatim>\<open>tmpfs\<close> entries, the bind mounts and the \<^verbatim>\<open>mounts\<close> section, in that order of
  precedence; each of these lists is the YAML file's if it has one and the label's otherwise.
\<close>

theorem ConfigToOCI_mounts_precedence:
  assumes "ConfigToOCI yl known img config idMap = Ok (spec, rt)"
    and "labelImage yl config = Ok lab"
  shows "\<exists>ts bs es.
    map_res parseTmpfs (assignStrings (ic_Tmpfs (img_Config lab)) (ic_Tmpfs (img_Config img)))
      = Ok ts \<and>
    map_res parseBind (assignStrings (mergeStrings (ic_Binds (img_Config lab))
      (ic_BindsAdd (img_Config img))) (ic_Binds (img_Config img))) = Ok bs \<and>
    map_res parseMount (assignBinds (ic_Mounts (img_Config lab)) (ic_Mounts (img_Config img)))
      = Ok es \<and>
    (\<forall>d. find (\<lambda>m. mnt_Destination m = d) (sp_Mounts spec) =
      find (\<lambda>m. mnt_Destination m = d)
        (rev (map snd (defaultMounts (root_Readonly (sp_Root spec))) @ ts @ bs @ es)))"
proof -
  from assms(1) obtain lab' ms where "labelImage yl config = Ok lab'" and
    o: "ociMounts (img_Config lab') (img_Config img) (root_Readonly (sp_Root spec)) = Ok ms"
    and m: "sp_Mounts spec = mountList ms"
    by (rule ConfigToOCI_Ok) (rule that)
  with assms(2) have "lab' = lab" by simp
  from o [unfolded this] show ?thesis
  proof (rule ociMounts_Ok)
    fix ts bs es
    assume parts: "map_res parseTmpfs (assignStrings (ic_Tmpfs (img_Config lab))
        (ic_Tmpfs (img_Config img))) = Ok ts"
      "map_res parseBind (assignStrings (mergeStrings (ic_Binds (img_Config lab))
        (ic_BindsAdd (img_Config img))) (ic_Binds (img_Config img))) = Ok bs"
      "map_res parseMount (assignBinds (ic_Mounts (img_Config lab)) (ic_Mounts (img_Config img)))
        = Ok es"
      and ok: "mounts_ok ms" and ms: "map_of ms = map_of (rev (map (\<lambda>m. (mnt_Destination m, m))
        (map snd (defaultMounts (root_Readonly (sp_Root spec))) @ ts @ bs @ es)))"
    have "find (\<lambda>m. mnt_Destination m = d) (sp_Mounts spec) =
        find (\<lambda>m. mnt_Destination m = d)
          (rev (map snd (defaultMounts (root_Readonly (sp_Root spec))) @ ts @ bs @ es))" for d
      by (simp only: m mountList_find [OF ok] ms rev_map map_of_find)
    with parts show ?thesis by blast
  qed
qed

theorem ConfigToOCI_mounts_precedence_witness:
  "\<exists>spec rt. demoOCI = Ok (spec, rt) \<and>
     find (\<lambda>m. mnt_Destination m = ''/dev'') (sp_Mounts spec) =
       Some (mount ''/dev'' ''bind'' ''/etc'' [''ro'', ''rbind''])"
proof -
  obtain spec rt where ok: "ConfigToOCI demoYaml [''net_raw'', ''net_admin''] demoImage
    demoSpecConfig Map.empty = Ok (spec, rt)" by (rule demo_obtain)
  from ConfigToOCI_mounts_precedence [OF ok demo_label]
  have "find (\<lambda>m. mnt_Destination m = ''/dev'') (sp_Mounts spec) =
      Some (mount ''/dev'' ''bind'' ''/etc'' [''ro'', ''rbind''])"
    by (auto simp: demoImage_def Image_zero_def ImageConfig_zero_def assign_second assign_neither
        parseMount_def parseBind_def parseTmpfs_def defaultMountpoint_def Let_def)
  with ok show ?thesis unfolding demoOCI_def by blast
qed

text \<open>
  C9. The capability sets of a generated specification: the bounding set is sorted, has no
  duplicates, holds only known capabilities, equals the inheritable and permitted sets and is
  exactly the union of the effective and the ambient set.
\<close>

theorem ConfigToOCI_capabilities:
  assumes "ConfigToOCI yl known img config idMap = Ok (spec, rt)"
    and "pr_Capabilities (sp_Process spec) = c"
  shows "sorted_wrt (<) (cap_Bounding c) \<and> cap_Inheritable c = cap_Bounding c \<and>
    cap_Permitted c = cap_Bounding c \<and>
    set (cap_Bounding c) = set (cap_Effective c) \<union> set (cap_Ambient c) \<and>
    set (cap_Bounding c) \<subseteq> set (getAllCapabilities known)"
proof -
  from assms obtain lab :: Image where
    "ociCapabilities (getAllCapabilities known) (img_Config lab) (img_Config img) = Ok c"
    by (auto elim: ConfigToOCI_Ok)
  then show ?thesis
    by (auto simp: ociCapabilities_def Let_def checkCap_loop fold_insert_set
        fold_insert_distinct strict_sorted_iff find_None_iff split: option.splits)
qed

theorem ConfigToOCI_capabilities_witness:
  "\<exists>spec rt. demoOCI = Ok (spec, rt) \<and>
     set (cap_Bounding (pr_Capabilities (sp_Process spec))) =
       set (cap_Effective (pr_Capabilities (sp_Process spec))) \<union>
       set (cap_Ambient (pr_Capabilities (sp_Process spec)))"
proof -
  obtain spec rt where "ConfigToOCI demoYaml [''net_raw'', ''net_admin''] demoImage demoSpecConfig
    Map.empty = Ok (spec, rt)" by (rule demo_obtain)
  with ConfigToOCI_capabilities [OF this refl] show ?thesis unfolding demoOCI_def by blast
qed

text \<open>
  C25. A resource limit written as name, soft and hard value is read back exactly, for every
  limit the code knows and every pair of unsigned 64-bit values.
\<close>

theorem parseRlimit_roundtrip:
  assumes "t \<in> set knownLimits" and "soft < 2 ^ 64" and "hard < 2 ^ 64"
  shows "parseRlimit xs (t @ '','' @ dec_digits soft @ '','' @ dec_digits hard) =
    Ok \<lparr>rl_Type = t, rl_Soft = of_nat soft, rl_Hard = of_nat hard\<rparr>"
  using assms by (intro parseRlimit_fields limitValue_dec dec_digits_no_comma)

theorem parseRlimit_roundtrip_witness:
  "parseRlimit [] (''RLIMIT_NOFILE'' @ '','' @ dec_digits 1024 @ '','' @ dec_digits 4096) =
     Ok \<lparr>rl_Type = ''RLIMIT_NOFILE'', rl_Soft = of_nat 1024, rl_Hard = of_nat 4096\<rparr>"
  by (rule parseRlimit_roundtrip) (simp_all add: knownLimits_def)

text \<open>
  C26. Devices: every configured device adds one allow rule, after the rules the resources
  section already has and in order; the devices that are not \<^verbatim>\<open>all\<close> are created in order, and
  the rules that name a device number are exactly the ones of the created devices.
\<close>

theorem ConfigToOCI_devices:
  assumes "ConfigToOCI yl known img config idMap = Ok (spec, rt)"
    and "labelImage yl config = Ok lab"
  shows "\<exists>rules. lres_Devices (lx_Resources (sp_Linux spec)) =
      lres_Devices (assignResources (ic_Resources (img_Config lab))
        (ic_Resources (img_Config img))) @ rules \<and>
    map ldc_Type rules =
      map dev_Type (assignDevices (ic_Devices (img_Config lab)) (ic_Devices (img_Config img))) \<and>
    list_all (\<lambda>r. ldc_Allow r \<and> ldc_Access r = ''rwm'') rules \<and>
    filter (\<lambda>r. ldc_Major r \<noteq> None) rules = map deviceCgroup (lx_Devices (sp_Linux spec)) \<and>
    map ld_Path (lx_Devices (sp_Linux spec)) = map dev_Path (filter (\<lambda>d. dev_Path d \<noteq> ''all'')
      (assignDevices (ic_Devices (img_Config lab)) (ic_Devices (img_Config img))))"
proof -
  from assms obtain
    "loop_res addDevice (assignDevices (ic_Devices (img_Config lab)) (ic_Devices (img_Config img)))
       (assignResources (ic_Resources (img_Config lab)) (ic_Resources (img_Config img)), []) =
       Ok (lx_Resources (sp_Linux spec), lx_Devices (sp_Linux spec))"
    by (auto elim!: ConfigToOCI_Ok)
  from addDevice_loop [OF this] show ?thesis by auto
qed

theorem ConfigToOCI_devices_witness:
  "\<exists>spec rt. demoOCI = Ok (spec, rt) \<and>
     map ld_Path (lx_Devices (sp_Linux spec)) = [''/dev/console''] \<and>
     map ldc_Type (lres_Devices (lx_Resources (sp_Linux spec))) = [''b'', ''c'']"
proof -
  obtain spec rt where ok: "ConfigToOCI demoYaml [''net_raw'', ''net_admin''] demoImage
    demoSpecConfig Map.empty = Ok (spec, rt)" by (rule demo_obtain)
  from ConfigToOCI_devices [OF ok demo_label]
  have "map ld_Path (lx_Devices (sp_Linux spec)) = [''/dev/console''] \<and>
     map ldc_Type (lres_Devices (lx_Resources (sp_Linux spec))) = [''b'', ''c'']"
    by (auto simp: demoImage_def Image_zero_def ImageConfig_zero_def assign_second assign_neither
        LinuxResources_zero_def)
  with ok show ?thesis unfolding demoOCI_def by auto
qed

text \<open>
  Namespaces: the list has at most one entry of each type, always ends with a fresh mount
  namespace, and by default has a fresh pid namespace besides; an entry for the network exists
  unless \<^verbatim>\<open>host\<close> or \<^verbatim>\<open>root\<close> is chosen, and its path is empty exactly when a new one is asked for.
\<close>

theorem ociNamespaces_shape:
  "distinct (map lns_Type (ociNamespaces label yaml)) \<and>
    last (ociNamespaces label yaml) = \<lparr>lns_Type = ''mount'', lns_Path = []\<rparr> \<and>
    ociNamespaces ImageConfig_zero ImageConfig_zero =
      [\<lparr>lns_Type = ''pid'', lns_Path = []\<rparr>, \<lparr>lns_Type = ''mount'', lns_Path = []\<rparr>] \<and>
    map_of (map (\<lambda>n. (lns_Type n, lns_Path n)) (ociNamespaces label yaml)) ''network'' =
      (let ns = assignStringEmpty3 ''root'' (ic_Net label) (ic_Net yaml) in
       if ns = ''host'' \<or> ns = ''root'' then None
       else if ns = ''none'' \<or> ns = ''new'' then Some [] else Some ns)"
proof -
  have types: "addNS tp fresh ns = [] \<or> map lns_Type (addNS tp fresh ns) = [tp]" for tp fresh ns
    by (simp add: addNS_def)
  have net: "map_of (map (\<lambda>n. (lns_Type n, lns_Path n)) (addNS tp fresh ns)) ''network'' = None"
    if "tp \<noteq> ''network''" for tp fresh ns
    using that by (simp add: addNS_def)
  have "map_of (map (\<lambda>n. (lns_Type n, lns_Path n)) (ociNamespaces label yaml)) ''network'' =
      (let ns = assignStringEmpty3 ''root'' (ic_Net label) (ic_Net yaml) in
       if ns = ''host'' \<or> ns = ''root'' then None
       else if ns = ''none'' \<or> ns = ''new'' then Some [] else Some ns)"
    by (simp add: ociNamespaces_def net Let_def map_add_def) (simp add: addNS_def)
  moreover have "ociNamespaces ImageConfig_zero ImageConfig_zero =
      [\<lparr>lns_Type = ''pid'', lns_Path = []\<rparr>, \<lparr>lns_Type = ''mount'', lns_Path = []\<rparr>]"
    by (simp add: ociNamespaces_def ImageConfig_zero_def addNS_def assignStringEmpty_def
        assignStringEmpty3_def)
  moreover have "distinct (map lns_Type (ociNamespaces label yaml))"
    unfolding ociNamespaces_def map_append
    using types [of "''network''" "[''none'', ''new'']"
        "assignStringEmpty3 ''root'' (ic_Net label) (ic_Net yaml)"]
      types [of "''ipc''" "[''new'']" "assignStringEmpty3 ''root'' (ic_Ipc label) (ic_Ipc yaml)"]
      types [of "''uts''" "[''new'']" "assignStringEmpty3 ''root'' (ic_Uts label) (ic_Uts yaml)"]
      types [of "''pid''" "[''new'']" "assignStringEmpty (ic_Pid label) (ic_Pid yaml)"]
      types [of "''user''" "[''new'']"
        "assignStringEmpty3 ''root'' (ic_Userns label) (ic_Userns yaml)"]
    by (elim disjE) simp_all
  ultimately show ?thesis by (simp add: ociNamespaces_def)
qed

end
