(* ===== verification/Volumes.thy ===== *)
theory Volumes
  imports Moby_OCI
begin

text \<open>
  Replacing volume names by directories in the mounts and binds of an image,
  \<^verbatim>\<open>moby/build/volume.go\<close>.
\<close>

section \<open>Definitions\<close>

text \<open>The loop over the options of a mount: the first of \<^verbatim>\<open>rw\<close> and \<^verbatim>\<open>ro\<close> decides.\<close>

fun foundReadOnly :: "string list \<Rightarrow> bool" where
  "foundReadOnly [] = False"
| "foundReadOnly (opt # opts) =
     (if opt = ''rw'' then False else if opt = ''ro'' then True else foundReadOnly opts)"

text \<open>
  The body of the loop over the mounts.  Its last statement assigns the directory to the loop
  variable, a copy of the element, so all that is left of it is the checks.
\<close>

definition checkMount :: "Moby \<Rightarrow> nat \<times> Mount \<Rightarrow> unit \<Rightarrow> unit res" where
  "checkMount m im u =
     (case im of (i, mnt) \<Rightarrow>
      if mnt_Type mnt \<noteq> ''bind'' then Ok ()
      else if has_prefix (mnt_Source mnt) ''/'' then Ok ()
      else case VolByName m (mnt_Source mnt) of
        None \<Rightarrow> Err (''volume '' @ mnt_Source mnt @ '' not found in onboot image mount '' @ dec_digits i)
      | Some vol \<Rightarrow>
          if vol_ReadOnly vol \<and> \<not> foundReadOnly (mnt_Options mnt)
          then Err (''volume '' @ mnt_Source mnt @
                 '' is read-only, but attempting to write into container read-write'')
          else Ok ())"

text \<open>The body of the loops over \<^verbatim>\<open>Binds\<close> and \<^verbatim>\<open>BindsAdd\<close>.\<close>

definition volumeBind :: "Moby \<Rightarrow> nat \<times> string \<Rightarrow> string res" where
  "volumeBind m ib =
     (case ib of (i, bind) \<Rightarrow>
      let parts = split_on (CHR '':'') bind; source = hd parts in
      if has_prefix source ''/'' then Ok bind
      else case VolByName m source of
        None \<Rightarrow> Err (''volume '' @ source @ '' not found in onboot image bin '' @ dec_digits i)
      | Some vol \<Rightarrow>
          if vol_ReadOnly vol \<and> (length parts < 3 \<or> parts ! 2 \<noteq> ''ro'')
          then Err (''volume '' @ source @
                 '' is read-only, but attempting to write into container read-write'')
          else Ok (join '':'' (parts[0 := MergedDir vol])))"

definition volumeBinds :: "Moby \<Rightarrow> string list option \<Rightarrow> string list option res" where
  "volumeBinds m binds =
     (case binds of
        None \<Rightarrow> Ok None
      | Some bs \<Rightarrow> bind_res (map_res (volumeBind m) (enumerate 0 bs)) (\<lambda>bs. Ok (Some bs)))"

definition updateMountsAndBindsFromVolumes :: "Image \<Rightarrow> Moby \<Rightarrow> Image res" where
  "updateMountsAndBindsFromVolumes img m =
     (let c = img_Config img in
      bind_res (case ic_Mounts c of
                  None \<Rightarrow> Ok ()
                | Some ms \<Rightarrow> loop_res (checkMount m) (enumerate 0 ms) ())
      (\<lambda>_. bind_res (volumeBinds m (ic_Binds c))
      (\<lambda>binds. bind_res (volumeBinds m (ic_BindsAdd c))
      (\<lambda>bindsAdd. Ok (img\<lparr>img_Config := c\<lparr>ic_Binds := binds, ic_BindsAdd := bindsAdd\<rparr>\<rparr>)))))"

section \<open>The characters of a path\<close>

lemma split_on_chars: "p \<in> set (split_on c s) \<Longrightarrow> set p \<subseteq> set s"
proof (induction s arbitrary: p)
  case (Cons x s)
  show ?case
  proof (cases "x = c")
    case True
    with Cons show ?thesis by fastforce
  next
    case False
    obtain q qs where "split_on c s = q # qs" by (cases "split_on c s") simp_all
    with Cons False show ?thesis by fastforce
  qed
qed simp

lemma set_join: "set (join sep xs) \<subseteq> set sep \<union> \<Union> (set ` set xs)"
  by (induction xs) (auto simp: join_Cons)

lemma norm_comps_elems: "set (norm_comps r st cs) \<subseteq> set st \<union> set cs \<union> {''..''}"
proof (induction r st cs rule: norm_comps.induct)
  case (2 r st c cs)
  then show ?case by (cases st) (auto split: if_splits)
qed auto

lemma path_clean_chars: "set (path_clean s) \<subseteq> set s \<union> {CHR ''/'', CHR ''.''}"
proof -
  have "set c \<subseteq> set s \<union> {CHR ''.''}" if "c \<in> set (comps s)" for c
  proof -
    from that norm_comps_elems [of "rooted s" "[]" "split_on (CHR ''/'') s"]
    have "c \<in> set (split_on (CHR ''/'') s) \<or> c = ''..''" by (auto simp: comps_def)
    then show ?thesis using split_on_chars [of c "CHR ''/''" s] by auto
  qed
  then show ?thesis
    using set_join [of "''/''" "comps s"] by (auto simp: path_clean_def path_string_def)
qed

lemma path_join_chars: "set (path_join es) \<subseteq> \<Union> (set ` set es) \<union> {CHR ''/'', CHR ''.''}"
proof -
  let ?es = "dropWhile (\<lambda>e. e = []) es"
  have "set (join ''/'' ?es) \<subseteq> \<Union> (set ` set es) \<union> {CHR ''/''}"
    using set_join [of "''/''" ?es] set_dropWhileD [of _ "\<lambda>e. e = []" es] by auto
  then show ?thesis
    using path_clean_chars [of "join ''/'' ?es"] by (auto simp: path_join_def Let_def)
qed

lemma nameRE_no_colon: "nameRE name \<Longrightarrow> CHR '':'' \<notin> set name"
  by (auto simp: nameRE_def nameRE_char_def list_all_iff)

lemma MergedDir_no_colon:
  assumes "nameRE (vol_Name v)"
  shows "CHR '':'' \<notin> set (MergedDir v)"
proof -
  have "CHR '':'' \<notin> set allVolumesBaseDir" "CHR '':'' \<notin> set ''merged''"
    by (simp_all add: allVolumesBaseDir_def)
  then show ?thesis
    using nameRE_no_colon [OF assms] path_join_chars [of "[volumeBaseDir (vol_Name v), ''merged'']"]
      path_join_chars [of "[allVolumesBaseDir, vol_Name v]"]
    by (auto simp: MergedDir_def volumeMergedDir_def volumeBaseDir_def)
qed

section \<open>What a bind becomes\<close>

text \<open>
  A bind of an absolute path is kept; any other names a volume of the configuration, whose
  directory is mounted at the same place with the same options, and if the volume is read-only
  the mount made of it is read-only too.
\<close>

definition rebound :: "Moby \<Rightarrow> string \<Rightarrow> string \<Rightarrow> bool" where
  "rebound m b b' \<longleftrightarrow>
     (let parts = split_on (CHR '':'') b in
      if has_prefix (hd parts) ''/'' then b' = b
      else \<exists>vol. vol \<in> set (mb_Volumes m) \<and> vol_Name vol = hd parts \<and>
             split_on (CHR '':'') b' = MergedDir vol # tl parts \<and>
             (vol_ReadOnly vol \<longrightarrow>
               (\<forall>mt. parseBind b' = Ok mt \<longrightarrow>
                  mt = mount (parts ! 1) ''bind'' (MergedDir vol) [''ro'', ''rbind''])))"

lemma wf_VolByName:
  assumes "wf_Moby refParse m" and "VolByName m name = Some vol"
  shows "vol \<in> set (mb_Volumes m)" "vol_Name vol = name" "nameRE (vol_Name vol)"
  using assms by (auto simp: wf_Moby_def VolByName_def list_all_iff dest!: map_of_SomeD)

lemma volumeBind_rebound:
  assumes wf: "wf_Moby refParse m" and ok: "volumeBind m (i, b) = Ok b'"
  shows "rebound m b b'"
proof -
  let ?parts = "split_on (CHR '':'') b"
  obtain src rest where parts: "?parts = src # rest" by (cases ?parts) simp_all
  show ?thesis
  proof (cases "has_prefix src ''/''")
    case True
    with ok parts show ?thesis by (simp add: rebound_def volumeBind_def Let_def)
  next
    case False
    with ok parts obtain vol where vol: "VolByName m src = Some vol"
      and ro: "vol_ReadOnly vol \<Longrightarrow> \<not> length ?parts < 3 \<and> ?parts ! 2 = ''ro''"
      and b': "b' = join '':'' (MergedDir vol # rest)"
      by (auto simp: volumeBind_def Let_def split: option.splits if_splits)
    note v = wf_VolByName [OF wf vol]
    have "list_all (\<lambda>p. CHR '':'' \<notin> set p) (MergedDir vol # rest)"
      using MergedDir_no_colon [OF v(3)] split_on_no_sep [of _ "CHR '':''" b] parts
      by (auto simp: list_all_iff)
    then have split: "split_on (CHR '':'') b' = MergedDir vol # rest"
      by (auto simp: b' list_all_iff intro!: split_on_join)
    have "mt = mount (rest ! 0) ''bind'' (MergedDir vol) [''ro'', ''rbind'']"
      if "vol_ReadOnly vol" "parseBind b' = Ok mt" for mt
    proof -
      from ro [OF that(1)] parts obtain d t where rest: "rest = d # ''ro'' # t"
        by (cases rest; cases "tl rest") auto
      have "split_on (CHR '','') ''ro'' = [''ro'']" by simp
      then show ?thesis
        using that(2) by (cases t) (simp_all add: parseBind_def split rest)
    qed
    then show ?thesis
      using False v split by (auto simp: rebound_def Let_def parts)
  qed
qed

lemma volumeBinds_rebound:
  assumes "wf_Moby refParse m" and "volumeBinds m (Some bs) = Ok bs'"
  shows "\<exists>xs. bs' = Some xs \<and> list_all2 (rebound m) bs xs"
proof -
  from assms(2) obtain xs where bs': "bs' = Some xs"
    and xs: "list_all2 (\<lambda>x y. volumeBind m x = Ok y) (enumerate 0 bs) xs"
    by (auto simp: volumeBinds_def map_res_Ok_iff)
  then have "list_all2 (rebound m) bs xs"
    using volumeBind_rebound [OF assms(1)]
    by (auto simp: list_all2_conv_all_nth nth_enumerate_eq)
  with bs' show ?thesis by blast
qed

section \<open>Properties\<close>

definition demoVolume :: Volume where
  "demoVolume = \<lparr>vol_Name = ''data'', vol_Image = [], vol_ReadOnly = True, vol_Format = [],
     vol_Platforms = [], vol_ref = None\<rparr>"

definition demoVolumes :: Moby where
  "demoVolumes = Moby_zero\<lparr>mb_Volumes := [demoVolume], mb_vols := [''data'' \<mapsto> demoVolume]\<rparr>"

definition demoBinds :: "string list \<Rightarrow> Image" where
  "demoBinds bs = Image_zero\<lparr>img_Config := ImageConfig_zero\<lparr>ic_Binds := Some bs\<rparr>\<rparr>"

text \<open>
  C31. Binding volumes by name is safe: in an image that is accepted, every bind keeps its
  absolute path or is turned into a bind of the merged directory of the volume it names, with
  the same target and options, and a bind of a read-only volume can only become a read-only
  mount.
\<close>

theorem update_binds:
  assumes "wf_Moby refParse m" and "updateMountsAndBindsFromVolumes img m = Ok img'"
    and "ic_Binds (img_Config img) = Some bs"
  shows "\<exists>bs'. ic_Binds (img_Config img') = Some bs' \<and> list_all2 (rebound m) bs bs'"
proof -
  from assms(2,3) obtain bs' where "volumeBinds m (Some bs) = Ok bs'"
    and "ic_Binds (img_Config img') = bs'"
    by (auto simp: updateMountsAndBindsFromVolumes_def Let_def)
  then show ?thesis using volumeBinds_rebound [OF assms(1)] by blast
qed

lemma demoVolumes_wf: "wf_Moby demoRef demoVolumes"
  by (simp add: wf_Moby_def demoVolumes_def demoVolume_def Moby_zero_def nameRE_def nameRE_char_def)

lemma demo_update:
  "is_ok (updateMountsAndBindsFromVolumes (demoBinds [''data:/var/lib:ro'', ''/dev:/dev'']) demoVolumes)"
  by code_simp

theorem update_binds_witness:
  "\<exists>img'. updateMountsAndBindsFromVolumes (demoBinds [''data:/var/lib:ro'', ''/dev:/dev'']) demoVolumes = Ok img' \<and>
     (\<exists>bs'. ic_Binds (img_Config img') = Some bs' \<and>
        list_all2 (rebound demoVolumes) [''data:/var/lib:ro'', ''/dev:/dev''] bs')"
proof -
  obtain img' where ok: "updateMountsAndBindsFromVolumes (demoBinds [''data:/var/lib:ro'', ''/dev:/dev'']) demoVolumes = Ok img'"
    using demo_update unfolding is_ok_iff by blast
  have "ic_Binds (img_Config (demoBinds bs)) = Some bs" for bs by (simp add: demoBinds_def)
  from update_binds [OF demoVolumes_wf ok this] ok show ?thesis by blast
qed

text \<open>
  The mounts, unlike the binds, are never rewritten: a mount whose source is the name of a volume
  keeps that name.
\<close>

lemma update_mounts_unchanged:
  "updateMountsAndBindsFromVolumes img m = Ok img' \<Longrightarrow>
     ic_Mounts (img_Config img') = ic_Mounts (img_Config img)"
  by (auto simp: updateMountsAndBindsFromVolumes_def Let_def)

end
