(* ===== verification/Apk_Tar.thy ===== *)
theory Apk_Tar
  imports Tar
begin

text \<open>
  The tar writer that collects the package databases of the init images,
  \<^verbatim>\<open>moby/apk_tarwriter.go\<close>, and the PAX record names of \<^verbatim>\<open>moby/const.go\<close>.
\<close>

section \<open>Definitions\<close>

definition PaxRecordLinuxkitSource :: string where
  "PaxRecordLinuxkitSource = ''LINUXKIT.source''"

definition PaxRecordLinuxkitLocation :: string where
  "PaxRecordLinuxkitLocation = ''LINUXKIT.location''"

text \<open>A literal \<^verbatim>\<open>map[string]string\<close> with both records.\<close>

definition pax_records :: "string \<Rightarrow> string \<Rightarrow> (string \<times> string) list option" where
  "pax_records source location =
     Some [(PaxRecordLinuxkitSource, source), (PaxRecordLinuxkitLocation, location)]"

definition apkInstalledPath :: string where
  "apkInstalledPath = ''lib/apk/db/installed''"

record apkTarWriter =
  apk_Writer :: tarw
  apk_dbs :: "string list"
  apk_current :: "string option"
  apk_location :: string

definition NewAPKTarWriter :: "tarw \<Rightarrow> string \<Rightarrow> apkTarWriter" where
  "NewAPKTarWriter w location =
     \<lparr>apk_Writer = w, apk_dbs = [], apk_current = None, apk_location = location\<rparr>"

text \<open>The first statement of \<^verbatim>\<open>WriteHeader\<close> and of \<^verbatim>\<open>Close\<close>: store the database read so far.\<close>

definition apk_store :: "apkTarWriter \<Rightarrow> apkTarWriter" where
  "apk_store a =
     (case apk_current a of
        None \<Rightarrow> a
      | Some b \<Rightarrow> a\<lparr>apk_dbs := apk_dbs a @ [b], apk_current := None\<rparr>)"

definition apk_WriteHeader :: "tar_hdr \<Rightarrow> apkTarWriter \<Rightarrow> apkTarWriter res" where
  "apk_WriteHeader hdr a =
     (let a = apk_store a;
          a = (if th_Name hdr = apkInstalledPath then a\<lparr>apk_current := Some []\<rparr> else a)
      in bind_res (tw_WriteHeader hdr (apk_Writer a)) (\<lambda>w. Ok (a\<lparr>apk_Writer := w\<rparr>)))"

definition apk_Write :: "string \<Rightarrow> apkTarWriter \<Rightarrow> apkTarWriter res" where
  "apk_Write b a =
     (let a = (case apk_current a of None \<Rightarrow> a | Some c \<Rightarrow> a\<lparr>apk_current := Some (c @ b)\<rparr>)
      in bind_res (tw_Write b (apk_Writer a)) (\<lambda>w. Ok (a\<lparr>apk_Writer := w\<rparr>)))"

definition apk_Flush :: "apkTarWriter \<Rightarrow> apkTarWriter res" where
  "apk_Flush a = bind_res (tw_Flush (apk_Writer a)) (\<lambda>w. Ok (a\<lparr>apk_Writer := w\<rparr>))"

definition apk_db_hdr :: "string list \<Rightarrow> string \<Rightarrow> tar_hdr" where
  "apk_db_hdr dbs location =
     Header\<lparr>th_Name := apkInstalledPath, th_Mode := 420, th_Uid := 0, th_Gid := 0,
       th_Typeflag := TypeReg, th_Size := sum_list (map (\<lambda>db. length db + 2) dbs),
       th_PAXRecords := pax_records ''LINUXKIT.apkinit'' location\<rparr>"

definition apk_write_dbs :: "string list \<Rightarrow> tarw \<Rightarrow> tarw res" where
  "apk_write_dbs dbs w =
     loop_res (\<lambda>db w. bind_res (tw_Write db w) (tw_Write [CHR 0x0A, CHR 0x0A])) dbs w"

definition WriteAPKDB :: "apkTarWriter \<Rightarrow> apkTarWriter res" where
  "WriteAPKDB a =
     bind_res
       (if length (apk_dbs a) > 1
        then bind_res (tw_WriteHeader (apk_db_hdr (apk_dbs a) (apk_location a)) (apk_Writer a))
               (apk_write_dbs (apk_dbs a))
        else Ok (apk_Writer a))
       (\<lambda>w. Ok (a\<lparr>apk_Writer := w, apk_dbs := []\<rparr>))"

definition apk_Close :: "apkTarWriter \<Rightarrow> apkTarWriter res" where
  "apk_Close a =
     bind_res (WriteAPKDB (apk_store a))
       (\<lambda>a. bind_res (tw_Close (apk_Writer a)) (\<lambda>w. Ok (a\<lparr>apk_Writer := w\<rparr>)))"

definition apkWriter :: "apkTarWriter tarWriter" where
  "apkWriter =
     \<lparr>w_WriteHeader = apk_WriteHeader, w_Write = apk_Write, w_Flush = apk_Flush,
      w_Close = apk_Close\<rparr>"

section \<open>The wrapper passes everything through\<close>

interpretation apkw: tar_writer apkWriter
proof unfold_locales
  fix a b and w :: apkTarWriter
  show "w_Write apkWriter (a @ b) w = bind_res (w_Write apkWriter a w) (w_Write apkWriter b)"
    using tarw.write_append [of a b "apk_Writer w"]
    by (cases "tw_Write a (apk_Writer w)"; cases "apk_current w")
      (simp_all add: apkWriter_def apk_Write_def Let_def bind_res_assoc)
qed

lemma apkWriter_sel [simp]:
  "w_WriteHeader apkWriter = apk_WriteHeader" "w_Write apkWriter = apk_Write"
  by (simp_all add: apkWriter_def)

lemma apk_store_Writer [simp]:
  "apk_Writer (apk_store a) = apk_Writer a" "apk_location (apk_store a) = apk_location a"
  by (simp_all add: apk_store_def split: option.splits)

lemma do_op_apk:
  "do_op apkWriter op a = Ok a' \<Longrightarrow> do_op tarWriter op (apk_Writer a) = Ok (apk_Writer a')"
  by (cases op) (auto simp: apk_WriteHeader_def apk_Write_def Let_def split: option.splits if_splits)

lemma do_op_apk_ok:
  "is_ok (do_op apkWriter op a) \<longleftrightarrow> is_ok (do_op tarWriter op (apk_Writer a))"
  by (cases op) (auto simp: apk_WriteHeader_def apk_Write_def Let_def split: option.splits)

lemma run_apk:
  "run_ops apkWriter ops a = Ok a' \<Longrightarrow> run_ops tarWriter ops (apk_Writer a) = Ok (apk_Writer a')"
proof (induction ops arbitrary: a)
  case (Cons op ops)
  then show ?case by (auto simp: run_ops_Cons dest: do_op_apk)
qed simp

lemma run_apk_ok:
  "is_ok (run_ops apkWriter ops a) \<longleftrightarrow> is_ok (run_ops tarWriter ops (apk_Writer a))"
proof (induction ops arbitrary: a)
  case (Cons op ops)
  show ?case
  proof (cases "do_op apkWriter op a")
    case (Ok a')
    with Cons.IH [of a'] do_op_apk [OF Ok] show ?thesis by (simp add: run_ops_Cons)
  qed (use do_op_apk_ok [of op a] in \<open>auto simp: run_ops_Cons is_ok_bind is_ok_iff\<close>)
qed simp

section \<open>The databases a script installs\<close>

text \<open>The contents of every entry of a script that is an installed database, in order.\<close>

fun databases :: "string list \<Rightarrow> string option \<Rightarrow> tar_op list \<Rightarrow> string list" where
  "databases dbs cur [] = dbs @ (case cur of None \<Rightarrow> [] | Some b \<Rightarrow> [b])"
| "databases dbs cur (Hdr h # ops) =
     databases (dbs @ (case cur of None \<Rightarrow> [] | Some b \<Rightarrow> [b]))
       (if th_Name h = apkInstalledPath then Some [] else None) ops"
| "databases dbs cur (Data d # ops) =
     databases dbs (case cur of None \<Rightarrow> None | Some b \<Rightarrow> Some (b @ d)) ops"

lemma run_apk_databases:
  assumes "run_ops apkWriter ops a = Ok a'"
  shows "apk_dbs (apk_store a') = databases (apk_dbs a) (apk_current a) ops"
    and "apk_location a' = apk_location a"
proof -
  have "apk_dbs (apk_store a') = databases (apk_dbs a) (apk_current a) ops \<and>
      apk_location a' = apk_location a"
    using assms
  proof (induction ops arbitrary: a)
    case Nil
    then show ?case by (auto simp: apk_store_def split: option.splits)
  next
    case (Cons op ops)
    from Cons.prems obtain a1 where 1: "do_op apkWriter op a = Ok a1" "run_ops apkWriter ops a1 = Ok a'"
      by (auto simp: run_ops_Cons)
    from Cons.IH [OF 1(2)] 1(1) show ?case
      by (cases op; cases "apk_current a")
        (auto simp: apk_WriteHeader_def apk_Write_def apk_store_def Let_def)
  qed
  then show "apk_dbs (apk_store a') = databases (apk_dbs a) (apk_current a) ops"
    and "apk_location a' = apk_location a" by simp_all
qed

section \<open>Writing the union\<close>

definition db_union :: "string list \<Rightarrow> string" where
  "db_union dbs = concat (map (\<lambda>db. db @ [CHR 0x0A, CHR 0x0A]) dbs)"

lemma length_db_union: "length (db_union dbs) = sum_list (map (\<lambda>db. length db + 2) dbs)"
  by (induction dbs) (simp_all add: db_union_def)

lemma apk_write_dbs_run:
  "apk_write_dbs dbs w = run_ops tarWriter (concat (map (\<lambda>db. [Data db, Data [CHR 0x0A, CHR 0x0A]]) dbs)) w"
  unfolding apk_write_dbs_def
  by (rule loop_res_run_ops) (simp add: run_ops_Cons run_ops_single_eta do_op_eta)

lemma leaves_data:
  "leaves n (concat (map (\<lambda>db. [Data db, Data [CHR 0x0A, CHR 0x0A]]) dbs)) =
     (if length (db_union dbs) \<le> n then Some (n - length (db_union dbs)) else None)"
  by (induction dbs arbitrary: n) (auto simp: db_union_def)

lemma written_data:
  "written (es @ [(h, b)]) (concat (map (\<lambda>db. [Data db, Data [CHR 0x0A, CHR 0x0A]]) dbs)) =
     es @ [(h, b @ db_union dbs)]"
  by (induction dbs arbitrary: b) (simp_all add: db_union_def app_data_snoc)

lemma WriteAPKDB_Ok:
  assumes "\<not> tw_closed (apk_Writer a)" and "tw_left (apk_Writer a) = 0"
  shows "WriteAPKDB a = Ok (a\<lparr>apk_dbs := [], apk_Writer := (apk_Writer a)\<lparr>tw_out := tw_out (apk_Writer a) @
    (if length (apk_dbs a) > 1
     then [(norm_hdr (apk_db_hdr (apk_dbs a) (apk_location a)), db_union (apk_dbs a))] else [])\<rparr>\<rparr>)"
proof -
  let ?h = "apk_db_hdr (apk_dbs a) (apk_location a)"
  have pay: "payload ?h = length (db_union (apk_dbs a))"
    by (simp add: payload_reg apk_db_hdr_def length_db_union)
  have "tw_WriteHeader ?h (apk_Writer a) = Ok ((apk_Writer a)
      \<lparr>tw_out := tw_out (apk_Writer a) @ [(norm_hdr ?h, [])], tw_left := payload ?h\<rparr>)"
    using assms by (simp add: tw_WriteHeader_def tw_Flush_def)
  moreover have "apk_write_dbs (apk_dbs a) ((apk_Writer a)
      \<lparr>tw_out := tw_out (apk_Writer a) @ [(norm_hdr ?h, [])], tw_left := payload ?h\<rparr>) =
      Ok ((apk_Writer a)\<lparr>tw_out := tw_out (apk_Writer a) @ [(norm_hdr ?h, db_union (apk_dbs a))]\<rparr>)"
    using assms by (simp add: apk_write_dbs_run run_tarWriter leaves_data written_data pay)
  ultimately show ?thesis by (simp add: WriteAPKDB_def)
qed

lemma apk_Close_Ok:
  assumes "\<not> tw_closed (apk_Writer a)" and "tw_left (apk_Writer a) = 0"
  shows "\<exists>a'. apk_Close a = Ok a' \<and> tw_closed (apk_Writer a') \<and>
    tw_out (apk_Writer a') = tw_out (apk_Writer a) @
      (let dbs = apk_dbs (apk_store a) in
       if length dbs > 1 then [(norm_hdr (apk_db_hdr dbs (apk_location a)), db_union dbs)] else [])"
  using assms by (simp add: apk_Close_def WriteAPKDB_Ok tw_Close_def tw_Flush_def Let_def)

section \<open>Properties\<close>

text \<open>
  C11. Collecting databases is invisible to the archive: the wrapped writer accepts exactly the
  scripts a plain \<^verbatim>\<open>tar.Writer\<close> accepts, and the wrapped archive is the one the plain writer
  would have produced.
\<close>

theorem apk_refines_tar:
  "is_ok (run_ops apkWriter ops a) = is_ok (run_ops tarWriter ops (apk_Writer a)) \<and>
   (\<forall>a'. run_ops apkWriter ops a = Ok a' \<longrightarrow>
     run_ops tarWriter ops (apk_Writer a) = Ok (apk_Writer a'))"
  using run_apk_ok run_apk by blast

theorem apk_refines_tar_witness:
  "\<exists>a'. run_ops apkWriter [Hdr Header, Data []] (NewAPKTarWriter NewWriter ''init'') = Ok a' \<and>
     run_ops tarWriter [Hdr Header, Data []] NewWriter = Ok (apk_Writer a')"
proof -
  have "is_ok (run_ops apkWriter [Hdr Header, Data []] (NewAPKTarWriter NewWriter ''init''))"
    by (subst run_apk_ok) (simp add: is_ok_iff NewAPKTarWriter_def NewWriter_def run_tarWriter)
  then show ?thesis
    using apk_refines_tar [of "[Hdr Header, Data []]" "NewAPKTarWriter NewWriter ''init''"]
    by (auto simp: is_ok_iff NewAPKTarWriter_def)
qed

text \<open>
  C28. Closing writes the union: after a complete script, the archive is what the script wrote
  followed, when it installed at least two databases, by one database entry that holds all of
  them in order, each followed by two newlines; the size announced for it is exact, so the
  write cannot fail.
\<close>

theorem apk_close_union:
  assumes "run_ops apkWriter ops (NewAPKTarWriter w location) = Ok a"
    and "\<not> tw_closed w" and "leaves (tw_left w) ops = Some 0"
  shows "\<exists>a'. apk_Close a = Ok a' \<and> tw_out (apk_Writer a') = written (tw_out w) ops @
    (let dbs = databases [] None ops in
     if length dbs > 1 then [(norm_hdr (apk_db_hdr dbs location), db_union dbs)] else [])"
proof -
  have "run_ops tarWriter ops w = Ok (apk_Writer a)"
    using run_apk [OF assms(1)] by (simp add: NewAPKTarWriter_def)
  then have w: "apk_Writer a = w\<lparr>tw_out := written (tw_out w) ops, tw_left := 0\<rparr>"
    using assms(2,3) by (simp add: run_tarWriter)
  with run_apk_databases [OF assms(1)] assms(2) apk_Close_Ok [of a]
  show ?thesis by (auto simp: NewAPKTarWriter_def Let_def)
qed

theorem apk_close_union_witness:
  "\<exists>a a'. run_ops apkWriter [Hdr (Header\<lparr>th_Name := apkInstalledPath, th_Size := 1\<rparr>), Data ''a'']
        (NewAPKTarWriter NewWriter ''init'') = Ok a \<and> apk_Close a = Ok a' \<and>
     length (tw_out (apk_Writer a')) = 1"
proof -
  let ?ops = "[Hdr (Header\<lparr>th_Name := apkInstalledPath, th_Size := 1\<rparr>), Data ''a'']"
  have l: "leaves (tw_left NewWriter) ?ops = Some 0"
    by (simp add: NewWriter_def payload_old Header_def apkInstalledPath_def ends_slash_def)
  have "is_ok (run_ops apkWriter ?ops (NewAPKTarWriter NewWriter ''init''))"
    using l by (subst run_apk_ok) (simp add: is_ok_iff NewAPKTarWriter_def NewWriter_def run_tarWriter)
  then obtain a where a: "run_ops apkWriter ?ops (NewAPKTarWriter NewWriter ''init'') = Ok a"
    unfolding is_ok_iff by blast
  moreover have "\<not> tw_closed NewWriter" by (simp add: NewWriter_def)
  ultimately show ?thesis
    using apk_close_union [OF a _ l] by (auto simp: NewWriter_def)
qed

text \<open>
  Writing the databases without closing leaves out one that is still being read: it is only
  stored by the next header.
\<close>

lemma WriteAPKDB_current:
  assumes "\<not> tw_closed (apk_Writer a)" and "tw_left (apk_Writer a) = 0"
    and "apk_dbs a = [db1]" and "apk_current a = Some db2"
  shows "\<exists>a'. WriteAPKDB a = Ok a' \<and> tw_out (apk_Writer a') = tw_out (apk_Writer a) \<and> apk_dbs a' = []"
  using WriteAPKDB_Ok [OF assms(1,2)] assms(3) by simp

end
