(* ===== verification/Image_Tar.thy ===== *)
theory Image_Tar
  imports Moby_OCI Apk_Tar
begin

text \<open>
  Unpacking images into the output archive, \<^verbatim>\<open>moby/build/image.go\<close>, and the collection of
  software bills of materials, \<^verbatim>\<open>moby/build/sbom.go\<close>.  What the builder asks of registries,
  caches, the file system and the marshalling libraries are the fields of \<open>BuildEnv\<close>.
\<close>

section \<open>The environment of a build\<close>

record spdx =
  doc_Head :: "string list"
  doc_Packages :: "(string \<times> string) list"
  doc_Files :: "(string \<times> string) list"
  doc_OtherLicenses :: "string list"
  doc_Relationships :: "string list"
  doc_Annotations :: "string list"
  doc_ExternalDocumentReferences :: "string list"

record ImageSource =
  src_Config :: "ImageSpecConfig res"
  src_TarReader :: "tar_stream res"
  src_SBoMs :: "string list res"

record ociPlatform =
  op_Architecture :: string
  op_OS :: string
  op_Variant :: string

record BuildEnv =
  be_imageSource :: "refspec \<Rightarrow> ImageSource res"
  be_indexSource :: "refspec \<Rightarrow> ociPlatform list \<Rightarrow> (tar_stream res) res"
  be_refParse :: "string \<Rightarrow> refspec res"
  be_ParsePlatform :: "string \<Rightarrow> ociPlatform res"
  be_yaml :: YamlLib
  be_capabilities :: "string list"
  be_marshalSpec :: "Spec \<Rightarrow> string res"
  be_marshalRuntime :: "Runtime \<Rightarrow> string res"
  be_marshalMobyJSON :: "Moby \<Rightarrow> string res"
  be_marshalMobyYAML :: "Moby \<Rightarrow> string res"
  be_ReadFile :: "string \<Rightarrow> string res"
  be_StatOk :: "string \<Rightarrow> bool"
  be_HomeDir :: string
  be_gunzip :: "string \<Rightarrow> string res"
  be_readTar :: "string \<Rightarrow> tar_stream"
  be_spdxRead :: "string \<Rightarrow> spdx res"
  be_spdxWrite :: "spdx \<Rightarrow> string res"
  be_spdxVersion :: string
  be_spdxDataLicense :: string
  be_FormatTime :: "int \<Rightarrow> string"
  be_uuid :: string

section \<open>Bills of materials\<close>

record SbomGenerator =
  sg_filename :: string
  sg_closed :: bool
  sg_sboms :: "spdx list"
  sg_buildTime :: int

definition defaultModTime :: int where
  "defaultModTime = 1492533000"

text \<open>The argument \<open>now\<close> is the current time.\<close>

definition NewSbomGenerator :: "int \<Rightarrow> string \<Rightarrow> bool \<Rightarrow> SbomGenerator res" where
  "NewSbomGenerator now filename currentBuildTime =
     (if filename = [] then Err ''filename must be specified''
      else Ok \<lparr>sg_filename = filename, sg_closed = False, sg_sboms = [],
                sg_buildTime = (if currentBuildTime then now else defaultModTime)\<rparr>)"

definition SbomGenerator_Add :: "BuildEnv \<Rightarrow> string \<Rightarrow> string \<Rightarrow> SbomGenerator \<Rightarrow> SbomGenerator res" where
  "SbomGenerator_Add env pre sbom s =
     (if sg_closed s then Err ''sbom generator already closed''
      else bind_res (be_spdxRead env sbom)
        (\<lambda>doc. Ok (s\<lparr>sg_sboms := sg_sboms s @
           [doc\<lparr>doc_Files := map (\<lambda>(n, r). (path_join [pre, n], r)) (doc_Files doc),
                doc_Packages := map (\<lambda>(n, r). (path_join [pre, n], r)) (doc_Packages doc)\<rparr>]\<rparr>)))"

definition mergeSboms :: "BuildEnv \<Rightarrow> SbomGenerator \<Rightarrow> spdx" where
  "mergeSboms env s =
     \<lparr>doc_Head = [be_spdxVersion env, be_spdxDataLicense env, ''sbom'',
        ''https://github.com/linuxkit/linuxkit/sbom-'' @ be_uuid env, ''3.20'',
        ''Organization: LinuxKit'', ''Tool: linuxkit'', be_FormatTime env (sg_buildTime s), ''DOCUMENT''],
      doc_Packages = concat (map doc_Packages (sg_sboms s)),
      doc_Files = concat (map doc_Files (sg_sboms s)),
      doc_OtherLicenses = concat (map doc_OtherLicenses (sg_sboms s)),
      doc_Relationships = concat (map doc_Relationships (sg_sboms s)),
      doc_Annotations = concat (map doc_Annotations (sg_sboms s)),
      doc_ExternalDocumentReferences = concat (map doc_ExternalDocumentReferences (sg_sboms s))\<rparr>"

definition SbomGenerator_Close ::
  "BuildEnv \<Rightarrow> 'w tarWriter \<Rightarrow> SbomGenerator \<Rightarrow> 'w \<Rightarrow> (SbomGenerator \<times> 'w) res" where
  "SbomGenerator_Close env tw s w =
     bind_res (be_spdxWrite env (mergeSboms env s))
     (\<lambda>buf. bind_res (w_WriteHeader tw
          (Header\<lparr>th_Name := sg_filename s, th_Typeflag := TypeReg, th_Mode := 420,
            th_ModTime := defaultModTime, th_Format := FormatPAX, th_Size := length buf\<rparr>) w)
     (\<lambda>w. bind_res (wrap_err ''failed to write sbom: '' (io_Copy tw buf w))
     (\<lambda>w. Ok (s\<lparr>sg_closed := True\<rparr>, w))))"

section \<open>Files that are left out, replaced or made\<close>

definition exclude :: "string list" where
  "exclude =
     [''.dockerenv'', ''Dockerfile'', ''dev/console'', ''dev/pts'', ''dev/shm'', ''etc/hostname'']"

definition nl :: string where "nl = [CHR 0x0A]"

definition replace :: "(string \<times> string) list" where
  "replace =
     [(''etc/hosts'',
       ''127.0.0.1       localhost'' @ nl @
       ''::1     localhost ip6-localhost ip6-loopback'' @ nl @
       ''fe00::0 ip6-localnet'' @ nl @
       ''ff00::0 ip6-mcastprefix'' @ nl @
       ''ff02::1 ip6-allnodes'' @ nl @
       ''ff02::2 ip6-allrouters'' @ nl),
      (''etc/resolv.conf'', nl @ ''# no resolv.conf configured'' @ nl)]"

definition touchDir :: "string \<Rightarrow> tar_hdr" where
  "touchDir name =
     Header\<lparr>th_Mode := 493, th_ModTime := defaultModTime, th_Name := name, th_Typeflag := TypeDir\<rparr>"

definition touchReg :: "string \<Rightarrow> tar_hdr" where
  "touchReg name =
     Header\<lparr>th_Mode := 420, th_ModTime := defaultModTime, th_Name := name, th_Typeflag := TypeReg\<rparr>"

definition touch :: "(string \<times> tar_hdr) list" where
  "touch =
     [(''dev/'', touchDir ''dev''), (''dev/pts/'', touchDir ''dev/pts''),
      (''dev/shm/'', touchDir ''dev/shm''), (''etc/'', touchDir ''etc''),
      (''etc/mtab'', Header\<lparr>th_Mode := 493, th_ModTime := defaultModTime, th_Name := ''etc/mtab'',
         th_Typeflag := TypeSymlink, th_Linkname := ''/proc/mounts''\<rparr>),
      (''etc/resolv.conf'', touchReg ''etc/resolv.conf''), (''etc/hosts'', touchReg ''etc/hosts''),
      (''proc/'', touchDir ''proc''), (''sys/'', touchDir ''sys'')]"

section \<open>Writing an image\<close>

definition dirHdr :: "string \<Rightarrow> string \<Rightarrow> string \<Rightarrow> tar_hdr" where
  "dirHdr name refName location =
     Header\<lparr>th_Name := name, th_Mode := 493, th_ModTime := defaultModTime, th_Typeflag := TypeDir,
       th_Format := FormatPAX, th_PAXRecords := pax_records refName location\<rparr>"

text \<open>On the path \<^verbatim>\<open>/\<close> the check of the first character is out of range.\<close>

definition tarPrefix ::
  "string \<Rightarrow> string \<Rightarrow> string \<Rightarrow> 'w tarWriter \<Rightarrow> 'w \<Rightarrow> 'w res" where
  "tarPrefix path location refName tw w =
     (if path = [] then Ok w
      else if last path \<noteq> CHR ''/'' then Err (''path does not end with /: '' @ path)
      else let path = butlast path in
        if path = [] then Panic
        else if hd path = CHR ''/'' then Err (''path should be relative: '' @ path)
        else bind_res
          (loop_res (\<lambda>dir (mkdir, w).
               let mkdir = mkdir @ dir in
               bind_res (w_WriteHeader tw (dirHdr mkdir refName location) w)
                 (\<lambda>w. Ok (mkdir @ ''/'', w)))
             (split_on (CHR ''/'') path) ([], w))
          (\<lambda>(_, w). Ok w))"

definition annotate :: "string \<Rightarrow> string \<Rightarrow> tar_hdr \<Rightarrow> tar_hdr" where
  "annotate refName location hdr =
     pax_put PaxRecordLinuxkitLocation location
       (pax_put PaxRecordLinuxkitSource refName (hdr\<lparr>th_Format := FormatPAX\<rparr>))"

definition imageEntry ::
  "string \<Rightarrow> string \<Rightarrow> string \<Rightarrow> string \<Rightarrow> 'w tarWriter \<Rightarrow> tar_hdr \<Rightarrow> string \<Rightarrow>
    'w \<times> (string \<Rightarrow> bool) \<Rightarrow> ('w \<times> (string \<Rightarrow> bool)) res" where
  "imageEntry location refName pre resolv tw hdr0 data st =
     (case st of (w, touchFound) \<Rightarrow>
      let hdr = annotate refName location hdr0; name = th_Name hdr in
      if name \<in> set exclude then Ok (w, touchFound)
      else case map_of replace name of
        Some contents \<Rightarrow>
          if name \<noteq> ''etc/resolv.conf'' \<or> resolv = []
          then bind_res (w_WriteHeader tw
                   (hdr\<lparr>th_Size := length contents, th_Name := pre @ name,
                        th_ModTime := defaultModTime\<rparr>) w)
                 (\<lambda>w. bind_res (w_Write tw contents w) (\<lambda>w. Ok (w, touchFound)))
          else bind_res (w_WriteHeader tw
                   (hdr\<lparr>th_Name := pre @ name, th_Size := 0, th_Typeflag := TypeSymlink,
                        th_Linkname := resolv, th_ModTime := defaultModTime\<rparr>) w)
                 (\<lambda>w. Ok (w, touchFound))
      | None \<Rightarrow>
          let (hdr, touchFound) =
                (case map_of touch name of
                   Some found \<Rightarrow> (hdr\<lparr>th_ModTime := th_ModTime found\<rparr>, touchFound(name := True))
                 | None \<Rightarrow> (hdr, touchFound));
              hdr = hdr\<lparr>th_Name := pre @ th_Name hdr\<rparr>;
              hdr = (if th_Typeflag hdr = TypeLink
                     then hdr\<lparr>th_Linkname := pre @ th_Linkname hdr\<rparr> else hdr)
          in bind_res (w_WriteHeader tw hdr w)
               (\<lambda>w. bind_res (io_Copy tw data w) (\<lambda>w. Ok (w, touchFound))))"

definition touchEntry ::
  "string \<Rightarrow> string \<Rightarrow> string \<Rightarrow> string \<Rightarrow> 'w tarWriter \<Rightarrow> string \<times> tar_hdr \<Rightarrow> 'w \<Rightarrow> 'w res" where
  "touchEntry location refName pre resolv tw t w =
     (let origName = th_Name (snd t);
          hdr = annotate refName location (snd t);
          hdr = hdr\<lparr>th_Name := pre @ origName\<rparr>;
          contents = (case map_of replace origName of None \<Rightarrow> [] | Some c \<Rightarrow> c);
          hdr = (if contents \<noteq> [] \<and> (origName \<noteq> ''etc/resolv.conf'' \<or> resolv = [])
                 then hdr\<lparr>th_Size := length contents\<rparr>
                 else if origName = ''etc/resolv.conf'' \<and> resolv \<noteq> []
                 then hdr\<lparr>th_Size := 0, th_Typeflag := TypeSymlink, th_Linkname := resolv\<rparr>
                 else hdr)
      in bind_res (w_WriteHeader tw hdr w)
           (\<lambda>w. if th_Size hdr > 0 then w_Write tw contents w else Ok w))"

definition refNameOf :: "refspec option \<Rightarrow> string" where
  "refNameOf ref = (case ref of None \<Rightarrow> ''empty'' | Some r \<Rightarrow> ref_String r)"

definition addSboms ::
  "BuildEnv \<Rightarrow> string \<Rightarrow> ImageSource \<Rightarrow> SbomGenerator option \<Rightarrow> SbomGenerator option res" where
  "addSboms env pre src sg =
     (case sg of
        None \<Rightarrow> Ok None
      | Some s \<Rightarrow>
          bind_res (src_SBoMs src)
            (\<lambda>sboms. bind_res (loop_res (SbomGenerator_Add env pre) sboms s) (\<lambda>s. Ok (Some s))))"

definition ImageTar ::
  "BuildEnv \<Rightarrow> string \<Rightarrow> refspec option \<Rightarrow> string \<Rightarrow> 'w tarWriter \<Rightarrow> string \<Rightarrow>
    'w \<times> SbomGenerator option \<Rightarrow> ('w \<times> SbomGenerator option) res" where
  "ImageTar env location ref pre tw resolv st =
     (case st of (w, sg) \<Rightarrow>
      if pre \<noteq> [] \<and> last pre \<noteq> CHR ''/''
      then Err (''prefix does not end with /: '' @ pre)
      else bind_res (tarPrefix pre location (refNameOf ref) tw w)
      (\<lambda>w. case ref of None \<Rightarrow> Ok (w, sg) | Some r \<Rightarrow>
        bind_res (wrap_err (''could not pull image '' @ ref_String r @ '': '') (be_imageSource env r))
      (\<lambda>src. bind_res (wrap_err (''could not unpack image '' @ ref_String r @ '': '')
                         (src_TarReader src))
      (\<lambda>tr. bind_res (tar_loop (imageEntry location (ref_String r) pre resolv tw) tr
                         (w, \<lambda>_. False))
      (\<lambda>(w, touchFound).
        bind_res (loop_res (touchEntry location (ref_String r) pre resolv tw)
           (filter (\<lambda>t. \<not> touchFound (fst t)) (sort_key fst touch)) w)
      (\<lambda>w. bind_res (addSboms env pre src sg) (\<lambda>sg. Ok (w, sg))))))))"

definition ociEntry ::
  "string \<Rightarrow> string \<Rightarrow> string \<Rightarrow> 'w tarWriter \<Rightarrow> tar_hdr \<Rightarrow> string \<Rightarrow> 'w \<Rightarrow> 'w res" where
  "ociEntry location refName pre tw hdr0 data w =
     (let hdr = annotate refName location hdr0;
          hdr = hdr\<lparr>th_Name := pre @ th_Name hdr\<rparr>;
          hdr = (if th_Typeflag hdr = TypeLink
                 then hdr\<lparr>th_Linkname := pre @ th_Linkname hdr\<rparr> else hdr)
      in bind_res (w_WriteHeader tw hdr w) (io_Copy tw data))"

definition ImageOCITar ::
  "BuildEnv \<Rightarrow> string \<Rightarrow> refspec option \<Rightarrow> string \<Rightarrow> 'w tarWriter \<Rightarrow> ociPlatform list \<Rightarrow> 'w \<Rightarrow> 'w res"
where
  "ImageOCITar env location ref pre tw platforms w =
     (if pre \<noteq> [] \<and> last pre \<noteq> CHR ''/''
      then Err (''prefix does not end with /: '' @ pre)
      else bind_res (tarPrefix pre location (refNameOf ref) tw w)
      (\<lambda>w. case ref of None \<Rightarrow> Err ''no image reference provided'' | Some r \<Rightarrow>
        bind_res (wrap_err (''could not pull image '' @ ref_String r @ '': '')
                    (be_indexSource env r platforms))
      (\<lambda>src. bind_res (wrap_err (''could not unpack image '' @ ref_String r @ '': '') src)
      (\<lambda>tr. tar_loop (ociEntry location (ref_String r) pre tw) tr w))))"

section \<open>The script of an image\<close>

fun leading :: "string \<Rightarrow> string list \<Rightarrow> string list" where
  "leading acc [] = []"
| "leading acc (d # ds) = (acc @ d) # leading (acc @ d @ ''/'') ds"

definition prefixDirs :: "string \<Rightarrow> string list" where
  "prefixDirs path =
     (if path = [] then [] else leading [] (split_on (CHR ''/'') (butlast path)))"

definition prefix_ok :: "string \<Rightarrow> bool" where
  "prefix_ok path \<longleftrightarrow>
     path = [] \<or> (last path = CHR ''/'' \<and> butlast path \<noteq> [] \<and> hd path \<noteq> CHR ''/'')"

text \<open>What one entry of an image becomes, if anything.\<close>

definition imageOut :: "string \<Rightarrow> string \<Rightarrow> string \<Rightarrow> string \<Rightarrow> tar_entry \<Rightarrow> tar_entry list" where
  "imageOut location refName pre resolv e =
     (let hdr = annotate refName location (fst e); name = th_Name (fst e) in
      if name \<in> set exclude then []
      else case map_of replace name of
        Some contents \<Rightarrow>
          if name \<noteq> ''etc/resolv.conf'' \<or> resolv = []
          then [(hdr\<lparr>th_Size := length contents, th_Name := pre @ name,
                     th_ModTime := defaultModTime\<rparr>, contents)]
          else [(hdr\<lparr>th_Name := pre @ name, th_Size := 0, th_Typeflag := TypeSymlink,
                     th_Linkname := resolv, th_ModTime := defaultModTime\<rparr>, [])]
      | None \<Rightarrow>
          let hdr = (if map_of touch name = None then hdr else hdr\<lparr>th_ModTime := defaultModTime\<rparr>);
              hdr = hdr\<lparr>th_Name := pre @ name\<rparr>;
              hdr = (if th_Typeflag hdr = TypeLink
                     then hdr\<lparr>th_Linkname := pre @ th_Linkname hdr\<rparr> else hdr)
          in [(hdr, snd e)])"

definition touchOut :: "string \<Rightarrow> string \<Rightarrow> string \<Rightarrow> string \<Rightarrow> string \<times> tar_hdr \<Rightarrow> tar_entry" where
  "touchOut location refName pre resolv t =
     (let name = th_Name (snd t);
          hdr = (annotate refName location (snd t))\<lparr>th_Name := pre @ name\<rparr>
      in case map_of replace name of
           None \<Rightarrow> (hdr, [])
         | Some contents \<Rightarrow>
             if name \<noteq> ''etc/resolv.conf'' \<or> resolv = []
             then (hdr\<lparr>th_Size := length contents\<rparr>, contents)
             else (hdr\<lparr>th_Size := 0, th_Typeflag := TypeSymlink, th_Linkname := resolv\<rparr>, []))"

text \<open>The touch files an image brings itself.\<close>

definition touched :: "tar_entry list \<Rightarrow> string set" where
  "touched es = set (filter (\<lambda>n. map_of touch n \<noteq> None \<and> n \<notin> set exclude \<and> map_of replace n = None)
     (map (\<lambda>e. th_Name (fst e)) es))"

definition imageFiles ::
  "string \<Rightarrow> string \<Rightarrow> string \<Rightarrow> string \<Rightarrow> tar_entry list \<Rightarrow> tar_entry list" where
  "imageFiles location refName pre resolv es =
     map (\<lambda>d. (dirHdr d refName location, [])) (prefixDirs pre) @
     concat (map (imageOut location refName pre resolv) es) @
     map (touchOut location refName pre resolv)
       (filter (\<lambda>t. fst t \<notin> touched es) (sort_key fst touch))"

section \<open>Every writer receives the script\<close>

lemma annotate_sel [simp]:
  "th_Name (annotate r l h) = th_Name h" "th_Typeflag (annotate r l h) = th_Typeflag h"
  "th_Size (annotate r l h) = th_Size h" "th_Linkname (annotate r l h) = th_Linkname h"
  "th_ModTime (annotate r l h) = th_ModTime h" "th_Format (annotate r l h) = FormatPAX"
  by (simp_all add: annotate_def pax_put_def)

lemma replace_nonempty: "map_of replace n = Some c \<Longrightarrow> c \<noteq> []"
  by (auto simp: replace_def nl_def split: if_splits)

lemma touch_ModTime: "map_of touch n = Some t \<Longrightarrow> th_ModTime t = defaultModTime"
  by (auto simp: touch_def touchDir_def touchReg_def split: if_splits)

lemma touch_Size: "t \<in> set touch \<Longrightarrow> th_Size (snd t) = 0"
  by (auto simp: touch_def touchDir_def touchReg_def Header_def)

lemma run_entry_nonempty:
  "d \<noteq> [] \<Longrightarrow> run_ops tw (entry_ops (h, d)) w = bind_res (w_WriteHeader tw h w) (w_Write tw d)"
  by (simp add: entry_ops_def copy_ops_def run_ops_Cons run_ops_single_eta do_op_eta)

lemma run_entry_empty: "run_ops tw (entry_ops (h, [])) w = w_WriteHeader tw h w"
  by (simp add: entry_ops_def copy_ops_def run_ops_single)

lemma tarPrefix_run:
  assumes "prefix_ok path"
  shows "tarPrefix path location refName tw w =
    run_ops tw (map (\<lambda>d. Hdr (dirHdr d refName location)) (prefixDirs path)) w"
proof (cases "path = []")
  case True
  then show ?thesis by (simp add: tarPrefix_def prefixDirs_def)
next
  case False
  have "bind_res (loop_res (\<lambda>dir (mkdir, w).
               let mkdir = mkdir @ dir in
               bind_res (w_WriteHeader tw (dirHdr mkdir refName location) w)
                 (\<lambda>w. Ok (mkdir @ ''/'', w))) ds (acc, w)) (\<lambda>(_, w). Ok w)
      = run_ops tw (map (\<lambda>d. Hdr (dirHdr d refName location)) (leading acc ds)) w" for ds acc w
  proof (induction ds arbitrary: acc w)
    case (Cons d ds)
    then show ?case
      by (cases "w_WriteHeader tw (dirHdr (acc @ d) refName location) w")
        (simp_all add: run_ops_Cons Let_def)
  qed simp
  moreover have "hd (butlast path) = hd path" if "butlast path \<noteq> []"
    using that by (cases path) (auto split: if_splits)
  ultimately show ?thesis
    using False assms by (simp add: tarPrefix_def prefixDirs_def prefix_ok_def Let_def)
qed

lemma tarPrefix_ok: "is_ok (tarPrefix path location refName tw w) \<Longrightarrow> prefix_ok path"
proof -
  have "hd (butlast path) = hd path" if "butlast path \<noteq> []"
    using that by (cases path) (auto split: if_splits)
  then show "is_ok (tarPrefix path location refName tw w) \<Longrightarrow> prefix_ok path"
    by (auto simp: tarPrefix_def prefix_ok_def Let_def split: if_splits)
qed

lemma touchEntry_run:
  assumes "th_Size (snd t) = 0"
  shows "touchEntry location refName pre resolv tw t w =
    run_ops tw (entry_ops (touchOut location refName pre resolv t)) w"
proof (cases "map_of replace (th_Name (snd t))")
  case None
  with assms show ?thesis
    by (cases "w_WriteHeader tw ((annotate refName location (snd t))\<lparr>th_Name := pre @ th_Name (snd t)\<rparr>) w")
      (auto simp: touchEntry_def touchOut_def Let_def run_entry_empty bind_res_Ok_id replace_def)
next
  case (Some c)
  with replace_nonempty [OF Some] show ?thesis
    by (simp add: touchEntry_def touchOut_def Let_def run_entry_empty run_entry_nonempty
        bind_res_Ok_id)
qed

context tar_writer
begin

lemma imageEntry_run:
  "imageEntry location refName pre resolv tw h d (w, found) =
     bind_res (run_ops tw (concat (map entry_ops (imageOut location refName pre resolv (h, d)))) w)
       (\<lambda>w. Ok (w, \<lambda>n. found n \<or> n \<in> touched [(h, d)]))"
proof (cases "th_Name h \<in> set exclude \<or> map_of replace (th_Name h) \<noteq> None")
  case True
  then have "touched [(h, d)] = {}" by (auto simp: touched_def)
  with True replace_nonempty show ?thesis
    by (auto simp: imageEntry_def imageOut_def Let_def run_entry_empty run_entry_nonempty
        bind_res_assoc)
next
  case False
  have "(\<lambda>n. found n \<or> n \<in> touched [(h, d)]) =
      (if map_of touch (th_Name h) = None then found else found(th_Name h := True))"
    using False by (auto simp: touched_def fun_eq_iff)
  moreover have "run_ops tw (entry_ops (h', d)) w =
      bind_res (w_WriteHeader tw h' w) (io_Copy tw d)" for h'
    by (simp add: entry_ops_def run_ops_Cons io_Copy_eta)
  ultimately show ?thesis
    using False touch_ModTime
    by (auto simp: imageEntry_def imageOut_def Let_def bind_res_assoc split: option.splits)
qed

lemma image_loop:
  "loop_res (\<lambda>(h, d). imageEntry location refName pre resolv tw h d) es (w, found) =
     bind_res (run_ops tw (concat (map entry_ops (concat (map (imageOut location refName pre resolv) es)))) w)
       (\<lambda>w. Ok (w, \<lambda>n. found n \<or> n \<in> touched es))"
proof (induction es arbitrary: w found)
  case Nil
  then show ?case by (simp add: touched_def)
next
  case (Cons e es)
  have "touched (e # es) = touched [e] \<union> touched es" by (auto simp: touched_def)
  then have t: "(\<lambda>n. (found n \<or> n \<in> touched [e]) \<or> n \<in> touched es) =
      (\<lambda>n. found n \<or> n \<in> touched (e # es))" by (simp add: fun_eq_iff)
  obtain h d where e: "e = (h, d)" by (cases e)
  show ?case
    using t Cons.IH [of _ "\<lambda>n. found n \<or> n \<in> touched [e]"]
    by (cases "run_ops tw (concat (map entry_ops (imageOut location refName pre resolv (h, d)))) w")
      (simp_all add: imageEntry_run run_ops_append e)
qed

lemma touch_loop:
  "loop_res (touchEntry location refName pre resolv tw) (filter P (sort_key fst touch)) w =
     run_ops tw (concat (map entry_ops (map (touchOut location refName pre resolv)
       (filter P (sort_key fst touch))))) w"
proof -
  have "loop_res (touchEntry location refName pre resolv tw) ts w =
      run_ops tw (concat (map entry_ops (map (touchOut location refName pre resolv) ts))) w"
    if "\<And>t. t \<in> set ts \<Longrightarrow> th_Size (snd t) = 0" for ts
    using that
  proof (induction ts arbitrary: w)
    case (Cons t ts)
    then show ?case
      by (cases "run_ops tw (entry_ops (touchOut location refName pre resolv t)) w")
        (simp_all add: touchEntry_run run_ops_append)
  qed simp
  from this [of "filter P (sort_key fst touch)"] show ?thesis by (simp add: touch_Size)
qed

lemma run_prefix:
  "run_ops tw (concat (map entry_ops (map (\<lambda>d. (dirHdr d refName location, [])) ds))) w =
     run_ops tw (map (\<lambda>d. Hdr (dirHdr d refName location)) ds) w"
proof -
  have "concat (map entry_ops (map (\<lambda>d. (dirHdr d refName location, [])) ds)) =
      map (\<lambda>d. Hdr (dirHdr d refName location)) ds"
    by (induction ds) (simp_all add: entry_ops_def copy_ops_def)
  then show ?thesis by simp
qed

text \<open>
  \<^verbatim>\<open>ImageTar\<close> gives any writer exactly the files of the script; it succeeds when the image can
  be read and the writer takes them.
\<close>

lemma ImageTar_Ok_iff:
  "ImageTar env location (Some r) pre tw resolv (w, sg) = Ok (w', sg') \<longleftrightarrow>
     prefix_ok pre \<and> (\<exists>src es. be_imageSource env r = Ok src \<and> src_TarReader src = Ok (es, None) \<and>
       run_ops tw (concat (map entry_ops (imageFiles location (ref_String r) pre resolv es))) w = Ok w' \<and>
       addSboms env pre src sg = Ok sg')"
proof (cases "prefix_ok pre")
  case False
  then have "\<not> is_ok (tarPrefix pre location (ref_String r) tw w)"
    using tarPrefix_ok [of pre location "ref_String r" tw w] by blast
  then show ?thesis using False by (auto simp: ImageTar_def refNameOf_def is_ok_iff)
next
  case True
  then have "\<not> (pre \<noteq> [] \<and> last pre \<noteq> CHR ''/'')" by (auto simp: prefix_ok_def)
  then show ?thesis
    using True
    by (auto simp: ImageTar_def refNameOf_def tarPrefix_run imageFiles_def run_ops_append run_prefix [unfolded map_map]
        tar_loop_def image_loop touch_loop bind_res_assoc split: option.splits prod.splits)
qed

lemma ImageTar_blank:
  "ImageTar env location None pre tw resolv (w, sg) = Ok (w', sg') \<longleftrightarrow>
     prefix_ok pre \<and> sg' = sg \<and>
     run_ops tw (map (\<lambda>d. Hdr (dirHdr d ''empty'' location)) (prefixDirs pre)) w = Ok w'"
proof (cases "prefix_ok pre")
  case False
  then have "\<not> is_ok (tarPrefix pre location ''empty'' tw w)"
    using tarPrefix_ok [of pre location "''empty''" tw w] by blast
  then show ?thesis using False by (auto simp: ImageTar_def refNameOf_def is_ok_iff)
next
  case True
  then have "\<not> (pre \<noteq> [] \<and> last pre \<noteq> CHR ''/'')" by (auto simp: prefix_ok_def)
  then show ?thesis
    using True by (auto simp: ImageTar_def refNameOf_def tarPrefix_run)
qed

end

section \<open>What the files of an image satisfy\<close>

lemma pax_get_put: "pax_get k (pax_put k' v h) = (if k = k' then v else pax_get k h)"
  by (simp add: pax_get_def pax_put_def update_conv' split: option.splits)

lemma pax_get_update [simp]:
  "pax_get k (h\<lparr>th_Name := n\<rparr>) = pax_get k h" "pax_get k (h\<lparr>th_Size := z\<rparr>) = pax_get k h"
  "pax_get k (h\<lparr>th_ModTime := t\<rparr>) = pax_get k h" "pax_get k (h\<lparr>th_Linkname := l\<rparr>) = pax_get k h"
  "pax_get k (h\<lparr>th_Typeflag := f\<rparr>) = pax_get k h" "pax_get k (h\<lparr>th_Format := m\<rparr>) = pax_get k h"
  by (simp_all add: pax_get_def)

lemma pax_get_annotate [simp]:
  "pax_get PaxRecordLinuxkitSource (annotate r l h) = r"
  "pax_get PaxRecordLinuxkitLocation (annotate r l h) = l"
  by (simp_all add: annotate_def pax_get_put PaxRecordLinuxkitSource_def PaxRecordLinuxkitLocation_def)

lemma pax_get_records:
  "th_PAXRecords h = pax_records r l \<Longrightarrow>
     pax_get PaxRecordLinuxkitSource h = r \<and> pax_get PaxRecordLinuxkitLocation h = l"
  by (simp add: pax_get_def pax_records_def PaxRecordLinuxkitSource_def PaxRecordLinuxkitLocation_def)

text \<open>The marks by which a later build finds the files of a section.\<close>

definition marked :: "string \<Rightarrow> string \<Rightarrow> tar_entry \<Rightarrow> bool" where
  "marked refName location e \<longleftrightarrow>
     pax_get PaxRecordLinuxkitSource (fst e) = refName \<and>
     pax_get PaxRecordLinuxkitLocation (fst e) = location \<and> th_Format (fst e) = FormatPAX \<and>
     th_PAXRecords (fst e) \<noteq> None"

lemma annotate_PAX [simp]: "\<exists>m. th_PAXRecords (annotate r l h) = Some m"
  by (simp add: annotate_def pax_put_def)

lemma dirHdr_marked: "marked refName location (dirHdr d refName location, b)"
  using pax_get_records [of "dirHdr d refName location" refName location]
  by (simp add: marked_def dirHdr_def pax_records_def)

lemma imageFiles_marked:
  "list_all (marked refName location) (imageFiles location refName pre resolv es)"
  using dirHdr_marked [of refName location, unfolded marked_def]
  by (auto simp: imageFiles_def list_all_iff imageOut_def touchOut_def Let_def
      marked_def split: option.splits if_splits)

lemma imageOut_name:
  "e' \<in> set (imageOut location refName pre resolv e) \<Longrightarrow>
     th_Name (fst e') = pre @ th_Name (fst e) \<and> th_Name (fst e) \<notin> set exclude"
  by (auto simp: imageOut_def Let_def split: option.splits if_splits)

lemma touchOut_name: "th_Name (fst (touchOut location refName pre resolv t)) = pre @ th_Name (snd t)"
  by (auto simp: touchOut_def Let_def split: option.splits)

lemma imageFiles_touch:
  assumes "(n, t) \<in> set touch"
  shows "\<exists>e \<in> set (imageFiles location refName pre resolv es).
    th_Name (fst e) = pre @ n \<or> th_Name (fst e) = pre @ th_Name t"
proof (cases "n \<in> touched es")
  case True
  then obtain e where e: "e \<in> set es" "n = th_Name (fst e)" "n \<notin> set exclude" "map_of replace n = None"
    by (auto simp: touched_def)
  then obtain e' where "imageOut location refName pre resolv e = [e']" "th_Name (fst e') = pre @ n"
    by (auto simp: imageOut_def Let_def)
  with e(1) show ?thesis
    by (intro bexI [of _ e']) (auto simp: imageFiles_def intro!: bexI [of _ e])
next
  case False
  with assms touchOut_name [of location refName pre resolv "(n, t)"] show ?thesis
    by (intro bexI [of _ "touchOut location refName pre resolv (n, t)"])
      (auto simp: imageFiles_def)
qed

text \<open>An image stream a build can copy: exact entries, and regular files where they are replaced.\<close>

definition image_ok :: "string \<Rightarrow> tar_entry list \<Rightarrow> bool" where
  "image_ok resolv es \<longleftrightarrow>
     list_all (\<lambda>e. exact e \<and> th_Typeflag (fst e) \<noteq> TypeRegA \<and>
       (map_of replace (th_Name (fst e)) \<noteq> None \<longrightarrow> th_Typeflag (fst e) = TypeReg)) es"

lemma payload_flag:
  "th_Typeflag h \<noteq> TypeRegA \<Longrightarrow>
     payload h = (if isHeaderOnlyType (th_Typeflag h) then 0 else th_Size h)"
  by (simp add: payload_def norm_hdr_def Let_def)

lemma imageOut_exact:
  assumes "exact e" and "th_Typeflag (fst e) \<noteq> TypeRegA"
    and "map_of replace (th_Name (fst e)) \<noteq> None \<Longrightarrow> th_Typeflag (fst e) = TypeReg"
  shows "list_all exact (imageOut location refName pre resolv e)"
  using assms
  by (auto simp: imageOut_def exact_def Let_def payload_flag isHeaderOnlyType_def split: option.splits)

lemma touchOut_exact:
  assumes "t \<in> set touch" shows "exact (touchOut location refName pre resolv t)"
proof -
  from assms have "th_Typeflag (snd t) = TypeReg \<or>
      (isHeaderOnlyType (th_Typeflag (snd t)) \<and> map_of replace (th_Name (snd t)) = None)"
    by (auto simp: touch_def touchDir_def touchReg_def replace_def isHeaderOnlyType_def)
  then show ?thesis
    using touch_Size [OF assms]
    by (auto simp: exact_def touchOut_def Let_def payload_flag isHeaderOnlyType_def split: option.splits)
qed

lemma imageFiles_exact:
  assumes "image_ok resolv es"
  shows "list_all exact (imageFiles location refName pre resolv es)"
proof -
  have "exact (dirHdr d refName location, [])" for d
    by (simp add: exact_def dirHdr_def payload_flag isHeaderOnlyType_def)
  moreover have "list_all exact (concat (map (imageOut location refName pre resolv) es))"
    using assms by (induction es) (auto simp: image_ok_def intro!: imageOut_exact)
  moreover have "list_all exact (map (touchOut location refName pre resolv) (filter P (sort_key fst touch)))"
    for P using touchOut_exact by (auto simp: list_all_iff)
  ultimately show ?thesis by (auto simp: imageFiles_def list_all_iff)
qed

lemma imageFiles_names:
  assumes "e \<in> set (imageFiles location refName pre resolv es)"
  shows "th_Name (fst e) \<in> set (prefixDirs pre) \<or>
    (\<exists>n. th_Name (fst e) = pre @ n \<and> (n \<notin> set exclude \<or> n \<in> set (map (\<lambda>t. th_Name (snd t)) touch)))"
proof -
  from assms consider d where "d \<in> set (prefixDirs pre)" "e = (dirHdr d refName location, [])"
    | e0 where "e \<in> set (imageOut location refName pre resolv e0)"
    | t where "t \<in> set touch" "e = touchOut location refName pre resolv t"
    unfolding imageFiles_def by auto
  then show ?thesis
  proof cases
    case 1
    then show ?thesis by (simp add: dirHdr_def)
  next
    case 2
    from imageOut_name [OF this] show ?thesis by blast
  next
    case 3
    then show ?thesis by (auto simp: touchOut_name)
  qed
qed

text \<open>The names of an image that are left alone: neither excluded nor replaced, and not among the files that must exist.\<close>

definition own_name :: "string \<Rightarrow> bool" where
  "own_name n \<longleftrightarrow> n \<notin> set exclude \<and> map_of replace n = None \<and> map_of touch n = None \<and>
     (\<forall>t\<in>set touch. th_Name (snd t) \<noteq> n)"

text \<open>An entry of an image after it was moved below the prefix and marked; all else is as it was.\<close>

definition moved :: "string \<Rightarrow> string \<Rightarrow> string \<Rightarrow> tar_entry \<Rightarrow> tar_entry \<Rightarrow> bool" where
  "moved refName location pre e e' \<longleftrightarrow>
     th_Name (fst e') = pre @ th_Name (fst e) \<and> snd e' = snd e \<and> marked refName location e' \<and>
     th_Linkname (fst e') = (if th_Typeflag (fst e) = TypeLink then pre else []) @ th_Linkname (fst e) \<and>
     th_Typeflag (fst e') = th_Typeflag (fst e) \<and> th_Size (fst e') = th_Size (fst e) \<and>
     th_Mode (fst e') = th_Mode (fst e) \<and> th_Uid (fst e') = th_Uid (fst e) \<and> th_Gid (fst e') = th_Gid (fst e) \<and>
     th_ModTime (fst e') = th_ModTime (fst e) \<and> th_Devmajor (fst e') = th_Devmajor (fst e) \<and>
     th_Devminor (fst e') = th_Devminor (fst e)"

definition own_below :: "string \<Rightarrow> tar_entry \<Rightarrow> bool" where
  "own_below pre e \<longleftrightarrow> (\<exists>n. own_name n \<and> th_Name (fst e) = pre @ n)"

text \<open>What a file of the table of replacements has become.\<close>

definition replaced :: "string \<Rightarrow> string \<Rightarrow> string \<Rightarrow> tar_entry \<Rightarrow> bool" where
  "replaced resolv n contents e \<longleftrightarrow>
     (if n = ''etc/resolv.conf'' \<and> resolv \<noteq> []
      then th_Typeflag (fst e) = TypeSymlink \<and> th_Linkname (fst e) = resolv \<and> snd e = []
      else th_Size (fst e) = length contents \<and> snd e = contents)"

lemma leading_length: "d \<in> set (leading acc ds) \<Longrightarrow> length d \<le> length acc + length (join ''/'' ds)"
  by (induction acc ds rule: leading.induct) (auto simp: join_Cons)

lemma prefixDirs_short: "d \<in> set (prefixDirs pre) \<Longrightarrow> length d < length pre"
  using leading_length [of d "[]" "split_on (CHR ''/'') (butlast pre)"]
  by (cases pre rule: rev_cases) (auto simp: prefixDirs_def)

lemma prefixDirs_above: "d \<in> set (prefixDirs pre) \<Longrightarrow> d \<noteq> pre @ n"
  using prefixDirs_short [of d pre] by auto

lemma annotate_owner:
  "th_Mode (annotate r l h) = th_Mode h" "th_Uid (annotate r l h) = th_Uid h" "th_Gid (annotate r l h) = th_Gid h"
  "th_Devmajor (annotate r l h) = th_Devmajor h" "th_Devminor (annotate r l h) = th_Devminor h"
  by (simp_all add: annotate_def pax_put_def)

lemma imageOut_moved:
  assumes "own_name (th_Name (fst e))"
  shows "\<exists>e'. imageOut location refName pre resolv e = [e'] \<and> moved refName location pre e e'"
  using assms
  by (auto simp: imageOut_def own_name_def Let_def moved_def marked_def annotate_owner)

lemma touchOut_not_own: "t \<in> set touch \<Longrightarrow> \<not> own_below pre (touchOut location refName pre resolv t)"
  by (auto simp: own_below_def touchOut_name own_name_def)

lemma imageFiles_moved:
  "list_all2 (moved refName location pre) (filter (\<lambda>e. own_name (th_Name (fst e))) es)
     (filter (own_below pre) (imageFiles location refName pre resolv es))"
proof -
  have dirs: "filter (own_below pre) (map (\<lambda>d. (dirHdr d refName location, [])) (prefixDirs pre)) = []"
    using prefixDirs_above by (auto simp: filter_empty_conv own_below_def dirHdr_def)
  have tch: "filter (own_below pre) (map (touchOut location refName pre resolv)
      (filter P (sort_key fst touch))) = []" for P
    using touchOut_not_own by (auto simp: filter_empty_conv)
  have out: "filter (own_below pre) (imageOut location refName pre resolv e) =
      (if own_name (th_Name (fst e)) then imageOut location refName pre resolv e else [])" for e
    by (auto simp: own_below_def dest: imageOut_name intro!: filter_True filter_False)
  have "list_all2 (moved refName location pre) (filter (\<lambda>e. own_name (th_Name (fst e))) es)
      (filter (own_below pre) (concat (map (imageOut location refName pre resolv) es)))"
  proof (induction es)
    case (Cons e es)
    then show ?case using imageOut_moved [of e location refName pre resolv] by (auto simp: out)
  qed simp
  then show ?thesis by (simp add: imageFiles_def dirs tch)
qed

lemma imageFiles_replaced:
  assumes "map_of replace n = Some contents" and "e \<in> set (imageFiles location refName pre resolv es)"
    and "th_Name (fst e) = pre @ n"
  shows "replaced resolv n contents e"
proof -
  from assms(2) consider d where "d \<in> set (prefixDirs pre)" "e = (dirHdr d refName location, [])"
    | e0 where "e \<in> set (imageOut location refName pre resolv e0)"
    | t where "t \<in> set touch" "e = touchOut location refName pre resolv t"
    unfolding imageFiles_def by auto
  then show ?thesis
  proof cases
    case 1
    with prefixDirs_above [of d pre n] assms(3) show ?thesis by (simp add: dirHdr_def)
  next
    case 2
    then have "th_Name (fst e0) = n" using imageOut_name [OF 2] assms(3) by simp
    with 2 assms(1) show ?thesis by (auto simp: imageOut_def replaced_def Let_def split: if_splits)
  next
    case 3
    then have "th_Name (snd t) = n" using assms(3) by (simp add: touchOut_name)
    with 3 assms(1) show ?thesis by (auto simp: touchOut_def replaced_def Let_def split: if_splits)
  qed
qed

lemma imageFiles_excluded:
  assumes "n \<in> set exclude" and "\<forall>t\<in>set touch. th_Name (snd t) \<noteq> n"
    and "e \<in> set (imageFiles location refName pre resolv es)"
  shows "th_Name (fst e) \<noteq> pre @ n"
  using imageFiles_names [OF assms(3)] assms(1,2) prefixDirs_above [of "th_Name (fst e)" pre n] by auto

lemma ImageTar_tar_out:
  assumes "ImageTar env location (Some r) pre tarWriter resolv (w, sg) = Ok (w', sg')"
    and "\<not> tw_closed w"
  obtains src es where "be_imageSource env r = Ok src" "src_TarReader src = Ok (es, None)"
    "tw_out w' = tw_out w @ map on_tape (imageFiles location (ref_String r) pre resolv es)"
    "\<not> tw_closed w'" "prefix_ok pre"
  using assms by (auto simp: tarw.ImageTar_Ok_iff run_tarWriter written_entries)

section \<open>An example image\<close>

definition demoStream :: "tar_entry list" where
  "demoStream =
     [(Header\<lparr>th_Name := ''dev/'', th_Typeflag := TypeDir\<rparr>, []),
      (Header\<lparr>th_Name := ''.dockerenv'', th_Typeflag := TypeReg\<rparr>, []),
      (Header\<lparr>th_Name := ''etc/hosts'', th_Typeflag := TypeReg, th_Size := 3\<rparr>, ''old''),
      (Header\<lparr>th_Name := ''bin/sh'', th_Typeflag := TypeReg, th_Size := 3\<rparr>, ''elf''),
      (Header\<lparr>th_Name := ''bin/ash'', th_Typeflag := TypeLink, th_Linkname := ''bin/sh''\<rparr>, [])]"

definition demoSource :: ImageSource where
  "demoSource =
     \<lparr>src_Config = Ok demoSpecConfig, src_TarReader = Ok (demoStream, None), src_SBoMs = Ok []\<rparr>"

definition demoEnv :: BuildEnv where
  "demoEnv =
     \<lparr>be_imageSource = (\<lambda>r. Ok demoSource), be_indexSource = (\<lambda>r ps. Ok (Ok (demoStream, None))),
      be_refParse = demoRef,
      be_ParsePlatform = (\<lambda>s. Ok \<lparr>op_Architecture = s, op_OS = ''linux'', op_Variant = []\<rparr>),
      be_yaml = demoYaml, be_capabilities = [''net_raw'', ''net_admin''],
      be_marshalSpec = (\<lambda>s. Ok (sp_Version s)), be_marshalRuntime = (\<lambda>rt. Ok ''{}''),
      be_marshalMobyJSON = (\<lambda>m. Ok ''{}''), be_marshalMobyYAML = (\<lambda>m. Ok ''kernel:''),
      be_ReadFile = (\<lambda>s. Ok s), be_StatOk = (\<lambda>s. True), be_HomeDir = ''/root'',
      be_gunzip = (\<lambda>s. Ok s), be_readTar = (\<lambda>s. ([], None)),
      be_spdxRead = (\<lambda>s. Err ''no sbom''), be_spdxWrite = (\<lambda>d. Ok ''{}''), be_spdxVersion = ''2.3'',
      be_spdxDataLicense = ''CC0-1.0'', be_FormatTime = (\<lambda>t. []), be_uuid = ''0''\<rparr>"

definition demoSpec :: refspec where
  "demoSpec = \<lparr>Locator = ''docker.io/linuxkit/init'', Object = ''v1''\<rparr>"

lemma demo_image_ok: "image_ok resolv demoStream"
  by (simp add: image_ok_def demoStream_def exact_def payload_flag isHeaderOnlyType_def Header_def
      replace_def)

section \<open>Properties\<close>

text \<open>
  C29. Unpacking an image into a \<^verbatim>\<open>tar.Writer\<close> succeeds when the image can be read, its entries carry
  the bytes they announce and the files to be replaced are regular ones. In what it adds to the archive,
  every file of the image that is neither excluded nor replaced nor one of those that must exist is moved below the
  prefix and otherwise as it was, in the order of the image and without any other; docker's own files and the host
  name are not there; \<^verbatim>\<open>etc/hosts\<close> and \<^verbatim>\<open>etc/resolv.conf\<close> are, and only
  with their fixed contents (or as the link asked for), though a replaced file appears twice; and every file that must exist is there.
\<close>

theorem ImageTar_total:
  assumes "be_imageSource env r = Ok src" and "src_TarReader src = Ok (es, None)"
    and "image_ok resolv es" and "prefix_ok pre" and "\<not> tw_closed w" and "tw_left w = 0"
  shows "\<exists>files. ImageTar env location (Some r) pre tarWriter resolv (w, None) =
      Ok (w\<lparr>tw_out := tw_out w @ map on_tape files\<rparr>, None) \<and>
    list_all2 (moved (ref_String r) location pre) (filter (\<lambda>e. own_name (th_Name (fst e))) es)
      (filter (own_below pre) files) \<and>
    (\<forall>n\<in>{''.dockerenv'', ''Dockerfile'', ''dev/console'', ''etc/hostname''}. pre @ n \<notin> th_Name ` fst ` set files) \<and>
    (\<forall>(n, contents)\<in>set replace. \<forall>e\<in>set files. th_Name (fst e) = pre @ n \<longrightarrow> replaced resolv n contents e) \<and>
    (\<forall>(n, t)\<in>set touch. pre @ n \<in> th_Name ` fst ` set files \<or> pre @ th_Name t \<in> th_Name ` fst ` set files)"
proof (intro exI conjI)
  let ?files = "imageFiles location (ref_String r) pre resolv es"
  show "ImageTar env location (Some r) pre tarWriter resolv (w, None) = Ok (w\<lparr>tw_out := tw_out w @ map on_tape ?files\<rparr>, None)"
    using assms imageFiles_exact [OF assms(3)] by (simp add: tarw.ImageTar_Ok_iff run_entries addSboms_def)
  show "list_all2 (moved (ref_String r) location pre) (filter (\<lambda>e. own_name (th_Name (fst e))) es)
      (filter (own_below pre) ?files)"
    by (rule imageFiles_moved)
  show "\<forall>n\<in>{''.dockerenv'', ''Dockerfile'', ''dev/console'', ''etc/hostname''}. pre @ n \<notin> th_Name ` fst ` set ?files"
  proof
    fix n assume "n \<in> {''.dockerenv'', ''Dockerfile'', ''dev/console'', ''etc/hostname''}"
    then have "n \<in> set exclude" "\<forall>t\<in>set touch. th_Name (snd t) \<noteq> n"
      by (auto simp: exclude_def touch_def touchDir_def touchReg_def)
    from imageFiles_excluded [OF this] show "pre @ n \<notin> th_Name ` fst ` set ?files" by force
  qed
  show "\<forall>(n, contents)\<in>set replace. \<forall>e\<in>set ?files. th_Name (fst e) = pre @ n \<longrightarrow> replaced resolv n contents e"
  proof safe
    fix n contents h d assume "(n, contents) \<in> set replace" "(h, d) \<in> set ?files" "th_Name (fst (h, d)) = pre @ n"
    moreover have "distinct (map fst replace)" by (simp add: replace_def)
    ultimately show "replaced resolv n contents (h, d)"
      by (intro imageFiles_replaced) auto
  qed
  show "\<forall>(n, t)\<in>set touch. pre @ n \<in> th_Name ` fst ` set ?files \<or> pre @ th_Name t \<in> th_Name ` fst ` set ?files"
    using imageFiles_touch [of _ _ location "ref_String r" pre resolv es] by (fastforce simp: image_iff)
qed

theorem ImageTar_total_witness:
  "\<exists>files sh ash. ImageTar demoEnv ''init[0]'' (Some demoSpec) ''containers/'' tarWriter [] (NewWriter, None) =
      Ok (NewWriter\<lparr>tw_out := map on_tape files\<rparr>, None) \<and>
    filter (own_below ''containers/'') files = [sh, ash] \<and> th_Name (fst sh) = ''containers/bin/sh'' \<and> snd sh = ''elf'' \<and>
    th_Linkname (fst ash) = ''containers/bin/sh''"
proof -
  have own: "filter (\<lambda>e. own_name (th_Name (fst e))) demoStream = drop 3 demoStream"
    by (simp add: demoStream_def own_name_def exclude_def replace_def touch_def touchDir_def touchReg_def Header_def)
  obtain files where run: "ImageTar demoEnv ''init[0]'' (Some demoSpec) ''containers/'' tarWriter [] (NewWriter, None) =
      Ok (NewWriter\<lparr>tw_out := map on_tape files\<rparr>, None)"
    and all: "list_all2 (moved (ref_String demoSpec) ''init[0]'' ''containers/'') (drop 3 demoStream)
      (filter (own_below ''containers/'') files)"
    using ImageTar_total [of demoEnv demoSpec demoSource demoStream "[]" "''containers/''" NewWriter "''init[0]''"] demo_image_ok
    by (auto simp: demoEnv_def demoSource_def prefix_ok_def NewWriter_def own)
  from all have "\<exists>sh ash. filter (own_below ''containers/'') files = [sh, ash] \<and> th_Name (fst sh) = ''containers/bin/sh'' \<and>
      snd sh = ''elf'' \<and> th_Linkname (fst ash) = ''containers/bin/sh''"
    by (auto simp: demoStream_def list_all2_Cons1 moved_def Header_def)
  with run show ?thesis by blast
qed

text \<open>
  What an unpacked image contributes to the archive: every entry carries the source and the
  location it comes from, every file that must exist is there, and every entry is a leading
  directory or lies below the prefix under a name that is not one of the excluded ones (or is
  one of the files that must exist).
\<close>

theorem ImageTar_contents:
  assumes "ImageTar env location (Some r) pre tarWriter resolv (w, sg) = Ok (w', sg')"
    and "\<not> tw_closed w"
  shows "\<exists>files. tw_out w' = tw_out w @ map on_tape files \<and>
    list_all (marked (ref_String r) location) files \<and>
    (\<forall>(n, t) \<in> set touch. \<exists>e \<in> set files.
      th_Name (fst e) = pre @ n \<or> th_Name (fst e) = pre @ th_Name t) \<and>
    (\<forall>e \<in> set files. th_Name (fst e) \<in> set (prefixDirs pre) \<or>
      (\<exists>n. th_Name (fst e) = pre @ n \<and>
        (n \<notin> set exclude \<or> n \<in> set (map (\<lambda>t. th_Name (snd t)) touch))))"
  using assms
proof (cases rule: ImageTar_tar_out)
  case (1 src es)
  show ?thesis
    using 1(3) imageFiles_marked imageFiles_touch [of _ _ location "ref_String r" pre resolv es]
      imageFiles_names [of _ location "ref_String r" pre resolv es]
    by (intro exI [of _ "imageFiles location (ref_String r) pre resolv es"]) blast
qed

theorem ImageTar_contents_witness:
  "\<exists>w' files. ImageTar demoEnv ''init[0]'' (Some demoSpec) ''containers/'' tarWriter [] (NewWriter, None)
      = Ok (w', None) \<and> tw_out w' = map on_tape files \<and>
    list_all (marked (ref_String demoSpec) ''init[0]'') files"
proof -
  have ok: "ImageTar demoEnv ''init[0]'' (Some demoSpec) ''containers/'' tarWriter [] (NewWriter, None) =
    Ok (NewWriter\<lparr>tw_out := map on_tape
      (imageFiles ''init[0]'' (ref_String demoSpec) ''containers/'' [] demoStream)\<rparr>, None)"
    using demo_image_ok imageFiles_exact [OF demo_image_ok]
    by (simp add: tarw.ImageTar_Ok_iff run_entries addSboms_def demoEnv_def demoSource_def
        prefix_ok_def NewWriter_def)
  have "\<not> tw_closed NewWriter" by (simp add: NewWriter_def)
  from ImageTar_contents [OF ok this] ok show ?thesis by (auto simp: NewWriter_def)
qed

text \<open>
  A file that is replaced is not counted as found, so an image that has its own \<^verbatim>\<open>etc/hosts\<close>
  contributes that file twice.
\<close>

lemma imageFiles_hosts_twice:
  assumes "e \<in> set es" and "th_Name (fst e) = ''etc/hosts''"
  shows "2 \<le> length (filter (\<lambda>f. th_Name (fst f) = pre @ ''etc/hosts'')
    (imageFiles location refName pre resolv es))"
proof -
  let ?P = "\<lambda>f. th_Name (fst f) = pre @ ''etc/hosts''"
  obtain c where r: "map_of replace ''etc/hosts'' = Some c" by (simp add: replace_def)
  have "''etc/hosts'' \<notin> set exclude" by (simp add: exclude_def)
  then obtain f where "imageOut location refName pre resolv e = [f]" "?P f"
    using assms(2) r by (simp add: imageOut_def Let_def)
  then have "f \<in> set (filter ?P (concat (map (imageOut location refName pre resolv) es)))"
    using assms(1) by force
  then have 1: "0 < length (filter ?P (concat (map (imageOut location refName pre resolv) es)))"
    by (rule length_pos_if_in_set)
  let ?t = "(''etc/hosts'', touchReg ''etc/hosts'')"
  have "?t \<in> set touch" by (simp add: touch_def)
  moreover have "''etc/hosts'' \<notin> touched es" using r by (auto simp: touched_def)
  moreover have "?P (touchOut location refName pre resolv ?t)"
    unfolding touchOut_name by (simp add: touchReg_def)
  ultimately have "touchOut location refName pre resolv ?t \<in> set (filter ?P
      (map (touchOut location refName pre resolv) (filter (\<lambda>t. fst t \<notin> touched es) (sort_key fst touch))))"
    by (simp del: filter_map)
  then have 2: "0 < length (filter ?P (map (touchOut location refName pre resolv)
      (filter (\<lambda>t. fst t \<notin> touched es) (sort_key fst touch))))"
    by (rule length_pos_if_in_set)
  from 1 2 show ?thesis
    unfolding imageFiles_def filter_append length_append by linarith
qed

end
