(* ===== verification/Image_Bundle.thy ===== *)
theory Image_Bundle
  imports Image_Tar
begin

text \<open>
  Bundles of \<^verbatim>\<open>moby/build/image.go\<close>: the root file system of a container with its configuration
  and runtime files, where an image that several containers use is unpacked once; and copying
  the files of a section from an existing archive, \<^verbatim>\<open>extractPackageFilesFromTar\<close> of
  \<^verbatim>\<open>moby/build/build.go\<close>.
\<close>

section \<open>Bundles\<close>

definition fileHdr :: "string \<Rightarrow> string \<Rightarrow> string \<Rightarrow> string \<Rightarrow> tar_hdr" where
  "fileHdr name contents refName location =
     Header\<lparr>th_Name := name, th_Mode := 420, th_Size := length contents,
       th_ModTime := defaultModTime, th_Format := FormatPAX,
       th_PAXRecords := pax_records refName location\<rparr>"

definition writeFile ::
  "'w tarWriter \<Rightarrow> string \<Rightarrow> string \<Rightarrow> string \<Rightarrow> string \<Rightarrow> 'w \<Rightarrow> 'w res" where
  "writeFile tw name contents refName location w =
     bind_res (w_WriteHeader tw (fileHdr name contents refName location) w) (w_Write tw contents)"

definition overlayMounts :: "string \<Rightarrow> string \<Rightarrow> Mount list" where
  "overlayMounts pre root =
     (let tmp = path_join [pre, ''tmp''] in
      [mount (''/'' @ tmp) ''tmpfs'' ''tmpfs'' [],
       mount (''/'' @ tmp) [] [] [''remount'', ''private''],
       mount (''/'' @ path_join [pre, ''rootfs'']) ''overlay'' ''overlay''
         [''lowerdir=/'' @ root, ''upperdir=/'' @ path_join [tmp, ''upper''],
          ''workdir=/'' @ path_join [tmp, ''work'']]])"

definition bindMounts :: "string \<Rightarrow> string \<Rightarrow> Mount list" where
  "bindMounts pre root =
     [mount (''/'' @ path_join [pre, ''rootfs'']) [] (''/'' @ root) [''bind'']]"

type_synonym 'w buildState = "'w \<times> SbomGenerator option \<times> (string \<Rightarrow> string)"

text \<open>The first part: the root file system, unless it was unpacked before.\<close>

definition bundleRoot ::
  "BuildEnv \<Rightarrow> string \<Rightarrow> string \<Rightarrow> refspec \<Rightarrow> 'w tarWriter \<Rightarrow> bool \<Rightarrow> 'w buildState \<Rightarrow>
    (string \<times> bool \<times> 'w buildState) res" where
  "bundleRoot env pre location ref tw readonly st =
     (case st of (w, sg, dupMap) \<Rightarrow>
      let rootExtract = (if readonly then ''rootfs'' else ''lower'');
          root = path_join [pre, rootExtract];
          foundElsewhere = (dupMap (ref_String ref) \<noteq> [])
      in if \<not> foundElsewhere
         then bind_res (ImageTar env location (Some ref) (root @ ''/'') tw [] (w, sg))
                (\<lambda>(w, sg). Ok (root, False, w, sg, dupMap(ref_String ref := root)))
         else bind_res (tarPrefix (pre @ ''/'') location (ref_String ref) tw w)
                (\<lambda>w. Ok (dupMap (ref_String ref), True, w, sg, dupMap)))"

text \<open>
  A nil reference has no string and a nil list of mounts cannot be appended to: both panic.
\<close>

definition ImageBundle ::
  "BuildEnv \<Rightarrow> string \<Rightarrow> string \<Rightarrow> refspec option \<Rightarrow> string \<Rightarrow> Runtime \<Rightarrow> 'w tarWriter \<Rightarrow> bool \<Rightarrow>
    'w buildState \<Rightarrow> ('w buildState) res" where
  "ImageBundle env pre location ref0 config runtime tw readonly st =
     (case ref0 of None \<Rightarrow> Panic | Some ref \<Rightarrow>
      bind_res (bundleRoot env pre location ref tw readonly st)
      (\<lambda>(root, foundElsewhere, w, sg, dupMap).
        bind_res (writeFile tw (path_join [pre, ''config.json'']) config (ref_String ref) location w)
      (\<lambda>w. bind_res
        (if \<not> readonly
         then bind_res (w_WriteHeader tw
                  (dirHdr (path_join [pre, ''tmp'']) (ref_String ref) location) w)
                (w_WriteHeader tw (dirHdr (path_join [pre, ''rootfs'']) (ref_String ref) location))
         else if foundElsewhere
         then w_WriteHeader tw (dirHdr (path_join [pre, ''rootfs'']) (ref_String ref) location) w
         else Ok w)
      (\<lambda>w. let rootfsMounts = (if readonly then bindMounts pre root else overlayMounts pre root) in
        case rt_Mounts runtime of None \<Rightarrow> Panic | Some ms \<Rightarrow>
        bind_res (wrap_err (''failed to create runtime config for '' @ ref_String ref @ '': '')
                    (be_marshalRuntime env (runtime\<lparr>rt_Mounts := Some (rootfsMounts @ ms)\<rparr>)))
      (\<lambda>runtimeConfig.
        bind_res (writeFile tw (path_join [pre, ''runtime.json'']) runtimeConfig (ref_String ref)
                    location w)
      (\<lambda>w. Ok (w, sg, dupMap)))))))"

section \<open>Copying from an existing archive\<close>

definition extractEntry ::
  "'w tarWriter \<Rightarrow> string \<Rightarrow> string \<Rightarrow> tar_hdr \<Rightarrow> string \<Rightarrow> 'w \<Rightarrow> 'w res" where
  "extractEntry tw image_name sect hdr data w =
     (if th_PAXRecords hdr = None then Ok w
      else if pax_get PaxRecordLinuxkitSource hdr = image_name
              \<and> pax_get PaxRecordLinuxkitLocation hdr = sect
      then bind_res (wrap_err ''failed to write header: '' (w_WriteHeader tw hdr w))
             (\<lambda>w. wrap_err (''failed to copy '' @ sect @ '' file: '') (io_Copy tw data w))
      else Ok w)"

definition extractPackageFilesFromTar ::
  "tar_stream \<Rightarrow> 'w tarWriter \<Rightarrow> string \<Rightarrow> string \<Rightarrow> 'w \<Rightarrow> 'w res" where
  "extractPackageFilesFromTar inTar tw image_name sect w =
     tar_loop (extractEntry tw image_name sect)
       (fst inTar, case snd inTar of None \<Rightarrow> None | Some e \<Rightarrow> Some (''failed to read input tar: '' @ e)) w"

section \<open>What a bundle writes\<close>

lemma writeFile_tar:
  assumes "\<not> ends_slash name" and "\<not> tw_closed w"
  shows "writeFile tarWriter name contents refName location w = Ok w' \<longleftrightarrow>
    tw_left w = 0 \<and>
    w' = w\<lparr>tw_out := tw_out w @ [on_tape (fileHdr name contents refName location, contents)]\<rparr>"
proof -
  have "payload (fileHdr name contents refName location) = length contents"
    using assms by (simp add: fileHdr_def payload_old Header_def)
  with assms show ?thesis
    by (auto simp: writeFile_def tw_WriteHeader_def tw_Flush_def tw_Write_def on_tape_def app_data_snoc)
qed

lemma dir_tar:
  assumes "\<not> tw_closed w"
  shows "tw_WriteHeader (dirHdr d refName location) w = Ok w' \<longleftrightarrow>
    tw_left w = 0 \<and> w' = w\<lparr>tw_out := tw_out w @ [on_tape (dirHdr d refName location, [])]\<rparr>"
proof -
  have "payload (dirHdr d refName location) = 0"
    by (simp add: dirHdr_def payload_only isHeaderOnlyType_def)
  with assms show ?thesis
    by (auto simp: tw_WriteHeader_def tw_Flush_def on_tape_def)
qed

text \<open>The invariant of the table of unpacked images: what it points at is in the archive.\<close>

definition unpacked :: "BuildEnv \<Rightarrow> string \<Rightarrow> string \<Rightarrow> tar_entry list \<Rightarrow> bool" where
  "unpacked env refName root out \<longleftrightarrow>
     (\<exists>ref src es location. ref_String ref = refName \<and> be_imageSource env ref = Ok src \<and>
        src_TarReader src = Ok (es, None) \<and>
        set (map on_tape (imageFiles location refName (root @ ''/'') [] es)) \<subseteq> set out)"

definition dup_ok :: "BuildEnv \<Rightarrow> (string \<Rightarrow> string) \<Rightarrow> tar_entry list \<Rightarrow> bool" where
  "dup_ok env dupMap out \<longleftrightarrow> (\<forall>r. dupMap r \<noteq> [] \<longrightarrow> unpacked env r (dupMap r) out)"

lemma unpacked_mono: "unpacked env r root out \<Longrightarrow> set out \<subseteq> set out' \<Longrightarrow> unpacked env r root out'"
  unfolding unpacked_def by blast

lemma dup_ok_mono: "dup_ok env dupMap out \<Longrightarrow> set out \<subseteq> set out' \<Longrightarrow> dup_ok env dupMap out'"
  unfolding dup_ok_def using unpacked_mono by blast

lemma written_hdrs: "written es (map (\<lambda>d. Hdr (f d)) ds) = es @ map (\<lambda>d. (norm_hdr (f d), [])) ds"
  by (induction ds arbitrary: es) simp_all

lemma bundleRoot_tar:
  assumes "bundleRoot env pre location ref tarWriter readonly (w, sg, dupMap) =
      Ok (root, found, w', sg', dupMap')"
    and "\<not> tw_closed w"
  shows "found = (dupMap (ref_String ref) \<noteq> []) \<and>
    dupMap' = dupMap(ref_String ref := root) \<and>
    root = (if found then dupMap (ref_String ref)
            else path_join [pre, if readonly then ''rootfs'' else ''lower'']) \<and>
    \<not> tw_closed w' \<and> set (tw_out w) \<subseteq> set (tw_out w') \<and>
    (\<not> found \<longrightarrow> unpacked env (ref_String ref) root (tw_out w'))"
proof (cases "dupMap (ref_String ref) = []")
  case True
  with assms(1) have img: "ImageTar env location (Some ref)
      (path_join [pre, if readonly then ''rootfs'' else ''lower''] @ ''/'') tarWriter [] (w, sg) = Ok (w', sg')"
    and rest: "root = path_join [pre, if readonly then ''rootfs'' else ''lower'']" "\<not> found"
      "dupMap' = dupMap(ref_String ref := root)"
    by (auto simp: bundleRoot_def Let_def)
  from img assms(2) show ?thesis
  proof (cases rule: ImageTar_tar_out)
    case (1 src es)
    then have "unpacked env (ref_String ref) root (tw_out w')"
      unfolding unpacked_def rest(1)
      by (intro exI [of _ ref] exI [of _ src] exI [of _ es] exI [of _ location]) auto
    with 1 True rest show ?thesis by auto
  qed
next
  case False
  with assms(1) have "tarPrefix (pre @ ''/'') location (ref_String ref) tarWriter w = Ok w'"
    and rest: "root = dupMap (ref_String ref)" "found" "dupMap' = dupMap"
    by (auto simp: bundleRoot_def Let_def)
  moreover from this(1) have "prefix_ok (pre @ ''/'')"
    using tarPrefix_ok [of "pre @ ''/''" location "ref_String ref" tarWriter w] by (simp add: is_ok_iff)
  ultimately have "run_ops tarWriter (map (\<lambda>d. Hdr (dirHdr d (ref_String ref) location))
      (prefixDirs (pre @ ''/''))) w = Ok w'"
    by (simp add: tarPrefix_run)
  then have "\<not> tw_closed w'" "set (tw_out w) \<subseteq> set (tw_out w')"
    using assms(2) by (auto simp: run_tarWriter written_hdrs)
  with False rest show ?thesis by auto
qed

lemma join_no_slash:
  assumes "plain c" shows "\<not> ends_slash (path_join [pre, c])"
proof -
  obtain p' where "path_join [pre, c] = p' @ c" using path_join_plain [OF assms] by blast
  moreover have "c \<noteq> []" "last c \<noteq> CHR ''/''"
    using assms unfolding plain_def by (simp, metis last_in_set)
  ultimately show ?thesis by (simp add: ends_slash_def)
qed

lemma plain_json [simp]: "plain ''config.json''" "plain ''runtime.json''" "plain ''rootfs''"
  "plain ''lower''" "plain ''tmp''"
  by (simp_all add: plain_def)

text \<open>The entries a bundle adds after its root file system.\<close>

definition bundleFiles ::
  "string \<Rightarrow> string \<Rightarrow> string \<Rightarrow> string \<Rightarrow> string \<Rightarrow> bool \<Rightarrow> bool \<Rightarrow> tar_entry list" where
  "bundleFiles pre location refName config runtimeConfig readonly found =
     (fileHdr (path_join [pre, ''config.json'']) config refName location, config) #
     (if \<not> readonly then [(dirHdr (path_join [pre, ''tmp'']) refName location, [])] else []) @
     (if \<not> readonly \<or> found then [(dirHdr (path_join [pre, ''rootfs'']) refName location, [])] else []) @
     [(fileHdr (path_join [pre, ''runtime.json'']) runtimeConfig refName location, runtimeConfig)]"

lemma ImageBundle_Ok:
  assumes "ImageBundle env pre location (Some ref) config runtime tarWriter readonly (w, sg, dupMap) =
      Ok (w', sg', dupMap')"
    and "\<not> tw_closed w"
  obtains root found w1 ms runtimeConfig where
    "bundleRoot env pre location ref tarWriter readonly (w, sg, dupMap) = Ok (root, found, w1, sg', dupMap')"
    "rt_Mounts runtime = Some ms"
    "be_marshalRuntime env (runtime\<lparr>rt_Mounts := Some
       ((if readonly then bindMounts pre root else overlayMounts pre root) @ ms)\<rparr>) = Ok runtimeConfig"
    "tw_left w1 = 0" "\<not> tw_closed w1"
    "w' = w1\<lparr>tw_out := tw_out w1 @ map on_tape
       (bundleFiles pre location (ref_String ref) config runtimeConfig readonly found)\<rparr>"
proof -
  from assms(1) obtain root found w1 where
    br: "bundleRoot env pre location ref tarWriter readonly (w, sg, dupMap) = Ok (root, found, w1, sg', dupMap')"
    by (auto simp: ImageBundle_def split: option.splits)
  from bundleRoot_tar [OF br assms(2)] have open1: "\<not> tw_closed w1" by simp
  from assms(1) br open1 that show thesis
    by (auto simp: ImageBundle_def writeFile_tar join_no_slash dir_tar bundleFiles_def Let_def
        split: option.splits if_splits)
qed

lemma ImageBundle_unpacked:
  assumes "ImageBundle env pre location (Some ref) config runtime tarWriter readonly (w, sg, dupMap) =
      Ok (w', sg', dupMap')"
    and "\<not> tw_closed w" and "dup_ok env dupMap (tw_out w)"
  shows "dup_ok env dupMap' (tw_out w') \<and>
    (\<exists>root ms runtimeConfig. unpacked env (ref_String ref) root (tw_out w') \<and>
      dupMap' = dupMap(ref_String ref := root) \<and> rt_Mounts runtime = Some ms \<and>
      be_marshalRuntime env (runtime\<lparr>rt_Mounts := Some
        ((if readonly then bindMounts pre root else overlayMounts pre root) @ ms)\<rparr>) = Ok runtimeConfig \<and>
      last (tw_out w') =
        on_tape (fileHdr (path_join [pre, ''runtime.json'']) runtimeConfig (ref_String ref) location, runtimeConfig))"
  using assms(1,2)
proof (cases rule: ImageBundle_Ok)
  case (1 root found w1 ms runtimeConfig)
  note root = bundleRoot_tar [OF 1(1) assms(2)]
  have sub: "set (tw_out w1) \<subseteq> set (tw_out w')" using 1(6) by simp
  have un: "unpacked env (ref_String ref) root (tw_out w')"
  proof (cases found)
    case True
    then have "unpacked env (ref_String ref) root (tw_out w)"
      using root assms(3) by (auto simp: dup_ok_def)
    then show ?thesis using root sub unpacked_mono by blast
  next
    case False
    then show ?thesis using root sub unpacked_mono by blast
  qed
  have "dup_ok env dupMap (tw_out w')"
    using dup_ok_mono [OF assms(3)] root sub by blast
  with un root have "dup_ok env dupMap' (tw_out w')" by (auto simp: dup_ok_def)
  moreover have "last (tw_out w') = on_tape (fileHdr (path_join [pre, ''runtime.json'']) runtimeConfig
      (ref_String ref) location, runtimeConfig)"
    by (simp add: 1(6) bundleFiles_def)
  ultimately show ?thesis using un root 1(2,3) by blast
qed

text \<open>
  A regular file (mode 0644) and a directory (mode 0755) of an archive, as a reader finds them; a file is
  annotated with the image and the place in the configuration it is for.
\<close>

definition has_file :: "tar_entry list \<Rightarrow> string \<Rightarrow> string \<Rightarrow> string \<Rightarrow> string \<Rightarrow> bool" where
  "has_file out refName location name data \<longleftrightarrow>
     (\<exists>h. (h, data) \<in> set out \<and> th_Name h = name \<and> th_Typeflag h = TypeReg \<and> th_Mode h = 420 \<and>
        th_Size h = length data \<and> pax_get PaxRecordLinuxkitSource h = refName \<and>
        pax_get PaxRecordLinuxkitLocation h = location)"

definition has_dir :: "tar_entry list \<Rightarrow> string \<Rightarrow> bool" where
  "has_dir out name \<longleftrightarrow>
     (\<exists>h. (h, []) \<in> set out \<and> th_Name h = name @ ''/'' \<and> th_Typeflag h = TypeDir \<and> th_Mode h = 493)"

lemma has_mono:
  "has_file out r l n d \<Longrightarrow> set out \<subseteq> set out' \<Longrightarrow> has_file out' r l n d"
  "has_dir out n \<Longrightarrow> set out \<subseteq> set out' \<Longrightarrow> has_dir out' n"
  unfolding has_file_def has_dir_def by blast+

lemma has_fileI:
  assumes "on_tape (fileHdr name data refName location, data) \<in> set out" and "\<not> ends_slash name"
  shows "has_file out refName location name data"
  unfolding has_file_def
  by (intro exI [of _ "norm_hdr (fileHdr name data refName location)"])
     (use assms in \<open>auto simp: on_tape_def norm_hdr_def fileHdr_def Header_def pax_get_def pax_records_def
        PaxRecordLinuxkitSource_def PaxRecordLinuxkitLocation_def\<close>)

lemma has_dirI:
  assumes "on_tape (dirHdr name refName location, []) \<in> set out" and "\<not> ends_slash name"
  shows "has_dir out name"
  unfolding has_dir_def
  by (intro exI [of _ "norm_hdr (dirHdr name refName location)"])
     (use assms in \<open>auto simp: on_tape_def norm_hdr_def dirHdr_def Header_def\<close>)

lemma leading_last: "ds \<noteq> [] \<Longrightarrow> acc @ join ''/'' ds \<in> set (leading acc ds)"
proof (induction ds arbitrary: acc)
  case (Cons d ds)
  show ?case
  proof (cases "ds = []")
    case False
    from Cons.IH [OF this, of "acc @ d @ ''/''"] False show ?thesis by (simp add: join_Cons)
  qed simp
qed simp

lemma unpacked_dir:
  assumes "unpacked env refName root out" and "\<not> ends_slash root"
  shows "has_dir out root"
proof -
  from assms(1) obtain es location where
    sub: "set (map on_tape (imageFiles location refName (root @ ''/'') [] es)) \<subseteq> set out"
    unfolding unpacked_def by blast
  have "root \<in> set (prefixDirs (root @ ''/''))"
    using leading_last [of "split_on (CHR ''/'') root" "[]"] by (simp add: prefixDirs_def join_split_on)
  then have "(dirHdr root refName location, []) \<in> set (imageFiles location refName (root @ ''/'') [] es)"
    by (simp add: imageFiles_def)
  then have "on_tape (dirHdr root refName location, []) \<in> set out" using sub by (simp add: image_subset_iff)
  then show ?thesis using assms(2) by (rule has_dirI)
qed

text \<open>All that a bundle needs: the specification, the runtime configuration, the root and where it is mounted.\<close>

lemma ImageBundle_complete:
  assumes "ImageBundle env pre location (Some ref) config runtime tarWriter readonly (w, sg, dupMap) =
      Ok (w', sg', dupMap')"
    and "\<not> tw_closed w" and "dup_ok env dupMap (tw_out w)"
  shows "dup_ok env dupMap' (tw_out w') \<and> set (tw_out w) \<subseteq> set (tw_out w') \<and> \<not> tw_closed w' \<and> tw_left w' = 0 \<and>
    (\<exists>root ms runtimeConfig. unpacked env (ref_String ref) root (tw_out w') \<and> rt_Mounts runtime = Some ms \<and>
      be_marshalRuntime env (runtime\<lparr>rt_Mounts := Some
        ((if readonly then bindMounts pre root else overlayMounts pre root) @ ms)\<rparr>) = Ok runtimeConfig \<and>
      has_file (tw_out w') (ref_String ref) location (path_join [pre, ''config.json'']) config \<and>
      has_file (tw_out w') (ref_String ref) location (path_join [pre, ''runtime.json'']) runtimeConfig \<and>
      has_dir (tw_out w') (path_join [pre, ''rootfs'']) \<and>
      (\<not> readonly \<longrightarrow> has_dir (tw_out w') (path_join [pre, ''tmp''])))"
  using assms(1,2)
proof (cases rule: ImageBundle_Ok)
  case (1 root found w1 ms runtimeConfig)
  note slash = join_no_slash [of _ pre]
  note root = bundleRoot_tar [OF 1(1) assms(2)]
  from ImageBundle_unpacked [OF assms] have dup: "dup_ok env dupMap' (tw_out w')"
    and un: "unpacked env (ref_String ref) root (tw_out w')"
    using root by (auto dest: fun_cong [where x = "ref_String ref"])
  have out: "set (map on_tape (bundleFiles pre location (ref_String ref) config runtimeConfig readonly found)) \<subseteq> set (tw_out w')"
    using 1(6) by auto
  have "has_dir (tw_out w') (path_join [pre, ''rootfs''])"
  proof (cases "readonly \<and> \<not> found")
    case True
    then show ?thesis using root un unpacked_dir slash by simp
  next
    case False
    then show ?thesis using out slash by (intro has_dirI [of _ "ref_String ref" location]) (auto simp: bundleFiles_def)
  qed
  moreover have "\<not> readonly \<longrightarrow> has_dir (tw_out w') (path_join [pre, ''tmp''])"
    using out slash by (auto simp: bundleFiles_def intro!: has_dirI [of _ "ref_String ref" location])
  moreover have "has_file (tw_out w') (ref_String ref) location (path_join [pre, ''config.json'']) config"
    "has_file (tw_out w') (ref_String ref) location (path_join [pre, ''runtime.json'']) runtimeConfig"
    using out slash has_fileI by (simp_all add: bundleFiles_def)
  moreover have "set (tw_out w) \<subseteq> set (tw_out w')" "\<not> tw_closed w'" "tw_left w' = 0"
    using root 1(4-6) by auto
  ultimately show ?thesis using dup un 1(2,3) by blast
qed

section \<open>An example bundle\<close>

definition demoRuntime :: Runtime where
  "demoRuntime = Runtime_zero\<lparr>rt_Mounts := Some []\<rparr>"

lemma demo_root:
  "path_join [''containers/services/sshd'', if readonly then ''rootfs'' else ''lower''] =
     ''containers/services/sshd/'' @ (if readonly then ''rootfs'' else ''lower'')"
  by (cases readonly) (simp_all only: if_True if_False, code_simp+)

lemma demo_bundle_env:
  assumes "be_imageSource env = (\<lambda>r. Ok demoSource)" and "rt_Mounts runtime = Some ms"
    and "root = ''containers/services/sshd/'' @ (if readonly then ''rootfs'' else ''lower'')"
    and "be_marshalRuntime env (runtime\<lparr>rt_Mounts := Some
      ((if readonly then bindMounts ''containers/services/sshd'' root
        else overlayMounts ''containers/services/sshd'' root) @ ms)\<rparr>) = Ok rc"
  shows "\<exists>w' d'. ImageBundle env ''containers/services/sshd'' ''services[0]'' (Some demoSpec) config runtime
     tarWriter readonly (NewWriter, None, \<lambda>_. []) = Ok (w', None, d') \<and> \<not> tw_closed w' \<and> tw_left w' = 0 \<and>
     snd (last (tw_out w')) = rc"
proof -
  let ?loc = "''services[0]''"
  have pre: "prefix_ok (root @ ''/'')" by (simp add: assms(3) prefix_ok_def)
  let ?w = "NewWriter\<lparr>tw_out := map on_tape (imageFiles ?loc (ref_String demoSpec) (root @ ''/'') [] demoStream)\<rparr>"
  have "ImageTar env ?loc (Some demoSpec) (root @ ''/'') tarWriter [] (NewWriter, None) = Ok (?w, None)"
    using imageFiles_exact [OF demo_image_ok] pre
    by (simp add: tarw.ImageTar_Ok_iff run_entries addSboms_def assms(1) demoSource_def NewWriter_sel)
  then have "bundleRoot env ''containers/services/sshd'' ?loc demoSpec tarWriter readonly (NewWriter, None, \<lambda>_. []) =
      Ok (root, False, ?w, None, (\<lambda>_. [])(ref_String demoSpec := root))"
    by (simp add: bundleRoot_def Let_def demo_root assms(3) split del: if_split)
  moreover have "\<not> tw_closed ?w" "tw_left ?w = 0" by (simp_all add: NewWriter_sel)
  ultimately show ?thesis
    using assms(2,4)
    by (cases readonly) (simp_all add: ImageBundle_def writeFile_tar [OF join_no_slash] dir_tar Let_def on_tape_def)
qed

lemma demo_bundle_ready:
  assumes "rt_Mounts runtime = Some ms"
  shows "\<exists>w' d'. ImageBundle demoEnv ''containers/services/sshd'' ''services[0]'' (Some demoSpec) config runtime
     tarWriter readonly (NewWriter, None, \<lambda>_. []) = Ok (w', None, d') \<and> \<not> tw_closed w' \<and> tw_left w' = 0"
  using demo_bundle_env [of demoEnv runtime ms _ readonly "''{}''" config] assms
  by (force simp: demoEnv_def)

lemma demo_bundle:
  "is_ok (ImageBundle demoEnv ''containers/services/sshd'' ''services[0]'' (Some demoSpec) ''{}'' demoRuntime
     tarWriter True (NewWriter, None, \<lambda>_. []))"
  using demo_bundle_ready [of demoRuntime "[]" "''{}''" True] by (auto simp: is_ok_iff demoRuntime_def)

section \<open>Properties\<close>

text \<open>
  C4. An image used by several containers is unpacked once and found again: writing a bundle
  keeps the invariant that every path in the table of unpacked images holds, in the archive, all
  files of its image; afterwards the bundle's own image is in the table, under the path that
  its runtime configuration mounts, and no other entry has changed.
\<close>

theorem ImageBundle_dup_ok:
  assumes "ImageBundle env pre location (Some ref) config runtime tarWriter readonly (w, sg, dupMap) =
      Ok (w', sg', dupMap')"
    and "\<not> tw_closed w" and "dup_ok env dupMap (tw_out w)"
  shows "dup_ok env dupMap' (tw_out w') \<and>
    (\<exists>root ms runtimeConfig. unpacked env (ref_String ref) root (tw_out w') \<and>
      dupMap' = dupMap(ref_String ref := root) \<and> rt_Mounts runtime = Some ms \<and>
      be_marshalRuntime env (runtime\<lparr>rt_Mounts := Some
        ((if readonly then bindMounts pre root else overlayMounts pre root) @ ms)\<rparr>) = Ok runtimeConfig \<and>
      last (tw_out w') =
        on_tape (fileHdr (path_join [pre, ''runtime.json'']) runtimeConfig (ref_String ref) location, runtimeConfig))"
  using ImageBundle_unpacked [OF assms] .

theorem ImageBundle_dup_ok_witness:
  "\<exists>w' sg' dupMap'. ImageBundle demoEnv ''containers/services/sshd'' ''services[0]'' (Some demoSpec) ''{}''
      demoRuntime tarWriter True (NewWriter, None, \<lambda>_. []) = Ok (w', sg', dupMap') \<and>
     dup_ok demoEnv dupMap' (tw_out w')"
proof -
  obtain w' sg' dupMap' where ok: "ImageBundle demoEnv ''containers/services/sshd'' ''services[0]''
      (Some demoSpec) ''{}'' demoRuntime tarWriter True (NewWriter, None, \<lambda>_. []) = Ok (w', sg', dupMap')"
    using demo_bundle unfolding is_ok_iff by auto
  have "\<not> tw_closed NewWriter" "dup_ok demoEnv (\<lambda>_. []) (tw_out NewWriter)"
    by (simp_all add: NewWriter_def dup_ok_def)
  from ImageBundle_dup_ok [OF ok this] ok show ?thesis by blast
qed

text \<open>
  C30. A bundle whose image is already in the table does not read the image again: it succeeds
  whatever the image source does, and adds only the leading directories, the two configuration
  files and the mount points.
\<close>

theorem ImageBundle_reuse:
  assumes "dupMap (ref_String ref) = root" and "root \<noteq> []" and "rt_Mounts runtime = Some ms"
    and "be_marshalRuntime env (runtime\<lparr>rt_Mounts := Some
      ((if readonly then bindMounts pre root else overlayMounts pre root) @ ms)\<rparr>) = Ok rc"
    and "prefix_ok (pre @ ''/'')" and "\<not> tw_closed w" and "tw_left w = 0"
  shows "ImageBundle env pre location (Some ref) config runtime tarWriter readonly (w, sg, dupMap) =
    Ok (w\<lparr>tw_out := tw_out w @ map on_tape
      (map (\<lambda>d. (dirHdr d (ref_String ref) location, [])) (prefixDirs (pre @ ''/'')) @
       bundleFiles pre location (ref_String ref) config rc readonly True)\<rparr>, sg, dupMap)"
proof -
  have pay: "payload (dirHdr d (ref_String ref) location) = 0" for d
    by (simp add: dirHdr_def payload_only isHeaderOnlyType_def)
  have leaves: "leaves 0 (map (\<lambda>d. Hdr (dirHdr d (ref_String ref) location)) ds) = Some 0" for ds
    by (induction ds) (simp_all add: pay)
  have "tarPrefix (pre @ ''/'') location (ref_String ref) tarWriter w =
      Ok (w\<lparr>tw_out := tw_out w @ map on_tape
        (map (\<lambda>d. (dirHdr d (ref_String ref) location, [])) (prefixDirs (pre @ ''/'')))\<rparr>)"
    using assms(5-7) by (simp add: tarPrefix_run run_tarWriter leaves written_hdrs on_tape_def)
  then have "bundleRoot env pre location ref tarWriter readonly (w, sg, dupMap) =
      Ok (root, True, w\<lparr>tw_out := tw_out w @ map on_tape
        (map (\<lambda>d. (dirHdr d (ref_String ref) location, [])) (prefixDirs (pre @ ''/'')))\<rparr>, sg, dupMap)"
    using assms(1,2) by (simp add: bundleRoot_def Let_def)
  with assms(3,4,6,7) show ?thesis
    by (simp add: ImageBundle_def writeFile_tar join_no_slash dir_tar bundleFiles_def Let_def)
qed

theorem ImageBundle_reuse_witness:
  "is_ok (ImageBundle demoEnv ''containers/services/sshd'' ''services[0]'' (Some demoSpec) ''{}'' demoRuntime
     tarWriter True (NewWriter, None, \<lambda>_. ''containers/onboot/000-sshd/rootfs''))"
proof -
  have "be_marshalRuntime demoEnv rt = Ok ''{}''" for rt by (simp add: demoEnv_def)
  then show ?thesis
    using ImageBundle_reuse [of "\<lambda>_. ''containers/onboot/000-sshd/rootfs''" demoSpec
        "''containers/onboot/000-sshd/rootfs''" demoRuntime "[]" demoEnv True "''containers/services/sshd''"
        "''{}''" NewWriter "''services[0]''" "''{}''" None]
    by (simp add: demoRuntime_def prefix_ok_def NewWriter_def)
qed

section \<open>Copying a section\<close>

text \<open>The entries of an archive that belong to a section.\<close>

definition belongs :: "string \<Rightarrow> string \<Rightarrow> tar_entry \<Rightarrow> bool" where
  "belongs image_name sect e \<longleftrightarrow>
     th_PAXRecords (fst e) \<noteq> None \<and> pax_get PaxRecordLinuxkitSource (fst e) = image_name \<and>
     pax_get PaxRecordLinuxkitLocation (fst e) = sect"

context tar_writer
begin

lemma extract_run:
  "extractPackageFilesFromTar (es, None) tw image_name sect w = Ok w' \<longleftrightarrow>
     run_ops tw (concat (map entry_ops (filter (belongs image_name sect) es))) w = Ok w'"
proof -
  have entry: "extractEntry tw image_name sect h d w = Ok w' \<longleftrightarrow>
      run_ops tw (if belongs image_name sect (h, d) then entry_ops (h, d) else []) w = Ok w'" for h d w w'
    by (auto simp: extractEntry_def belongs_def entry_ops_def run_ops_Cons io_Copy_eta)
  have "loop_res (\<lambda>(h, d). extractEntry tw image_name sect h d) es w = Ok w' \<longleftrightarrow>
      run_ops tw (concat (map entry_ops (filter (belongs image_name sect) es))) w = Ok w'"
  proof (induction es arbitrary: w)
    case (Cons e es)
    obtain h d where "e = (h, d)" by (cases e)
    with Cons.IH show ?case by (auto simp: entry run_ops_append)
  qed simp
  then show ?thesis
    by (auto simp: extractPackageFilesFromTar_def tar_loop_def)
qed

end

lemma on_tape_marks:
  "pax_get k (fst (on_tape e)) = pax_get k (fst e)" "th_PAXRecords (fst (on_tape e)) = th_PAXRecords (fst e)"
  by (simp_all add: on_tape_def norm_hdr_def Let_def pax_get_def)

lemma marked_belongs: "marked refName location e \<Longrightarrow> belongs refName location (on_tape e)"
  by (auto simp: marked_def belongs_def on_tape_marks)

lemma norm_hdr_flag: "th_Typeflag (norm_hdr h) \<noteq> TypeRegA"
  by (simp add: norm_hdr_def Let_def)

lemma ends_slash_app: "ends_slash (n @ ''/'')"
  by (simp add: ends_slash_def)

lemma norm_hdr_dir: "th_Typeflag (norm_hdr h) = TypeDir \<Longrightarrow> ends_slash (th_Name (norm_hdr h))"
  by (cases "ends_slash (th_Name h)")
    (simp_all add: norm_hdr_def Let_def ends_slash_app split: if_split_asm)

lemma norm_hdr_fix:
  "th_Typeflag h \<noteq> TypeRegA \<Longrightarrow> (th_Typeflag h = TypeDir \<Longrightarrow> ends_slash (th_Name h)) \<Longrightarrow> norm_hdr h = h"
  by (auto simp: norm_hdr_def Let_def)

lemma norm_hdr_idem: "norm_hdr (norm_hdr h) = norm_hdr h"
  by (rule norm_hdr_fix [OF norm_hdr_flag norm_hdr_dir])

lemma norm_hdr_Size: "th_Size (norm_hdr h) = th_Size h"
  by (simp add: norm_hdr_def Let_def)

lemma on_tape_idem: "on_tape (on_tape e) = on_tape e"
  by (simp add: on_tape_def norm_hdr_idem)

lemma payload_norm: "payload (norm_hdr h) = payload h"
  by (simp add: payload_def norm_hdr_idem norm_hdr_Size)

lemma exact_on_tape: "exact (on_tape e) = exact e"
  by (simp add: exact_def on_tape_def payload_norm)

text \<open>
  C10. Rebuilding from an existing archive is exact: copying an image's section out of an
  archive in which that section was unpacked as a contiguous run of entries, and nothing else
  carries its marks, reproduces those entries.
\<close>

theorem extract_roundtrip:
  assumes "out = before @ map on_tape (imageFiles location refName pre resolv es) @ after"
    and "list_all (\<lambda>e. \<not> belongs refName location e) (before @ after)"
    and "image_ok resolv es" and "\<not> tw_closed w" and "tw_left w = 0"
  shows "extractPackageFilesFromTar (out, None) tarWriter refName location w =
    Ok (w\<lparr>tw_out := tw_out w @ map on_tape (imageFiles location refName pre resolv es)\<rparr>)"
proof -
  let ?fs = "map on_tape (imageFiles location refName pre resolv es)"
  have "list_all (belongs refName location) ?fs"
    using imageFiles_marked [of refName location pre resolv es] marked_belongs
    by (auto simp: list_all_iff)
  then have fs: "filter (belongs refName location) out = ?fs"
    using assms(1,2) by (simp add: filter_id_conv list_all_iff)
  have "list_all exact ?fs"
    using imageFiles_exact [OF assms(3)] by (auto simp: list_all_iff exact_on_tape)
  from run_entries [OF this assms(4,5)]
  have "run_ops tarWriter (concat (map entry_ops ?fs)) w = Ok (w\<lparr>tw_out := tw_out w @ ?fs\<rparr>)"
    by (simp add: on_tape_idem)
  then show ?thesis by (simp only: tarw.extract_run fs)
qed

theorem extract_roundtrip_witness:
  "extractPackageFilesFromTar (map on_tape (imageFiles ''init[0]'' (ref_String demoSpec) [] [] demoStream), None)
     tarWriter (ref_String demoSpec) ''init[0]'' NewWriter =
   Ok (NewWriter\<lparr>tw_out := map on_tape (imageFiles ''init[0]'' (ref_String demoSpec) [] [] demoStream)\<rparr>)"
  using extract_roundtrip [where before = "[]" and after = "[]" and w = NewWriter,
      OF refl _ demo_image_ok, of "ref_String demoSpec" "''init[0]''" "[]" "[]"]
  by (simp add: NewWriter_sel del: map_map)

end
