(* ===== verification/Kernel_Filter.thy ===== *)
theory Kernel_Filter
  imports Image_Tar
begin

text \<open>
  The writer that picks the kernel, its modules and the microcode out of a kernel image and the
  decompression of kernels, \<^verbatim>\<open>moby/build/build.go\<close>.  Inflating and reading a nested archive are
  \<open>be_gunzip\<close> and \<open>be_readTar\<close> of the environment.
\<close>

section \<open>Decompressing a kernel\<close>

definition gzipMagic :: string where
  "gzipMagic = [CHR 0x1F, CHR 0x8B]"

definition byte_at :: "string \<Rightarrow> nat \<Rightarrow> nat" where
  "byte_at s i = of_char (s ! i)"

definition LE_Uint16 :: "string \<Rightarrow> nat \<Rightarrow> 16 word" where
  "LE_Uint16 s i = word_of_nat (byte_at s i + 256 * byte_at s (i + 1))"

definition LE_Uint32 :: "string \<Rightarrow> nat \<Rightarrow> 32 word" where
  "LE_Uint32 s i =
     word_of_nat (byte_at s i + 256 * byte_at s (i + 1) + 65536 * byte_at s (i + 2) +
       16777216 * byte_at s (i + 3))"

text \<open>The boot sector signature at 0x1fe and the header signature at 0x202.\<close>

definition isBzImage :: "string \<Rightarrow> bool" where
  "isBzImage s \<longleftrightarrow>
     length s > 592 \<and> LE_Uint16 s 510 = 0xAA55 \<and> has_prefix (drop 514 s) ''HdrS''"

definition bzPayloadOff :: "string \<Rightarrow> 32 word" where
  "bzPayloadOff s = LE_Uint32 s 584 + (word_of_nat (byte_at s 497) + 1) * 512"

definition bzPayloadLen :: "string \<Rightarrow> 32 word" where
  "bzPayloadLen s = LE_Uint32 s 588"

text \<open>
  The sum of offset and length is taken at 32 bits before it is compared with the length of the
  image; slicing below the low or above the high bound panics.
\<close>

definition decompressKernel :: "BuildEnv \<Rightarrow> string \<Rightarrow> string res" where
  "decompressKernel env s =
     (if has_prefix s gzipMagic then be_gunzip env s
      else if isBzImage s then
        let versionMajor = byte_at s 518; versionMinor = byte_at s 519 in
        if versionMajor < 2 \<and> versionMinor < 8
        then Err (''unsupported bzImage version: '' @ dec_digits versionMajor @ ''.'' @ dec_digits versionMinor)
        else let payloadOff = bzPayloadOff s; payloadLen = bzPayloadLen s;
                 payloadEnd = payloadOff + payloadLen in
          if length s < unat payloadEnd then Err ''compressed bzImage payload exceeds size of image''
          else if unat payloadOff > length s then Panic
          else if has_prefix (drop (unat payloadOff) s) gzipMagic
          then if unat payloadOff > unat payloadEnd then Panic
               else be_gunzip env (take (unat payloadEnd - unat payloadOff) (drop (unat payloadOff) s))
          else Err (''unsupported bzImage payload format at offset '' @ dec_digits (unat payloadOff))
      else Err ''no compressed kernel or no supported format found'')"

section \<open>The filter\<close>

record kernelFilter =
  kf_tw :: tarw
  kf_buffer :: "string option"
  kf_hdr :: "tar_hdr option"
  kf_cmdline :: string
  kf_kernel :: string
  kf_tar :: string
  kf_ucode :: string
  kf_decompressKernel :: bool
  kf_discard :: bool
  kf_foundKernel :: bool
  kf_foundKTar :: bool
  kf_foundUCode :: bool
  kf_ref :: refspec

definition newKernelFilter ::
  "refspec \<Rightarrow> tarw \<Rightarrow> string \<Rightarrow> string \<Rightarrow> string option \<Rightarrow> string option \<Rightarrow> bool \<Rightarrow> kernelFilter" where
  "newKernelFilter ref tw cmdline binary tar ucode decompress =
     \<lparr>kf_tw = tw, kf_buffer = None, kf_hdr = None, kf_cmdline = cmdline,
      kf_kernel = (if binary \<noteq> [] then binary else ''kernel''),
      kf_tar = (case tar of None \<Rightarrow> ''kernel.tar'' | Some t \<Rightarrow> if t = ''none'' then [] else t),
      kf_ucode = (case ucode of None \<Rightarrow> [] | Some u \<Rightarrow> u), kf_decompressKernel = decompress,
      kf_discard = False, kf_foundKernel = False, kf_foundKTar = False, kf_foundUCode = False,
      kf_ref = ref\<rparr>"

definition tarAppend :: "refspec \<Rightarrow> 'w tarWriter \<Rightarrow> tar_stream \<Rightarrow> 'w \<Rightarrow> 'w res" where
  "tarAppend ref iw tr w =
     tar_loop (\<lambda>hdr data w.
         bind_res (w_WriteHeader iw (annotate (ref_String ref) ''kernel'' hdr) w) (io_Copy iw data)) tr w"

definition finishTar :: "BuildEnv \<Rightarrow> kernelFilter \<Rightarrow> kernelFilter res" where
  "finishTar env k =
     (case kf_buffer k of
        None \<Rightarrow> Ok k
      | Some buffer \<Rightarrow>
          (case kf_hdr k of
             Some hdr \<Rightarrow>
               bind_res (if kf_decompressKernel k
                         then bind_res (decompressKernel env buffer) (\<lambda>b. Ok (b, hdr\<lparr>th_Size := length b\<rparr>))
                         else Ok (buffer, hdr))
               (\<lambda>(buffer, hdr). bind_res (tw_WriteHeader hdr (kf_tw k))
               (\<lambda>w. bind_res (tw_Write buffer w)
               (\<lambda>w. Ok (k\<lparr>kf_tw := w, kf_hdr := None, kf_buffer := None\<rparr>))))
           | None \<Rightarrow>
               bind_res (tarAppend (kf_ref k) tarWriter (be_readTar env buffer) (kf_tw k))
               (\<lambda>w. Ok (k\<lparr>kf_tw := w, kf_buffer := None\<rparr>))))"

definition kf_Close :: "BuildEnv \<Rightarrow> kernelFilter \<Rightarrow> kernelFilter res" where
  "kf_Close env k =
     (if \<not> kf_foundKernel k then Err ''did not find kernel in kernel image''
      else if \<not> kf_foundKTar k \<and> kf_tar k \<noteq> [] then Err ''did not find kernel tar in kernel image''
      else finishTar env k)"

definition kf_Flush :: "BuildEnv \<Rightarrow> kernelFilter \<Rightarrow> kernelFilter res" where
  "kf_Flush env k =
     bind_res (finishTar env k) (\<lambda>k. bind_res (tw_Flush (kf_tw k)) (\<lambda>w. Ok (k\<lparr>kf_tw := w\<rparr>)))"

definition kf_Write :: "string \<Rightarrow> kernelFilter \<Rightarrow> kernelFilter res" where
  "kf_Write b k =
     (if kf_discard k then Ok k
      else case kf_buffer k of
        Some buffer \<Rightarrow> Ok (k\<lparr>kf_buffer := Some (buffer @ b)\<rparr>)
      | None \<Rightarrow> bind_res (tw_Write b (kf_tw k)) (\<lambda>w. Ok (k\<lparr>kf_tw := w\<rparr>)))"

definition bootHdr :: "tar_hdr \<Rightarrow> tar_hdr" where
  "bootHdr hdr =
     Header\<lparr>th_Name := ''boot'', th_Mode := 493, th_Typeflag := TypeDir, th_ModTime := defaultModTime,
       th_Format := FormatPAX, th_PAXRecords := th_PAXRecords hdr\<rparr>"

definition cmdlineHdr :: "string \<Rightarrow> tar_hdr \<Rightarrow> tar_hdr" where
  "cmdlineHdr cmdline hdr =
     Header\<lparr>th_Name := ''boot/cmdline'', th_Mode := 420, th_Size := length cmdline,
       th_ModTime := defaultModTime, th_Format := FormatPAX, th_PAXRecords := th_PAXRecords hdr\<rparr>"

definition bootFileHdr :: "string \<Rightarrow> tar_hdr \<Rightarrow> tar_hdr" where
  "bootFileHdr name hdr =
     Header\<lparr>th_Name := name, th_Mode := th_Mode hdr, th_Size := th_Size hdr,
       th_ModTime := defaultModTime, th_Format := FormatPAX, th_PAXRecords := th_PAXRecords hdr\<rparr>"

definition kf_WriteHeader :: "BuildEnv \<Rightarrow> tar_hdr \<Rightarrow> kernelFilter \<Rightarrow> kernelFilter res" where
  "kf_WriteHeader env hdr k0 =
     bind_res (finishTar env k0)
     (\<lambda>k. if th_Name hdr = kf_kernel k then
         if kf_foundKernel k then Err ''found more than one possible kernel image''
         else let k = k\<lparr>kf_foundKernel := True, kf_discard := False\<rparr> in
           bind_res (if kf_foundUCode k then Ok (kf_tw k) else tw_WriteHeader (bootHdr hdr) (kf_tw k))
           (\<lambda>w. bind_res (tw_WriteHeader (cmdlineHdr (kf_cmdline k) hdr) w)
           (\<lambda>w. bind_res (tw_Write (kf_cmdline k) w)
           (\<lambda>w. Ok (k\<lparr>kf_tw := w, kf_hdr := Some (bootFileHdr ''boot/kernel'' hdr), kf_buffer := Some []\<rparr>))))
       else if th_Name hdr = kf_tar k then
         Ok (k\<lparr>kf_foundKTar := True, kf_discard := False, kf_buffer := Some []\<rparr>)
       else if th_Name hdr = kf_ucode k then
         let k = k\<lparr>kf_foundUCode := True, kf_discard := False\<rparr> in
           bind_res (if kf_foundKernel k then Ok (kf_tw k) else tw_WriteHeader (bootHdr hdr) (kf_tw k))
           (\<lambda>w. bind_res (tw_WriteHeader (bootFileHdr ''boot/ucode.cpio'' hdr) w)
           (\<lambda>w. Ok (k\<lparr>kf_tw := w\<rparr>)))
       else Ok (k\<lparr>kf_discard := True\<rparr>))"

definition kernelWriter :: "BuildEnv \<Rightarrow> kernelFilter tarWriter" where
  "kernelWriter env =
     \<lparr>w_WriteHeader = kf_WriteHeader env, w_Write = kf_Write, w_Flush = kf_Flush env,
      w_Close = kf_Close env\<rparr>"

lemma kernelWriter_sel [simp]:
  "w_WriteHeader (kernelWriter env) = kf_WriteHeader env" "w_Write (kernelWriter env) = kf_Write"
  "w_Flush (kernelWriter env) = kf_Flush env" "w_Close (kernelWriter env) = kf_Close env"
  by (simp_all add: kernelWriter_def)

interpretation kernelw: tar_writer "kernelWriter env" for env
proof unfold_locales
  fix a b :: string and k :: kernelFilter
  show "w_Write (kernelWriter env) (a @ b) k =
      bind_res (w_Write (kernelWriter env) a k) (w_Write (kernelWriter env) b)"
    using tarw.write_append [of a b "kf_tw k"]
    by (cases "tw_Write a (kf_tw k)") (auto simp: kf_Write_def split: option.splits)
qed

section \<open>What a kernel image becomes\<close>

definition kernelOut :: "BuildEnv \<Rightarrow> kernelFilter \<Rightarrow> tar_entry \<Rightarrow> tar_entry list res" where
  "kernelOut env k e =
     (case e of (h, d) \<Rightarrow>
      if th_Name h = kf_kernel k then
        if kf_foundKernel k then Err ''found more than one possible kernel image''
        else bind_res (if kf_decompressKernel k
               then bind_res (decompressKernel env d)
                 (\<lambda>b. Ok ((bootFileHdr ''boot/kernel'' h)\<lparr>th_Size := length b\<rparr>, b))
               else Ok (bootFileHdr ''boot/kernel'' h, d))
          (\<lambda>ke. Ok ((if kf_foundUCode k then [] else [(bootHdr h, [])]) @
             [(cmdlineHdr (kf_cmdline k) h, kf_cmdline k), ke]))
      else if th_Name h = kf_tar k then
        (case be_readTar env d of (ts, err) \<Rightarrow>
           (case err of None \<Rightarrow> Ok (map (\<lambda>(h, d). (annotate (ref_String (kf_ref k)) ''kernel'' h, d)) ts)
            | Some e \<Rightarrow> Err e))
      else if th_Name h = kf_ucode k then
        Ok ((if kf_foundKernel k then [] else [(bootHdr h, [])]) @
            [(bootFileHdr ''boot/ucode.cpio'' h, d)])
      else Ok [])"

definition kf_seen :: "string \<Rightarrow> kernelFilter \<Rightarrow> kernelFilter" where
  "kf_seen n k =
     (if n = kf_kernel k then k\<lparr>kf_foundKernel := True, kf_discard := False\<rparr>
      else if n = kf_tar k then k\<lparr>kf_foundKTar := True, kf_discard := False\<rparr>
      else if n = kf_ucode k then k\<lparr>kf_foundUCode := True, kf_discard := False\<rparr>
      else k\<lparr>kf_discard := True\<rparr>)"

fun kernelFiles :: "BuildEnv \<Rightarrow> kernelFilter \<Rightarrow> tar_entry list \<Rightarrow> tar_entry list res" where
  "kernelFiles env k [] = Ok []"
| "kernelFiles env k (e # es) =
     bind_res (kernelOut env k e)
     (\<lambda>out. bind_res (kernelFiles env (kf_seen (th_Name (fst e)) k) es) (\<lambda>outs. Ok (out @ outs)))"

text \<open>A filter that holds nothing back.\<close>

definition kf_clean :: "kernelFilter \<Rightarrow> bool" where
  "kf_clean k \<longleftrightarrow> kf_buffer k = None \<and> kf_hdr k = None"

lemma finishTar_clean: "kf_clean k \<Longrightarrow> finishTar env k = Ok k"
  by (simp add: kf_clean_def finishTar_def)

context tar_writer
begin

lemma tarAppend_run:
  "tarAppend ref tw tr w =
     bind_res (run_ops tw (concat (map entry_ops
        (map (\<lambda>(h, d). (annotate (ref_String ref) ''kernel'' h, d)) (fst tr)))) w)
       (\<lambda>w. case snd tr of None \<Rightarrow> Ok w | Some e \<Rightarrow> Err e)"
proof -
  have "loop_res (\<lambda>(hdr, data) w. bind_res (w_WriteHeader tw (annotate (ref_String ref) ''kernel'' hdr) w) (io_Copy tw data)) es w
      = run_ops tw (concat (map (\<lambda>e. entry_ops (annotate (ref_String ref) ''kernel'' (fst e), snd e)) es)) w" for es
    by (rule loop_res_run_ops) (auto simp: entry_ops_def run_ops_Cons io_Copy_eta)
  then show ?thesis
    by (simp add: tarAppend_def tar_loop_def case_prod_unfold comp_def)
qed

end

text \<open>Every header first completes what is held back, so completing early changes nothing.\<close>

lemma finish_first:
  "bind_res (run_ops (kernelWriter env) (entries es) k) (finishTar env) =
     bind_res (finishTar env k) (\<lambda>k. bind_res (run_ops (kernelWriter env) (entries es) k) (finishTar env))"
proof -
  have twice: "finishTar env k' = Ok k'" if "finishTar env k = Ok k'" for k'
    using that by (auto simp: finishTar_def split: option.splits if_splits)
  show ?thesis
  proof (cases es)
    case Nil
    then show ?thesis by (cases "finishTar env k") (simp_all add: twice)
  next
    case (Cons e es')
    have "kf_WriteHeader env h k = bind_res (finishTar env k) (kf_WriteHeader env h)" for h
      by (cases "finishTar env k") (simp_all add: kf_WriteHeader_def twice)
    then show ?thesis
      by (simp add: Cons entry_ops_def run_ops_Cons run_ops_append bind_res_assoc)
  qed
qed

lemma kf_copy:
  "\<not> kf_discard k \<Longrightarrow> kf_buffer k = Some [] \<Longrightarrow>
     run_ops (kernelWriter env) (copy_ops d) k = Ok (k\<lparr>kf_buffer := Some d\<rparr>)"
  "kf_discard k \<Longrightarrow> run_ops (kernelWriter env) (copy_ops d) k = Ok k"
  "\<not> kf_discard k \<Longrightarrow> kf_buffer k = None \<Longrightarrow>
     run_ops (kernelWriter env) (copy_ops d) k =
       bind_res (run_ops tarWriter (copy_ops d) (kf_tw k)) (\<lambda>w. Ok (k\<lparr>kf_tw := w\<rparr>))"
  by (auto simp: copy_ops_def run_ops_single kf_Write_def)

text \<open>The kernel itself: the directory, the command line, then the image.\<close>

lemma finish_kernel:
  assumes "kf_buffer k = Some d" and "kf_hdr k = Some hd0"
  shows "finishTar env k =
    bind_res (if kf_decompressKernel k
       then bind_res (decompressKernel env d) (\<lambda>b. Ok (hd0\<lparr>th_Size := length b\<rparr>, b)) else Ok (hd0, d))
     (\<lambda>ke. bind_res (run_ops tarWriter (entry_ops ke) (kf_tw k))
        (\<lambda>w. Ok (k\<lparr>kf_tw := w, kf_hdr := None, kf_buffer := None\<rparr>)))"
  using assms by (cases "decompressKernel env d") (simp_all add: finishTar_def write_entry_then)

lemma kf_kernel_header:
  assumes "kf_clean k" and "th_Name h = kf_kernel k" and "\<not> kf_foundKernel k"
  shows "kf_WriteHeader env h k =
    bind_res (run_ops tarWriter (entries ((if kf_foundUCode k then [] else [(bootHdr h, [])]) @
         [(cmdlineHdr (kf_cmdline k) h, kf_cmdline k)])) (kf_tw k))
      (\<lambda>w. Ok (k\<lparr>kf_foundKernel := True, kf_discard := False, kf_tw := w,
          kf_hdr := Some (bootFileHdr ''boot/kernel'' h), kf_buffer := Some []\<rparr>))"
  using assms
  by (cases "kf_foundUCode k")
    (simp_all add: kf_WriteHeader_def finishTar_clean Let_def write_entry_then header_then [of "bootHdr h"]
      run_ops_append bind_res_assoc)

lemma kernel_entry:
  assumes "kf_clean k"
  shows "bind_res (run_ops (kernelWriter env) (entry_ops (h, d)) k) (finishTar env) = Ok k' \<longleftrightarrow>
    (\<exists>out w. kernelOut env k (h, d) = Ok out \<and> run_ops tarWriter (entries out) (kf_tw k) = Ok w \<and>
       k' = (kf_seen (th_Name h) k)\<lparr>kf_tw := w\<rparr>)"
proof -
  have head: "bind_res (run_ops (kernelWriter env) (entry_ops (h, d)) k) f =
      bind_res (kf_WriteHeader env h k) (\<lambda>k. bind_res (run_ops (kernelWriter env) (copy_ops d) k) f)" for f
    by (simp add: entry_ops_def run_ops_Cons bind_res_assoc)
  have clean: "kf_buffer k = None" "kf_hdr k = None" using assms by (simp_all add: kf_clean_def)
  consider "th_Name h = kf_kernel k" "kf_foundKernel k" | "th_Name h = kf_kernel k" "\<not> kf_foundKernel k"
    | "th_Name h \<noteq> kf_kernel k" "th_Name h = kf_tar k"
    | "th_Name h \<noteq> kf_kernel k" "th_Name h \<noteq> kf_tar k" "th_Name h = kf_ucode k"
    | "th_Name h \<noteq> kf_kernel k" "th_Name h \<noteq> kf_tar k" "th_Name h \<noteq> kf_ucode k" by blast
  then show ?thesis
  proof cases
    case 1
    then show ?thesis
      by (simp add: head kf_WriteHeader_def finishTar_clean [OF assms] kernelOut_def)
  next
    case 2
    then show ?thesis
      by (auto simp: head kf_kernel_header [OF assms 2] kf_copy finish_kernel kernelOut_def kf_seen_def
          run_ops_append clean)
  next
    case 3
    then show ?thesis
      by (auto simp: head kf_WriteHeader_def finishTar_clean [OF assms] kf_copy kernelOut_def kf_seen_def
          finishTar_def clean tarw.tarAppend_run split: prod.splits option.splits)
  next
    case 4
    then show ?thesis
      by (auto simp: head kf_WriteHeader_def finishTar_clean [OF assms] kf_copy kernelOut_def kf_seen_def
          finishTar_def clean Let_def run_ops_append entry_ops_def run_ops_Cons copy_ops_Nil)
  next
    case 5
    then show ?thesis
      by (auto simp: head kf_WriteHeader_def finishTar_clean [OF assms] kf_copy kernelOut_def kf_seen_def
          finishTar_def clean)
  qed
qed

lemma kernelOut_tw [simp]: "kernelOut env (k\<lparr>kf_tw := w\<rparr>) e = kernelOut env k e"
  by (simp add: kernelOut_def split: prod.splits)

lemma kf_seen_tw: "kf_seen n (k\<lparr>kf_tw := w\<rparr>) = (kf_seen n k)\<lparr>kf_tw := w\<rparr>"
  by (simp add: kf_seen_def)

lemma kernelFiles_tw [simp]: "kernelFiles env (k\<lparr>kf_tw := w\<rparr>) es = kernelFiles env k es"
  by (induction es arbitrary: k) (simp_all add: kf_seen_tw)

definition kf_after :: "tar_entry list \<Rightarrow> kernelFilter \<Rightarrow> kernelFilter" where
  "kf_after es k = fold (\<lambda>e. kf_seen (th_Name (fst e))) es k"

lemma kf_after_tw: "kf_after es (k\<lparr>kf_tw := w\<rparr>) = (kf_after es k)\<lparr>kf_tw := w\<rparr>"
  by (induction es arbitrary: k) (simp_all add: kf_after_def kf_seen_tw)

lemma kf_seen_sel [simp]:
  "kf_kernel (kf_seen n k) = kf_kernel k" "kf_tar (kf_seen n k) = kf_tar k"
  "kf_ucode (kf_seen n k) = kf_ucode k" "kf_clean (kf_seen n k) = kf_clean k"
  "kf_tw (kf_seen n k) = kf_tw k" "kf_cmdline (kf_seen n k) = kf_cmdline k"
  "kf_decompressKernel (kf_seen n k) = kf_decompressKernel k"
  "kf_foundKernel (kf_seen n k) \<longleftrightarrow> kf_foundKernel k \<or> n = kf_kernel k"
  "kf_foundKTar (kf_seen n k) \<longleftrightarrow> kf_foundKTar k \<or> n = kf_tar k \<and> n \<noteq> kf_kernel k"
  by (auto simp: kf_seen_def kf_clean_def)

lemma kf_after_kernel: "kf_kernel (kf_after es k) = kf_kernel k"
  by (induction es arbitrary: k) (auto simp: kf_after_def)

lemma kf_after_sel:
  "kf_tar (kf_after es k) = kf_tar k"
  "kf_foundKernel (kf_after es k) \<longleftrightarrow> kf_foundKernel k \<or> kf_kernel k \<in> (\<lambda>e. th_Name (fst e)) ` set es"
  "kf_foundKTar (kf_after es k) \<longleftrightarrow>
     kf_foundKTar k \<or> kf_tar k \<noteq> kf_kernel k \<and> kf_tar k \<in> (\<lambda>e. th_Name (fst e)) ` set es"
  by (induction es arbitrary: k) (auto simp: kf_after_def)

text \<open>Filtering a kernel image is writing the files it becomes.\<close>

lemma kernel_run:
  assumes "kf_clean k"
  shows "bind_res (run_ops (kernelWriter env) (entries es) k) (finishTar env) = Ok k' \<longleftrightarrow>
    (\<exists>out w. kernelFiles env k es = Ok out \<and> run_ops tarWriter (entries out) (kf_tw k) = Ok w \<and>
       k' = (kf_after es k)\<lparr>kf_tw := w\<rparr>)"
  using assms
proof (induction es arbitrary: k)
  case Nil
  then show ?case by (auto simp: finishTar_clean kf_after_def)
next
  case (Cons e es)
  obtain h d where e: "e = (h, d)" by (cases e)
  have "bind_res (run_ops (kernelWriter env) (entries (e # es)) k) (finishTar env) =
      bind_res (bind_res (run_ops (kernelWriter env) (entry_ops (h, d)) k) (finishTar env))
        (\<lambda>k. bind_res (run_ops (kernelWriter env) (entries es) k) (finishTar env))"
    by (simp add: e run_ops_append bind_res_assoc finish_first [symmetric])
  also have "\<dots> = Ok k' \<longleftrightarrow>
      (\<exists>out w. kernelOut env k (h, d) = Ok out \<and> run_ops tarWriter (entries out) (kf_tw k) = Ok w \<and>
         bind_res (run_ops (kernelWriter env) (entries es) ((kf_seen (th_Name h) k)\<lparr>kf_tw := w\<rparr>)) (finishTar env)
           = Ok k')"
    unfolding bind_res_Ok_iff [where f = "\<lambda>k. bind_res (run_ops (kernelWriter env) (entries es) k) (finishTar env)"]
      kernel_entry [OF Cons.prems] by blast
  also have "\<dots> \<longleftrightarrow> (\<exists>out w. kernelFiles env k (e # es) = Ok out \<and>
      run_ops tarWriter (entries out) (kf_tw k) = Ok w \<and> k' = (kf_after (e # es) k)\<lparr>kf_tw := w\<rparr>)"
  proof -
    have "kf_clean ((kf_seen (th_Name h) k)\<lparr>kf_tw := w\<rparr>)" for w
      using Cons.prems by (simp add: kf_clean_def kf_seen_def)
    note IH = Cons.IH [OF this]
    have after: "kf_after ((h, d) # es) k = kf_after es (kf_seen (th_Name h) k)"
      by (simp add: kf_after_def)
    show ?thesis
      unfolding IH by (auto simp: after kf_after_tw e run_ops_append)
  qed
  finally show ?case .
qed

lemma finishTar_flags:
  assumes "finishTar env k = Ok k'"
  shows "kf_foundKernel k' = kf_foundKernel k" "kf_foundKTar k' = kf_foundKTar k" "kf_tar k' = kf_tar k"
  using assms by (auto simp: finishTar_def split: option.splits if_splits)

lemma Close_iff:
  "kf_Close env k = Ok k' \<longleftrightarrow>
     finishTar env k = Ok k' \<and> kf_foundKernel k' \<and> (kf_tar k' = [] \<or> kf_foundKTar k')"
  by (auto simp: kf_Close_def finishTar_flags)

lemma Close_run:
  assumes "kf_clean k"
  shows "bind_res (run_ops (kernelWriter env) (entries es) k) (kf_Close env) = Ok k' \<longleftrightarrow>
    (\<exists>out w. kernelFiles env k es = Ok out \<and> run_ops tarWriter (entries out) (kf_tw k) = Ok w \<and>
       k' = (kf_after es k)\<lparr>kf_tw := w\<rparr> \<and> kf_foundKernel (kf_after es k) \<and>
       (kf_tar k = [] \<or> kf_foundKTar (kf_after es k)))"
proof -
  have "bind_res (run_ops (kernelWriter env) (entries es) k) (kf_Close env) = Ok k' \<longleftrightarrow>
      bind_res (run_ops (kernelWriter env) (entries es) k) (finishTar env) = Ok k' \<and>
      kf_foundKernel k' \<and> (kf_tar k' = [] \<or> kf_foundKTar k')"
    by (auto simp: Close_iff)
  then show ?thesis
    unfolding kernel_run [OF assms] by (auto simp: kf_after_sel(1))
qed

lemma kernelFiles_once:
  "kernelFiles env k es = Ok out \<Longrightarrow>
     length (filter (\<lambda>e. th_Name (fst e) = kf_kernel k) es) \<le> (if kf_foundKernel k then 0 else 1)"
proof (induction es arbitrary: k out)
  case (Cons e es)
  then obtain o1 outs where "kernelOut env k e = Ok o1"
    and "kernelFiles env (kf_seen (th_Name (fst e)) k) es = Ok outs" by auto
  with Cons.IH [OF this(2)] show ?case
    by (auto simp: kernelOut_def split: prod.splits if_splits)
qed simp

lemma kernelFiles_boot:
  assumes "kernelFiles env k es = Ok out" and "(h, d) \<in> set es" and "th_Name h = kf_kernel k"
  shows "(cmdlineHdr (kf_cmdline k) h, kf_cmdline k) \<in> set out \<and>
    (if kf_decompressKernel k
     then \<exists>b. decompressKernel env d = Ok b \<and> ((bootFileHdr ''boot/kernel'' h)\<lparr>th_Size := length b\<rparr>, b) \<in> set out
     else (bootFileHdr ''boot/kernel'' h, d) \<in> set out)"
  using assms
proof (induction es arbitrary: k out)
  case (Cons e es)
  then obtain o1 outs where o1: "kernelOut env k e = Ok o1"
    and outs: "kernelFiles env (kf_seen (th_Name (fst e)) k) es = Ok outs" and out: "out = o1 @ outs" by auto
  show ?case
  proof (cases "(h, d) \<in> set es")
    case True
    with Cons.IH [OF outs True] Cons.prems(3) out show ?thesis by (auto split: if_splits)
  next
    case False
    with Cons.prems(2) have "e = (h, d)" by auto
    with o1 out Cons.prems(3) show ?thesis
      by (auto simp: kernelOut_def split: if_splits)
  qed
qed simp

lemma imageOut_own:
  "filter (\<lambda>e. th_Name (fst e) = n) (imageOut location refName [] resolv e) =
     (if th_Name (fst e) \<noteq> n \<or> n \<in> set exclude then []
      else imageOut location refName [] resolv e)"
  by (auto simp: imageOut_def Let_def split: option.splits)

lemma imageFiles_own:
  assumes "own_name n"
  shows "filter (\<lambda>e. th_Name (fst e) = n) (imageFiles location refName [] resolv es) =
    map (\<lambda>e. (annotate refName location (fst e), snd e)) (filter (\<lambda>e. th_Name (fst e) = n) es)"
proof -
  have out: "imageOut location refName [] resolv e = [(annotate refName location (fst e), snd e)]"
    if "th_Name (fst e) = n" for e
    using assms that by (auto simp: imageOut_def own_name_def Let_def annotate_def pax_put_def)
  have "filter (\<lambda>e. th_Name (fst e) = n) (concat (map (imageOut location refName [] resolv) es)) =
      map (\<lambda>e. (annotate refName location (fst e), snd e)) (filter (\<lambda>e. th_Name (fst e) = n) es)"
    using assms by (induction es) (simp_all add: imageOut_own out own_name_def)
  moreover have "filter (\<lambda>e. th_Name (fst e) = n)
      (map (touchOut location refName [] resolv) (filter P (sort_key fst touch))) = []" for P
    using assms by (auto simp: filter_empty_conv touchOut_name own_name_def)
  ultimately show ?thesis by (simp add: imageFiles_def prefixDirs_def)
qed

lemma own_member:
  assumes "filter (\<lambda>e. th_Name (fst e) = n) files = map (\<lambda>e. (f (fst e), snd e)) (filter (\<lambda>e. th_Name (fst e) = n) es)"
    and "n \<in> (\<lambda>e. th_Name (fst e)) ` set files"
  shows "\<exists>h d. (f h, d) \<in> set files \<and> th_Name h = n \<and> (h, d) \<in> set es"
proof -
  from assms(2) obtain e where "e \<in> set (filter (\<lambda>e. th_Name (fst e) = n) files)" by auto
  then obtain h d where "e = (f h, d)" "(h, d) \<in> set es" "th_Name h = n" unfolding assms(1) by force
  with \<open>e \<in> _\<close> show ?thesis by auto
qed

section \<open>Properties\<close>

text \<open>
  C13. Unpacking a kernel image through the filter and closing it, when both succeed: the image
  had exactly one file of the kernel's name and, unless the kernel has no modules, the archive of
  modules; the output archive is extended by exactly what \<^const>\<open>kernelFiles\<close> makes of the files of the
  image, among them, as \<^verbatim>\<open>boot/cmdline\<close>, the command line and, as \<^verbatim>\<open>boot/kernel\<close>, the bytes of that one
  file, decompressed if that was asked for.  The names of the kernel and the modules are not among
  those that the builder leaves out, replaces or adds in every image.
\<close>

theorem kernel_contents:
  assumes "ImageTar env ''kernel'' (Some r) [] (kernelWriter env) []
      (newKernelFilter r w cmdline binary tar ucode dec, sg) = Ok (k, sg')"
    and "kf_Close env k = Ok k'" and "\<not> tw_closed w"
    and "own_name (kf_kernel k')" and "own_name (kf_tar k')"
  shows "\<exists>src es out h d.
    be_imageSource env r = Ok src \<and> src_TarReader src = Ok (es, None) \<and>
    filter (\<lambda>e. th_Name (fst e) = (if binary = [] then ''kernel'' else binary)) es = [(h, d)] \<and>
    (tar \<noteq> Some ''none'' \<and> tar \<noteq> Some [] \<longrightarrow> (case tar of None \<Rightarrow> ''kernel.tar'' | Some t \<Rightarrow> t) \<in> th_Name ` fst ` set es) \<and>
    kernelFiles env (newKernelFilter r w cmdline binary tar ucode dec)
      (imageFiles ''kernel'' (ref_String r) [] [] es) = Ok out \<and>
    tw_out (kf_tw k') = tw_out w @ map on_tape out \<and>
    (let h' = annotate (ref_String r) ''kernel'' h in
     (cmdlineHdr cmdline h', cmdline) \<in> set out \<and>
     (if dec
      then \<exists>b. decompressKernel env d = Ok b \<and> ((bootFileHdr ''boot/kernel'' h')\<lparr>th_Size := length b\<rparr>, b) \<in> set out
      else (bootFileHdr ''boot/kernel'' h', d) \<in> set out))"
proof -
  let ?k = "newKernelFilter r w cmdline binary tar ucode dec"
  have clean: "kf_clean ?k" by (simp add: kf_clean_def newKernelFilter_def)
  have sel: "kf_tw ?k = w" "kf_cmdline ?k = cmdline" "kf_decompressKernel ?k = dec" "\<not> kf_foundKernel ?k"
    "\<not> kf_foundKTar ?k" and
    kname: "kf_kernel ?k = (if binary = [] then ''kernel'' else binary)" and
    tname: "kf_tar ?k = (case tar of None \<Rightarrow> ''kernel.tar'' | Some t \<Rightarrow> if t = ''none'' then [] else t)"
    by (simp_all add: newKernelFilter_def)
  from assms(1) obtain src es where src: "be_imageSource env r = Ok src" "src_TarReader src = Ok (es, None)" and
    run: "run_ops (kernelWriter env) (entries (imageFiles ''kernel'' (ref_String r) [] [] es)) ?k = Ok k"
    by (auto simp: kernelw.ImageTar_Ok_iff)
  define files where "files = imageFiles ''kernel'' (ref_String r) [] [] es"
  from run assms(2) have "bind_res (run_ops (kernelWriter env) (entries files) ?k) (kf_Close env) = Ok k'"
    by (simp add: files_def)
  then obtain out w' where out: "kernelFiles env ?k files = Ok out" "run_ops tarWriter (entries out) w = Ok w'"
    and k': "k' = (kf_after files ?k)\<lparr>kf_tw := w'\<rparr>"
    and kernel: "kf_kernel ?k \<in> (\<lambda>e. th_Name (fst e)) ` set files"
    and tar: "kf_tar ?k = [] \<or> kf_tar ?k \<in> (\<lambda>e. th_Name (fst e)) ` set files"
    unfolding Close_run [OF clean] by (auto simp: kf_after_sel sel)
  have k'_sel: "kf_kernel k' = kf_kernel ?k" "kf_tar k' = kf_tar ?k"
    by (simp_all add: k' kf_after_sel kf_after_kernel)
  note own = assms(4,5) [unfolded k'_sel, THEN imageFiles_own, of "''kernel''" "ref_String r" "[]" es, folded files_def]
  from kernel obtain h d where hd: "(annotate (ref_String r) ''kernel'' h, d) \<in> set files" "th_Name h = kf_kernel ?k"
    "(h, d) \<in> set es"
    using own_member [OF own(1)] by blast
  then have "(h, d) \<in> set (filter (\<lambda>e. th_Name (fst e) = kf_kernel ?k) es)" by simp
  moreover have "length (filter (\<lambda>e. th_Name (fst e) = kf_kernel ?k) es) \<le> 1"
    using kernelFiles_once [OF out(1)] sel(4) by (simp add: own(1))
  ultimately have one: "filter (\<lambda>e. th_Name (fst e) = kf_kernel ?k) es = [(h, d)]"
    by (cases "filter (\<lambda>e. th_Name (fst e) = kf_kernel ?k) es") auto
  have "kf_tar ?k = [] \<or> kf_tar ?k \<in> th_Name ` fst ` set es"
    using tar own_member [OF own(2)] by (metis fst_conv image_eqI)
  then have mods: "tar \<noteq> Some ''none'' \<and> tar \<noteq> Some [] \<longrightarrow>
      (case tar of None \<Rightarrow> ''kernel.tar'' | Some t \<Rightarrow> t) \<in> th_Name ` fst ` set es"
    unfolding tname by (cases tar) (simp_all split: if_splits, blast)
  have "tw_out (kf_tw k') = tw_out w @ map on_tape out"
    using out(2) assms(3) by (auto simp: k' run_tarWriter written_entries)
  with src one mods out(1) kernelFiles_boot [OF out(1) hd(1)] hd(2) show ?thesis
    unfolding sel kname files_def Let_def
    by (intro exI [of _ src] exI [of _ es] exI [of _ out] exI [of _ h] exI [of _ d]) simp
qed

definition demoKernelFile :: tar_entry where
  "demoKernelFile = (Header\<lparr>th_Name := ''kernel'', th_Typeflag := TypeReg, th_Size := 3\<rparr>, ''elf'')"

definition demoKernel :: BuildEnv where
  "demoKernel = demoEnv\<lparr>be_imageSource :=
     (\<lambda>r. Ok (demoSource\<lparr>src_TarReader := Ok ([demoKernelFile], None)\<rparr>))\<rparr>"

lemma kernelFiles_skip:
  "list_all (\<lambda>e. th_Name (fst e) \<notin> {kf_kernel k, kf_tar k, kf_ucode k}) es \<Longrightarrow> kernelFiles env k es = Ok []"
proof (induction es arbitrary: k)
  case (Cons e es)
  then have "kernelFiles env (kf_seen (th_Name (fst e)) k) es = Ok []" by simp
  with Cons.prems show ?case by (cases e) (simp add: kernelOut_def)
qed simp

lemma touch_names:
  "list_all (\<lambda>e. th_Name (fst e) \<notin> {''kernel'', []})
     (map (touchOut location refName [] resolv) (filter P (sort_key fst touch)))"
  by (auto simp: list_all_iff touchOut_name touch_def touchDir_def touchReg_def)

lemma demo_kernel:
  "\<exists>k k'. ImageTar demoKernel ''kernel'' (Some demoSpec) [] (kernelWriter demoKernel) []
       (newKernelFilter demoSpec NewWriter ''console'' [] (Some ''none'') None False, None) = Ok (k, None) \<and>
     kf_Close demoKernel k = Ok k' \<and> own_name (kf_kernel k') \<and> own_name (kf_tar k')"
proof -
  let ?k = "newKernelFilter demoSpec NewWriter ''console'' [] (Some ''none'') None False"
  let ?files = "imageFiles ''kernel'' (ref_String demoSpec) [] [] [demoKernelFile]"
  let ?h = "annotate (ref_String demoSpec) ''kernel'' (fst demoKernelFile)"
  let ?out = "[(bootHdr ?h, []), (cmdlineHdr ''console'' ?h, ''console''), (bootFileHdr ''boot/kernel'' ?h, ''elf'')]"
  have clean: "kf_clean ?k" by (simp add: kf_clean_def newKernelFilter_def)
  have sel: "kf_kernel ?k = ''kernel''" "kf_tar ?k = []" "kf_ucode ?k = []" "\<not> kf_foundKernel ?k"
    "\<not> kf_foundUCode ?k" "kf_tw ?k = NewWriter" "kf_cmdline ?k = ''console''" "\<not> kf_decompressKernel ?k"
    by (simp_all add: newKernelFilter_def)
  let ?P = "\<lambda>t. fst t \<notin> touched [demoKernelFile]"
  have "map_of touch ''kernel'' = None" "th_Name (fst demoKernelFile) = ''kernel''"
    "th_Typeflag (fst demoKernelFile) = TypeReg" "snd demoKernelFile = ''elf''"
    by (simp_all add: touch_def demoKernelFile_def)
  then have files: "?files = (?h, ''elf'') #
      map (touchOut ''kernel'' (ref_String demoSpec) [] []) (filter ?P (sort_key fst touch))"
    by (simp add: imageFiles_def prefixDirs_def imageOut_def Let_def exclude_def replace_def)
  have name: "th_Name (fst demoKernelFile) = ''kernel''" by (simp add: demoKernelFile_def)
  have out: "kernelFiles demoKernel ?k ?files = Ok ?out"
    using touch_names [of "''kernel''" "ref_String demoSpec" "[]" ?P]
    by (simp add: files name kernelOut_def sel kernelFiles_skip)
  have "th_Size (fst demoKernelFile) = 3" by (simp add: demoKernelFile_def)
  then have "list_all exact ?out"
    by (simp add: exact_def payload_old payload_only bootHdr_def cmdlineHdr_def bootFileHdr_def Header_def
        isHeaderOnlyType_def ends_slash_def)
  moreover have "\<not> tw_closed NewWriter" "tw_left NewWriter = 0" by (simp_all add: NewWriter_def)
  ultimately obtain w where "run_ops tarWriter (entries ?out) (kf_tw ?k) = Ok w"
    unfolding sel using run_entries by blast
  moreover have "kf_foundKernel (kf_after ?files ?k)" by (simp add: kf_after_sel files sel name)
  ultimately have "bind_res (run_ops (kernelWriter demoKernel) (entries ?files) ?k) (kf_Close demoKernel)
      = Ok ((kf_after ?files ?k)\<lparr>kf_tw := w\<rparr>)"
    unfolding Close_run [OF clean] using out sel by blast
  moreover have "own_name ''kernel''" "own_name []"
    by (simp_all add: own_name_def exclude_def replace_def touch_def touchDir_def touchReg_def)
  then have "own_name (kf_kernel ((kf_after ?files ?k)\<lparr>kf_tw := w\<rparr>))" "own_name (kf_tar ((kf_after ?files ?k)\<lparr>kf_tw := w\<rparr>))"
    by (simp_all add: kf_after_sel kf_after_kernel sel)
  ultimately show ?thesis
    by (auto simp: kernelw.ImageTar_Ok_iff prefix_ok_def demoKernel_def addSboms_def)
qed

theorem kernel_contents_witness:
  "\<exists>k k' h out.
     ImageTar demoKernel ''kernel'' (Some demoSpec) [] (kernelWriter demoKernel) []
       (newKernelFilter demoSpec NewWriter ''console'' [] (Some ''none'') None False, None) = Ok (k, None) \<and>
     kf_Close demoKernel k = Ok k' \<and> tw_out (kf_tw k') = map on_tape out \<and>
     (bootFileHdr ''boot/kernel'' h, ''elf'') \<in> set out"
proof -
  obtain k k' where k: "ImageTar demoKernel ''kernel'' (Some demoSpec) [] (kernelWriter demoKernel) []
       (newKernelFilter demoSpec NewWriter ''console'' [] (Some ''none'') None False, None) = Ok (k, None)"
    "kf_Close demoKernel k = Ok k'" and own: "own_name (kf_kernel k')" "own_name (kf_tar k')"
    using demo_kernel by blast
  have new: "\<not> tw_closed NewWriter" "tw_out NewWriter = []" by (simp_all add: NewWriter_def)
  from kernel_contents [OF k new(1) own] obtain src es out h d where
    "be_imageSource demoKernel demoSpec = Ok src" "src_TarReader src = Ok (es, None)"
    "filter (\<lambda>e. th_Name (fst e) = (if ([] :: string) = [] then ''kernel'' else [])) es = [(h, d)]"
    "tw_out (kf_tw k') = tw_out NewWriter @ map on_tape out"
    "(bootFileHdr ''boot/kernel'' (annotate (ref_String demoSpec) ''kernel'' h), d) \<in> set out"
    unfolding Let_def if_False by (elim exE conjE)
  moreover from this(1-3) have "d = ''elf''" by (auto simp: demoKernel_def demoKernelFile_def)
  ultimately show ?thesis using k new by auto
qed

text \<open>
  C6. The bounds of decompression.  A successful decompression inflates a part of the image that
  lies within it and starts with the magic number, whatever the header says; and the builder
  panics only on a header whose payload offset and length add up to more than 32 bits.
\<close>

theorem decompressKernel_bounds:
  assumes "\<And>x. be_gunzip env x \<noteq> Panic"
  shows "(\<forall>b. decompressKernel env s = Ok b \<longrightarrow>
      (\<exists>i n. i + n \<le> length s \<and> has_prefix (drop i s) gzipMagic \<and> be_gunzip env (take n (drop i s)) = Ok b)) \<and>
    (decompressKernel env s = Panic \<longrightarrow> 2 ^ 32 \<le> unat (bzPayloadOff s) + unat (bzPayloadLen s))"
proof -
  let ?o = "bzPayloadOff s" and ?e = "bzPayloadOff s + bzPayloadLen s"
  have no_wrap: "unat ?e = unat ?o + unat (bzPayloadLen s)"
    if "unat ?o + unat (bzPayloadLen s) < 2 ^ 32"
    using that by (simp add: unat_word_ariths)
  have ok: "\<exists>i n. i + n \<le> length s \<and> has_prefix (drop i s) gzipMagic \<and> be_gunzip env (take n (drop i s)) = Ok b"
    if dec: "decompressKernel env s = Ok b" for b
  proof (cases "has_prefix s gzipMagic")
    case True
    with dec show ?thesis
      by (intro exI [of _ 0] exI [of _ "length s"]) (simp add: decompressKernel_def)
  next
    case False
    with dec show ?thesis
      by (intro exI [of _ "unat ?o"] exI [of _ "unat ?e - unat ?o"])
        (auto simp: decompressKernel_def Let_def split: if_splits)
  qed
  have "2 ^ 32 \<le> unat ?o + unat (bzPayloadLen s)" if "decompressKernel env s = Panic"
  proof (rule ccontr)
    assume "\<not> 2 ^ 32 \<le> unat ?o + unat (bzPayloadLen s)"
    then have "unat ?e = unat ?o + unat (bzPayloadLen s)" using no_wrap by simp
    with that assms show False
      by (auto simp: decompressKernel_def Let_def split: if_splits)
  qed
  with ok show ?thesis by blast
qed

theorem decompressKernel_bounds_witness:
  "\<exists>i n. i + n \<le> 4 \<and> be_gunzip demoEnv (take n (drop i (gzipMagic @ ''ab''))) = Ok (gzipMagic @ ''ab'')"
proof -
  have "be_gunzip demoEnv x \<noteq> Panic" for x by (simp add: demoEnv_def)
  moreover have "decompressKernel demoEnv (gzipMagic @ ''ab'') = Ok (gzipMagic @ ''ab'')"
    by (simp add: decompressKernel_def demoEnv_def)
  moreover have "length (gzipMagic @ ''ab'') = 4" by (simp add: gzipMagic_def)
  ultimately show ?thesis
    using decompressKernel_bounds [of demoEnv "gzipMagic @ ''ab''"] by metis
qed

text \<open>
  Such a header exists: the payload is said to start 256 bytes before the end of the 32-bit range
  and to be 256 bytes long, so the sum wraps around to zero and the check on the length passes.
\<close>

definition wrapImage :: string where
  "wrapImage = replicate 510 (CHR 0x00) @ [CHR 0x55, CHR 0xAA] @ replicate 2 (CHR 0x00) @ ''HdrS'' @
     [CHR 0x02, CHR 0x0F] @ replicate 64 (CHR 0x00) @ [CHR 0x00, CHR 0xFD, CHR 0xFF, CHR 0xFF] @
     [CHR 0x00, CHR 0x01, CHR 0x00, CHR 0x00] @ replicate 4 (CHR 0x00)"

lemma decompressKernel_wraps: "decompressKernel env wrapImage = Panic"
proof -
  have "length wrapImage = 596" by (simp add: wrapImage_def)
  moreover have "byte_at wrapImage 510 = 85" "byte_at wrapImage 511 = 170" "byte_at wrapImage 497 = 0"
    "byte_at wrapImage 518 = 2" "byte_at wrapImage 584 = 0" "byte_at wrapImage 585 = 253"
    "byte_at wrapImage 586 = 255" "byte_at wrapImage 587 = 255" "byte_at wrapImage 588 = 0"
    "byte_at wrapImage 589 = 1" "byte_at wrapImage 590 = 0" "byte_at wrapImage 591 = 0"
    by (simp_all add: wrapImage_def byte_at_def nth_append)
  moreover have "has_prefix (drop 514 wrapImage) ''HdrS''" "\<not> has_prefix wrapImage gzipMagic"
    by (simp_all add: wrapImage_def gzipMagic_def numeral_eq_Suc)
  ultimately show ?thesis
    by (simp add: decompressKernel_def isBzImage_def bzPayloadOff_def bzPayloadLen_def LE_Uint16_def
        LE_Uint32_def Let_def)
qed

end
