(* ===== verification/Filesystem.thy ===== *)
theory Filesystem
  imports Image_Tar
begin

text \<open>
  The files section of a configuration: \<^verbatim>\<open>metadata\<close> and \<^verbatim>\<open>filesystem\<close> of
  \<^verbatim>\<open>moby/build/build.go\<close>.
\<close>

unbundle bit_operations_syntax

section \<open>Definitions\<close>

definition metadata :: "BuildEnv \<Rightarrow> Moby \<Rightarrow> string \<Rightarrow> string res" where
  "metadata env m md =
     bind_res (UpdateImages m)
     (\<lambda>m. if md = ''json'' then be_marshalMobyJSON env m
          else if md = ''yaml'' then be_marshalMobyYAML env m
          else Err (''unsupported metadata type: '' @ md))"

definition dirModeOf :: "int \<Rightarrow> int" where
  "dirModeOf mode =
     (let d = mode;
          d = (if d AND 448 \<noteq> 0 then d OR 64 else d);
          d = (if d AND 56 \<noteq> 0 then d OR 8 else d);
          d = (if d AND 7 \<noteq> 0 then d OR 1 else d)
      in d)"

definition fileMode :: "File \<Rightarrow> int res" where
  "fileMode f =
     (if f_Mode f \<noteq> []
      then wrap_err ''cannot parse file mode as octal value: '' (ParseInt (f_Mode f) 8 32)
      else Ok (if f_Directory f then 448 else 384))"

text \<open>The contents of a file, or nothing for an optional file that is not there.\<close>

definition fileContents :: "BuildEnv \<Rightarrow> Moby \<Rightarrow> File \<Rightarrow> string \<Rightarrow> string option res" where
  "fileContents env m f path =
     (if \<not> f_Directory f \<and> f_Symlink f = [] \<and> f_Contents f = None then
        if f_Source f = [] \<and> f_Metadata f = [] then Err (''contents of file ('' @ path @ '') not specified'')
        else if f_Source f \<noteq> [] \<and> f_Metadata f \<noteq> [] then Err (''specified Source and Metadata for file: '' @ path)
        else if f_Source f \<noteq> [] then
          let source = (if length (f_Source f) > 2 \<and> take 2 (f_Source f) = ''~/''
                        then be_HomeDir env @ drop 1 (f_Source f) else f_Source f) in
          if f_Optional f \<and> \<not> be_StatOk env source then Ok None
          else bind_res (be_ReadFile env source) (\<lambda>c. Ok (Some c))
        else bind_res (metadata env m (f_Metadata f)) (\<lambda>c. Ok (Some c))
      else if f_Metadata f \<noteq> [] then Err (''specified Contents and Metadata for file: '' @ path)
      else if f_Source f \<noteq> [] then Err (''specified Contents and Source for file: '' @ path)
      else Ok (Some (case f_Contents f of None \<Rightarrow> [] | Some c \<Rightarrow> c)))"

definition fileLocation :: "nat \<Rightarrow> string" where
  "fileLocation i = ''files['' @ dec_digits i @ '']''"

definition filesHdr :: "nat \<Rightarrow> string \<Rightarrow> int \<Rightarrow> 32 word \<Rightarrow> 32 word \<Rightarrow> tar_hdr" where
  "filesHdr i name mode uid gid =
     Header\<lparr>th_Name := name, th_Mode := mode, th_ModTime := defaultModTime, th_Uid := uint uid,
       th_Gid := uint gid, th_Format := FormatPAX,
       th_PAXRecords := pax_records ''linuxkit.files'' (fileLocation i)\<rparr>"

text \<open>One step of the loop over the components of the directory of a file.\<close>

definition leadingDir ::
  "'w tarWriter \<Rightarrow> (string \<Rightarrow> tar_hdr) \<Rightarrow> string \<Rightarrow> string \<times> 'w \<times> string list \<Rightarrow>
    (string \<times> 'w \<times> string list) res" where
  "leadingDir tw hdrOf p st =
     (case st of (root, w, added) \<Rightarrow>
      if p = ''.'' \<or> p = ''/'' then Ok (root, w, added)
      else let root = (if root = [] then p else root @ ''/'' @ p) in
        if root \<in> set added then Ok (root, w, added)
        else bind_res (w_WriteHeader tw ((hdrOf root)\<lparr>th_Typeflag := TypeDir\<rparr>) w)
               (\<lambda>w. Ok (root, w, root # added)))"

definition relPath :: "File \<Rightarrow> string" where
  "relPath f = (if hd (f_Path f) = CHR ''/'' then tl (f_Path f) else f_Path f)"

definition addFile ::
  "BuildEnv \<Rightarrow> Moby \<Rightarrow> idMap \<Rightarrow> 'w tarWriter \<Rightarrow> nat \<times> File \<Rightarrow> 'w \<times> string list \<Rightarrow>
    ('w \<times> string list) res" where
  "addFile env m idMap tw fc st =
     (case fc of (i, f) \<Rightarrow> case st of (w, added) \<Rightarrow>
      if f_Path f = [] then Err ''did not specify path for file''
      else let path = relPath f in
        bind_res (fileMode f)
        (\<lambda>mode. bind_res (IDNumeric (f_UID f) idMap)
        (\<lambda>uid. bind_res (IDNumeric (f_GID f) idMap)
        (\<lambda>gid. bind_res (fileContents env m f path)
        (\<lambda>c. case c of None \<Rightarrow> Ok (w, added) | Some contents \<Rightarrow>
          bind_res (loop_res (leadingDir tw (\<lambda>root. filesHdr i root (dirModeOf mode) uid gid))
             (split_on (CHR ''/'') (path_dir path)) ([], w, added))
          (\<lambda>(_, w, added).
            let added = path # added; hdr = filesHdr i path mode uid gid in
            if f_Directory f then
              if f_Contents f \<noteq> None then Err ''directory with contents not allowed''
              else bind_res (w_WriteHeader tw (hdr\<lparr>th_Typeflag := TypeDir\<rparr>) w) (\<lambda>w. Ok (w, added))
            else if f_Symlink f \<noteq> [] then
              bind_res (w_WriteHeader tw (hdr\<lparr>th_Typeflag := TypeSymlink, th_Linkname := f_Symlink f\<rparr>) w)
                (\<lambda>w. Ok (w, added))
            else
              bind_res (w_WriteHeader tw (hdr\<lparr>th_Size := length contents\<rparr>) w)
              (\<lambda>w. bind_res (w_Write tw contents w) (\<lambda>w. Ok (w, added)))))))))"

definition filesystem ::
  "BuildEnv \<Rightarrow> Moby \<Rightarrow> 'w tarWriter \<Rightarrow> idMap \<Rightarrow> 'w \<Rightarrow> 'w res" where
  "filesystem env m tw idMap w =
     bind_res (loop_res (addFile env m idMap tw) (enumerate 0 (mb_Files m)) (w, []))
       (\<lambda>(w, _). Ok w)"

section \<open>The entries of a file\<close>

text \<open>The leading directories of a path, outermost first.\<close>

fun rootsOf :: "string \<Rightarrow> string list \<Rightarrow> string list" where
  "rootsOf root [] = []"
| "rootsOf root (p # ps) =
     (if p = ''.'' \<or> p = ''/'' then rootsOf root ps
      else let r = (if root = [] then p else root @ ''/'' @ p) in r # rootsOf r ps)"

definition leadDirs :: "string \<Rightarrow> string list" where
  "leadDirs path = rootsOf [] (split_on (CHR ''/'') (path_dir path))"

fun newDirs :: "string list \<Rightarrow> string list \<Rightarrow> string list" where
  "newDirs added [] = []"
| "newDirs added (d # ds) =
     (if d \<in> set added then newDirs added ds else d # newDirs (d # added) ds)"

lemma newDirs_set: "set added \<union> set (newDirs added ds) = set added \<union> set ds"
  by (induction added ds rule: newDirs.induct) auto

lemma newDirs_distinct: "distinct (newDirs added ds) \<and> set (newDirs added ds) \<inter> set added = {}"
  by (induction added ds rule: newDirs.induct) auto

lemma leadingDir_step:
  "leadingDir tw hdrOf p (root, w, added) =
     (if p = ''.'' \<or> p = ''/'' then Ok (root, w, added)
      else let root = (if root = [] then p else root @ ''/'' @ p) in
        if root \<in> set added then Ok (root, w, added)
        else bind_res (w_WriteHeader tw ((hdrOf root)\<lparr>th_Typeflag := TypeDir\<rparr>) w)
               (\<lambda>w. Ok (root, w, root # added)))"
  by (simp add: leadingDir_def)

lemma leadingDir_loop:
  "loop_res (leadingDir tw hdrOf) ps (root, w, added) = Ok (root', w', added') \<Longrightarrow>
     run_ops tw (map (\<lambda>d. Hdr ((hdrOf d)\<lparr>th_Typeflag := TypeDir\<rparr>)) (newDirs added (rootsOf root ps))) w = Ok w' \<and>
     set added' = set added \<union> set (rootsOf root ps)"
proof (induction ps arbitrary: root w added)
  case Nil
  then show ?case by simp
next
  case (Cons p ps)
  show ?case
  proof (cases "p = ''.'' \<or> p = ''/''")
    case True
    with Cons show ?thesis by (simp add: leadingDir_step)
  next
    case False
    define r where "r = (if root = [] then p else root @ ''/'' @ p)"
    then have roots: "rootsOf root (p # ps) = r # rootsOf r ps" using False by (simp add: Let_def)
    show ?thesis
    proof (cases "r \<in> set added")
      case True
      with Cons.prems False have "loop_res (leadingDir tw hdrOf) ps (r, w, added) = Ok (root', w', added')"
        by (simp add: leadingDir_step Let_def r_def)
      from Cons.IH [OF this] True show ?thesis unfolding roots by auto
    next
      case new: False
      with Cons.prems False obtain w1 where
        w1: "w_WriteHeader tw ((hdrOf r)\<lparr>th_Typeflag := TypeDir\<rparr>) w = Ok w1"
        and rest: "loop_res (leadingDir tw hdrOf) ps (r, w1, r # added) = Ok (root', w', added')"
        by (auto simp: leadingDir_step Let_def r_def [symmetric])
      from Cons.IH [OF rest] w1 new show ?thesis
        unfolding roots by (simp add: run_ops_Cons)
    qed
  qed
qed

definition fileEntry :: "nat \<Rightarrow> File \<Rightarrow> int \<Rightarrow> 32 word \<Rightarrow> 32 word \<Rightarrow> string \<Rightarrow> tar_entry" where
  "fileEntry i f mode uid gid contents =
     (let hdr = filesHdr i (relPath f) mode uid gid in
      if f_Directory f then (hdr\<lparr>th_Typeflag := TypeDir\<rparr>, [])
      else if f_Symlink f \<noteq> [] then (hdr\<lparr>th_Typeflag := TypeSymlink, th_Linkname := f_Symlink f\<rparr>, [])
      else (hdr\<lparr>th_Size := length contents\<rparr>, contents))"

definition dirEntry :: "nat \<Rightarrow> int \<Rightarrow> 32 word \<Rightarrow> 32 word \<Rightarrow> string \<Rightarrow> tar_entry" where
  "dirEntry i mode uid gid d = ((filesHdr i d (dirModeOf mode) uid gid)\<lparr>th_Typeflag := TypeDir\<rparr>, [])"

definition name_of :: "tar_entry \<Rightarrow> string" where
  "name_of e = th_Name (fst e)"

lemma filesHdr_sel [simp]: "th_Name (filesHdr i n mode uid gid) = n"
  "th_Typeflag (filesHdr i n mode uid gid) = TypeRegA" "th_Size (filesHdr i n mode uid gid) = 0"
  by (simp_all add: filesHdr_def Header_def)

lemma name_of_entries [simp]:
  "name_of (fileEntry i f mode uid gid contents) = relPath f" "name_of (dirEntry i mode uid gid d) = d"
  by (simp_all add: fileEntry_def dirEntry_def name_of_def Let_def)

lemma write_both:
  "tw_WriteHeader h w = Ok w1 \<Longrightarrow> tw_Write d w1 = Ok w2 \<Longrightarrow> run_ops tarWriter (entry_ops (h, d)) w = Ok w2"
  by (simp add: write_entry [symmetric])

text \<open>What adding a file does to the archive, when it succeeds.\<close>

lemma addFile_tar:
  assumes "addFile env m idMap tarWriter (i, f) (w, added) = Ok (w', added')"
  obtains (skipped) "fileContents env m f (relPath f) = Ok None" "w' = w" "added' = added"
  | (entry) mode uid gid contents where "fileMode f = Ok mode" "IDNumeric (f_UID f) idMap = Ok uid"
      "IDNumeric (f_GID f) idMap = Ok gid" "fileContents env m f (relPath f) = Ok (Some contents)"
      "run_ops tarWriter (entries (map (dirEntry i mode uid gid) (newDirs added (leadDirs (relPath f))) @
         [fileEntry i f mode uid gid contents])) w = Ok w'"
      "set added' = insert (relPath f) (set added \<union> set (leadDirs (relPath f)))"
proof -
  from assms obtain mode uid gid c where ids: "fileMode f = Ok mode" "IDNumeric (f_UID f) idMap = Ok uid"
      "IDNumeric (f_GID f) idMap = Ok gid" and c: "fileContents env m f (relPath f) = Ok c"
    by (auto simp: addFile_def Let_def split: if_splits)
  show thesis
  proof (cases c)
    case None
    with assms ids c show thesis by (auto simp: addFile_def Let_def split: if_splits intro: skipped)
  next
    case (Some contents)
    let ?hdrOf = "\<lambda>root. filesHdr i root (dirModeOf mode) uid gid"
    from assms ids c Some obtain root w1 added1 where
      loop: "loop_res (leadingDir tarWriter ?hdrOf) (split_on (CHR ''/'') (path_dir (relPath f))) ([], w, added)
        = Ok (root, w1, added1)"
      and last: "run_ops tarWriter (entry_ops (fileEntry i f mode uid gid contents)) w1 = Ok w'"
      and added': "added' = relPath f # added1"
      by (auto simp: addFile_def Let_def fileEntry_def run_entry_empty write_both split: if_splits)
    have dirs: "entries (map (dirEntry i mode uid gid) ds) = map (\<lambda>d. Hdr ((?hdrOf d)\<lparr>th_Typeflag := TypeDir\<rparr>)) ds" for ds
      by (induction ds) (simp_all add: dirEntry_def entry_ops_def copy_ops_def)
    from leadingDir_loop [OF loop]
    have "run_ops tarWriter (entries (map (dirEntry i mode uid gid) (newDirs added (leadDirs (relPath f))))) w = Ok w1"
      and "set added1 = set added \<union> set (leadDirs (relPath f))"
      unfolding dirs leadDirs_def by simp_all
    with last added' ids c Some show thesis by (intro entry) (auto simp: run_ops_append)
  qed
qed

text \<open>
  What the archive says of a file: its path, mode, owner and, by its kind, a directory, a link or a regular file
  with its contents (the old flag becomes the one of a regular file on the tape).
\<close>

definition describes :: "File \<Rightarrow> int \<Rightarrow> 32 word \<Rightarrow> 32 word \<Rightarrow> string \<Rightarrow> tar_entry \<Rightarrow> bool" where
  "describes f mode uid gid contents e \<longleftrightarrow>
     th_Name (fst e) = relPath f \<and> th_Mode (fst e) = mode \<and> th_Uid (fst e) = uint uid \<and> th_Gid (fst e) = uint gid \<and>
     (if f_Directory f then th_Typeflag (fst e) = TypeDir \<and> snd e = []
      else if f_Symlink f \<noteq> []
      then th_Typeflag (fst e) = TypeSymlink \<and> th_Linkname (fst e) = f_Symlink f \<and> snd e = []
      else th_Typeflag (fst e) = TypeRegA \<and> th_Size (fst e) = length contents \<and> snd e = contents)"

text \<open>
  A directory that was made for a file of the configuration: it has the owner of that file, and its mode with
  the permission to search wherever the file has any.
\<close>

definition madeFor :: "Moby \<Rightarrow> idMap \<Rightarrow> tar_entry \<Rightarrow> bool" where
  "madeFor m idMap e \<longleftrightarrow>
     (\<exists>g\<in>set (mb_Files m). \<exists>mode uid gid.
        fileMode g = Ok mode \<and> IDNumeric (f_UID g) idMap = Ok uid \<and> IDNumeric (f_GID g) idMap = Ok gid \<and>
        th_Typeflag (fst e) = TypeDir \<and> th_Uid (fst e) = uint uid \<and> th_Gid (fst e) = uint gid \<and>
        (\<forall>n. bit (th_Mode (fst e)) n \<longleftrightarrow>
           bit mode n \<or> n \<in> {0, 3, 6} \<and> (bit mode (n + 1) \<or> bit mode (n + 2))) \<and> snd e = [])"

text \<open>
  A file is in its place: each of its leading directories comes before it, as a directory that was made for
  a file or as what the configuration itself lists under that path.
\<close>

definition placed :: "BuildEnv \<Rightarrow> Moby \<Rightarrow> idMap \<Rightarrow> tar_entry list \<Rightarrow> nat \<times> File \<Rightarrow> bool" where
  "placed env m idMap files fc \<longleftrightarrow>
     (case fc of (i, f) \<Rightarrow>
      fileContents env m f (relPath f) = Ok None \<or>
      (\<exists>mode uid gid contents before e after.
         fileMode f = Ok mode \<and> IDNumeric (f_UID f) idMap = Ok uid \<and> IDNumeric (f_GID f) idMap = Ok gid \<and>
         fileContents env m f (relPath f) = Ok (Some contents) \<and>
         files = before @ e # after \<and> describes f mode uid gid contents e \<and>
         (\<forall>d\<in>set (leadDirs (relPath f)). \<exists>l\<in>set before. name_of l = d \<and>
            (madeFor m idMap l \<or> d \<in> relPath ` set (mb_Files m)))))"

definition isDir :: "tar_entry \<Rightarrow> bool" where
  "isDir e \<longleftrightarrow> th_Typeflag (fst e) = TypeDir"

lemma describes_fileEntry: "describes f mode uid gid contents (fileEntry i f mode uid gid contents)"
  by (simp add: describes_def fileEntry_def filesHdr_def Header_def Let_def)

lemma mask_class:
  fixes mode :: int
  shows "mode AND 7 \<noteq> 0 \<longleftrightarrow> bit mode 0 \<or> bit mode 1 \<or> bit mode 2"
    "mode AND 56 \<noteq> 0 \<longleftrightarrow> bit mode 3 \<or> bit mode 4 \<or> bit mode 5"
    "mode AND 448 \<noteq> 0 \<longleftrightarrow> bit mode 6 \<or> bit mode 7 \<or> bit mode 8"
proof -
  have bits: "bit (7 :: int) n \<longleftrightarrow> n \<in> {0, 1, 2}" "bit (56 :: int) n \<longleftrightarrow> n \<in> {3, 4, 5}"
    "bit (448 :: int) n \<longleftrightarrow> n \<in> {6, 7, 8}" for n
    by (auto simp: bit_numeral_rec numeral_eq_Suc bit_simps split: nat.splits)
  have some: "x \<noteq> 0 \<longleftrightarrow> (\<exists>n. bit x n)" for x :: int by (auto simp: bit_eq_iff)
  show "mode AND 7 \<noteq> 0 \<longleftrightarrow> bit mode 0 \<or> bit mode 1 \<or> bit mode 2"
    "mode AND 56 \<noteq> 0 \<longleftrightarrow> bit mode 3 \<or> bit mode 4 \<or> bit mode 5"
    "mode AND 448 \<noteq> 0 \<longleftrightarrow> bit mode 6 \<or> bit mode 7 \<or> bit mode 8"
    by (auto simp: some bit_and_iff bits)
qed

lemma bit_dirModeOf:
  "bit (dirModeOf mode) n \<longleftrightarrow> bit mode n \<or> n \<in> {0, 3, 6} \<and> (bit mode (n + 1) \<or> bit mode (n + 2))"
proof -
  have one: "bit (1 :: int) k \<longleftrightarrow> k = 0" "bit (8 :: int) k \<longleftrightarrow> k = 3" "bit (64 :: int) k \<longleftrightarrow> k = 6" for k
    by (auto simp: bit_1_iff bit_numeral_rec numeral_eq_Suc split: nat.splits)
  show ?thesis
    by (auto simp: dirModeOf_def Let_def mask_class bit_or_iff one numeral_eq_Suc)
qed

lemma madeFor_dirEntry:
  assumes "fileMode f = Ok mode" "IDNumeric (f_UID f) idMap = Ok uid" "IDNumeric (f_GID f) idMap = Ok gid"
    and "f \<in> set (mb_Files m)"
  shows "madeFor m idMap (dirEntry i mode uid gid d)"
  unfolding madeFor_def
  by (intro bexI [of _ f] exI [of _ mode] exI [of _ uid] exI [of _ gid])
     (use assms in \<open>simp_all add: dirEntry_def filesHdr_def Header_def bit_dirModeOf\<close>)

lemma placedI:
  assumes "fileMode f = Ok mode" "IDNumeric (f_UID f) idMap = Ok uid" "IDNumeric (f_GID f) idMap = Ok gid"
    and "fileContents env m f (relPath f) = Ok (Some contents)"
    and "set (leadDirs (relPath f)) \<subseteq> name_of ` set before"
    and "\<forall>e\<in>set before. madeFor m idMap e \<or> name_of e \<in> relPath ` set (mb_Files m)"
  shows "placed env m idMap (before @ fileEntry i f mode uid gid contents # after) (i, f)"
proof -
  have "\<forall>d\<in>set (leadDirs (relPath f)). \<exists>l\<in>set before. name_of l = d \<and>
      (madeFor m idMap l \<or> d \<in> relPath ` set (mb_Files m))"
    using assms(5,6) by blast
  then show ?thesis
    unfolding placed_def prod.case using assms(1-4) describes_fileEntry by blast
qed

lemma files_loop:
  assumes "loop_res (addFile env m idMap tarWriter) fcs (w, added) = Ok (w', added')" and "\<not> tw_closed w"
    and "set added = name_of ` set pre" and "b \<longrightarrow> distinct (map name_of (filter isDir pre))"
    and "b \<longrightarrow> list_all (\<lambda>fc. \<not> f_Directory (snd fc)) fcs"
    and "\<forall>e\<in>set pre. madeFor m idMap e \<or> name_of e \<in> relPath ` set (mb_Files m)"
    and "set (map snd fcs) \<subseteq> set (mb_Files m)"
  shows "\<exists>es. tw_out w' = tw_out w @ map on_tape es \<and> \<not> tw_closed w' \<and>
    list_all (placed env m idMap (pre @ es)) fcs \<and>
    (b \<longrightarrow> distinct (map name_of (filter isDir (pre @ es))))"
  using assms
proof (induction fcs arbitrary: w added pre)
  case Nil
  then show ?case by auto
next
  case (Cons fc fcs)
  obtain i f where fc: "fc = (i, f)" by (cases fc)
  from Cons.prems(1) fc obtain w1 added1 where
    first: "addFile env m idMap tarWriter (i, f) (w, added) = Ok (w1, added1)"
    and rest: "loop_res (addFile env m idMap tarWriter) fcs (w1, added1) = Ok (w', added')"
    by auto
  from first show ?case
  proof (cases rule: addFile_tar)
    case skipped
    with rest Cons.prems have "loop_res (addFile env m idMap tarWriter) fcs (w, added) = Ok (w', added')" by simp
    from Cons.IH [OF this Cons.prems(2-4) _ Cons.prems(6)] Cons.prems(5,7) skipped(1) show ?thesis
      by (auto simp: fc placed_def)
  next
    case (entry mode uid gid contents)
    let ?dirs = "map (dirEntry i mode uid gid) (newDirs added (leadDirs (relPath f)))"
    let ?e = "fileEntry i f mode uid gid contents"
    have names: "name_of ` set ?dirs = set (newDirs added (leadDirs (relPath f)))" by (force simp: image_image)
    have w1: "tw_out w1 = tw_out w @ map on_tape (?dirs @ [?e])" "\<not> tw_closed w1"
      using entry(5) Cons.prems(2) by (auto simp: run_tarWriter written_entries simp del: map_append concat_append)
    have before: "name_of ` set (pre @ ?dirs) = set added \<union> set (leadDirs (relPath f))"
      unfolding set_append image_Un names Cons.prems(3) [symmetric] by (rule newDirs_set)
    then have added1: "set added1 = name_of ` set (pre @ ?dirs @ [?e])"
      unfolding entry(6) by (simp add: image_Un)
    have f: "f \<in> set (mb_Files m)" using Cons.prems(7) by (simp add: fc)
    have made: "\<forall>e\<in>set (pre @ ?dirs). madeFor m idMap e \<or> name_of e \<in> relPath ` set (mb_Files m)"
      using Cons.prems(6) madeFor_dirEntry [OF entry(1-3) f] by auto
    have placed: "placed env m idMap ((pre @ ?dirs) @ ?e # es) fc" for es
      unfolding fc by (rule placedI [OF entry(1-4) _ made]) (simp only: before, simp)
    have distinct: "b \<longrightarrow> distinct (map name_of (filter isDir (pre @ ?dirs @ [?e])))"
    proof
      assume b: b
      then have "\<not> isDir ?e" using Cons.prems(5) by (simp add: fc isDir_def fileEntry_def Let_def)
      moreover have "filter isDir ?dirs = ?dirs" by (simp add: isDir_def dirEntry_def)
      moreover have "map name_of ?dirs = newDirs added (leadDirs (relPath f))" by (simp add: comp_def)
      moreover have "set (map name_of (filter isDir pre)) \<subseteq> set added" using Cons.prems(3) by auto
      ultimately show "distinct (map name_of (filter isDir (pre @ ?dirs @ [?e])))"
        using b Cons.prems(4) newDirs_distinct [of added "leadDirs (relPath f)"]
        by (simp del: map_map) blast
    qed
    have "b \<longrightarrow> list_all (\<lambda>fc. \<not> f_Directory (snd fc)) fcs" using Cons.prems(5) by simp
    moreover have "\<forall>e\<in>set (pre @ ?dirs @ [?e]). madeFor m idMap e \<or> name_of e \<in> relPath ` set (mb_Files m)"
      using made f by auto
    moreover have "set (map snd fcs) \<subseteq> set (mb_Files m)" using Cons.prems(7) by simp
    ultimately obtain es where
      es: "tw_out w' = tw_out w1 @ map on_tape es" "\<not> tw_closed w'"
        "list_all (placed env m idMap ((pre @ ?dirs @ [?e]) @ es)) fcs"
        "b \<longrightarrow> distinct (map name_of (filter isDir ((pre @ ?dirs @ [?e]) @ es)))"
      using Cons.IH [OF rest w1(2) added1 distinct] by blast
    from placed [of es] es w1(1) show ?thesis
      by (intro exI [of _ "?dirs @ ?e # es"]) simp
  qed
qed

section \<open>Which files are accepted\<close>

text \<open>
  A name with a trailing slash makes the archive writer take a regular file for a directory, which
  has room for no contents.
\<close>

definition file_ok :: "BuildEnv \<Rightarrow> Moby \<Rightarrow> idMap \<Rightarrow> File \<Rightarrow> bool" where
  "file_ok env m idMap f \<longleftrightarrow>
     f_Path f \<noteq> [] \<and> is_ok (fileMode f) \<and> is_ok (IDNumeric (f_UID f) idMap) \<and>
     is_ok (IDNumeric (f_GID f) idMap) \<and>
     (case fileContents env m f (relPath f) of
        Ok None \<Rightarrow> True
      | Ok (Some c) \<Rightarrow>
          (if f_Directory f then f_Contents f = None
           else f_Symlink f = [] \<and> ends_slash (relPath f) \<longrightarrow> c = [])
      | _ \<Rightarrow> False)"

definition ready :: "tarw \<Rightarrow> bool" where
  "ready w \<longleftrightarrow> \<not> tw_closed w \<and> tw_left w = 0"

lemma ready_header:
  "ready w \<Longrightarrow> payload h = 0 \<Longrightarrow> \<exists>w'. tw_WriteHeader h w = Ok w' \<and> ready w'"
  by (simp add: ready_def tw_WriteHeader_def tw_Flush_def)

lemma payload_dir: "payload (h\<lparr>th_Typeflag := TypeDir\<rparr>) = 0"
  by (simp add: payload_only isHeaderOnlyType_def)

lemma leading_ready:
  assumes "ready w"
  shows "\<exists>root' w' added'.
     loop_res (leadingDir tarWriter hdrOf) ps (root, w, added) = Ok (root', w', added') \<and> ready w'"
proof -
  have step: "\<exists>s'. leadingDir tarWriter hdrOf p s = Ok s' \<and> ready (fst (snd s'))"
    if "ready (fst (snd s))" for p s
  proof -
    obtain r w a where s: "s = (r, w, a)" by (cases s)
    with that have w: "ready w" by simp
    obtain w1 where "tw_WriteHeader ((hdrOf (if r = [] then p else r @ ''/'' @ p))\<lparr>th_Typeflag := TypeDir\<rparr>) w = Ok w1"
      "ready w1" using ready_header [OF w payload_dir] by blast
    with w show ?thesis unfolding s leadingDir_step by (simp add: Let_def)
  qed
  have "\<exists>s'. loop_res (leadingDir tarWriter hdrOf) ps (root, w, added) = Ok s' \<and> ready (fst (snd s'))"
    by (rule loop_res_total) (use assms step in auto)
  then show ?thesis by auto
qed

lemma file_entry_ready:
  assumes "ready w" and "f_Directory f \<or> f_Symlink f \<noteq> [] \<or> (ends_slash (relPath f) \<longrightarrow> c = [])"
  shows "\<exists>w'. run_ops tarWriter (entry_ops (fileEntry i f mode uid gid c)) w = Ok w' \<and> ready w'"
proof -
  have "exact (fileEntry i f mode uid gid c)"
  proof (cases "f_Directory f \<or> f_Symlink f \<noteq> []")
    case True
    then show ?thesis
      by (auto simp: fileEntry_def Let_def exact_def payload_dir payload_only isHeaderOnlyType_def)
  next
    case False
    with assms(2) show ?thesis
      by (cases "ends_slash (relPath f)")
        (simp add: fileEntry_def Let_def exact_def payload_def,
         simp add: fileEntry_def Let_def exact_def payload_old)
  qed
  from run_entries [of "[fileEntry i f mode uid gid c]"] this assms(1) show ?thesis
    by (simp add: ready_def)
qed

lemma slash_refused:
  assumes "\<not> f_Directory f" "f_Symlink f = []" "ends_slash (relPath f)" "c \<noteq> []"
  shows "run_ops tarWriter (entry_ops (fileEntry i f mode uid gid c)) w \<noteq> Ok w'"
proof
  assume ok: "run_ops tarWriter (entry_ops (fileEntry i f mode uid gid c)) w = Ok w'"
  have "payload ((filesHdr i (relPath f) mode uid gid)\<lparr>th_Size := length c\<rparr>) = 0"
    using assms(3) by (simp add: payload_def norm_hdr_def isHeaderOnlyType_def)
  with ok assms show False
    by (auto simp: fileEntry_def Let_def entry_ops_def copy_ops_def run_ops_Cons tw_WriteHeader_def tw_Write_def
        split: if_splits)
qed

lemma addFile_eq:
  assumes "f_Path f \<noteq> []" "fileMode f = Ok mode" "IDNumeric (f_UID f) idMap = Ok uid"
    "IDNumeric (f_GID f) idMap = Ok gid" "fileContents env m f (relPath f) = Ok (Some c)"
  shows "addFile env m idMap tarWriter (i, f) (w, added) =
    bind_res (loop_res (leadingDir tarWriter (\<lambda>root. filesHdr i root (dirModeOf mode) uid gid))
       (split_on (CHR ''/'') (path_dir (relPath f))) ([], w, added))
    (\<lambda>(_, w, added).
      if f_Directory f \<and> f_Contents f \<noteq> None then Err ''directory with contents not allowed''
      else bind_res (run_ops tarWriter (entry_ops (fileEntry i f mode uid gid c)) w)
             (\<lambda>w. Ok (w, relPath f # added)))"
  using assms
  by (auto simp: addFile_def Let_def fileEntry_def run_entry_empty write_entry_then intro!: bind_res_cong)

lemma addFile_ready:
  assumes w: "ready w"
  shows "is_ok (addFile env m idMap tarWriter (i, f) (w, added)) \<longleftrightarrow> file_ok env m idMap f"
    and "addFile env m idMap tarWriter (i, f) (w, added) = Ok (w', added') \<Longrightarrow> ready w'"
proof -
  have "is_ok (addFile env m idMap tarWriter (i, f) (w, added)) = file_ok env m idMap f \<and>
      (\<forall>w' added'. addFile env m idMap tarWriter (i, f) (w, added) = Ok (w', added') \<longrightarrow> ready w')"
  proof (cases "f_Path f \<noteq> [] \<and> is_ok (fileMode f) \<and> is_ok (IDNumeric (f_UID f) idMap) \<and>
      is_ok (IDNumeric (f_GID f) idMap) \<and> is_ok (fileContents env m f (relPath f))")
    case False
    then show ?thesis
      by (auto simp: addFile_def file_ok_def is_ok_iff Let_def split: res.splits)
  next
    case True
    then obtain mode uid gid c where ok: "f_Path f \<noteq> []" "fileMode f = Ok mode"
      "IDNumeric (f_UID f) idMap = Ok uid" "IDNumeric (f_GID f) idMap = Ok gid"
      and c: "fileContents env m f (relPath f) = Ok c" by (auto simp: is_ok_iff)
    show ?thesis
    proof (cases c)
      case None
      with ok c w show ?thesis by (simp add: addFile_def file_ok_def Let_def)
    next
      case (Some c')
      note c' = c [unfolded Some]
      obtain r w1 a where lead: "loop_res (leadingDir tarWriter (\<lambda>root. filesHdr i root (dirModeOf mode) uid gid))
         (split_on (CHR ''/'') (path_dir (relPath f))) ([], w, added) = Ok (r, w1, a)" "ready w1"
        using leading_ready [OF w] by blast
      have ok_iff: "file_ok env m idMap f \<longleftrightarrow>
          (if f_Directory f then f_Contents f = None else f_Symlink f = [] \<and> ends_slash (relPath f) \<longrightarrow> c' = [])"
        using ok c' by (simp add: file_ok_def)
      show ?thesis
      proof (cases "file_ok env m idMap f")
        case good: True
        then have "f_Directory f \<or> f_Symlink f \<noteq> [] \<or> (ends_slash (relPath f) \<longrightarrow> c' = [])"
          using ok_iff by (auto split: if_splits)
        from file_entry_ready [OF lead(2) this]
        obtain w2 where "run_ops tarWriter (entry_ops (fileEntry i f mode uid gid c')) w1 = Ok w2" "ready w2"
          by blast
        with good ok_iff show ?thesis by (simp add: addFile_eq [OF ok c'] lead(1))
      next
        case bad: False
        then have "f_Directory f \<and> f_Contents f \<noteq> None \<or>
            \<not> f_Directory f \<and> f_Symlink f = [] \<and> ends_slash (relPath f) \<and> c' \<noteq> []"
          using ok_iff by (simp split: if_splits)
        then have "\<not> is_ok (addFile env m idMap tarWriter (i, f) (w, added))"
          using slash_refused [of f c' i mode uid gid w1]
          by (auto simp: addFile_eq [OF ok c'] lead(1) is_ok_iff)
        with bad show ?thesis by (auto simp: is_ok_iff)
      qed
    qed
  qed
  then show "is_ok (addFile env m idMap tarWriter (i, f) (w, added)) \<longleftrightarrow> file_ok env m idMap f"
    "addFile env m idMap tarWriter (i, f) (w, added) = Ok (w', added') \<Longrightarrow> ready w'" by blast+
qed

lemma files_ready:
  "ready w \<Longrightarrow> is_ok (loop_res (addFile env m idMap tarWriter) fcs (w, added)) \<longleftrightarrow>
     list_all (\<lambda>fc. file_ok env m idMap (snd fc)) fcs"
proof (induction fcs arbitrary: w added)
  case (Cons fc fcs)
  obtain i f where fc: "fc = (i, f)" by (cases fc)
  note ready = addFile_ready [OF Cons.prems, of env m idMap i f added]
  show ?case
  proof (cases "addFile env m idMap tarWriter (i, f) (w, added)")
    case (Ok s)
    obtain w1 added1 where s: "s = (w1, added1)" by (cases s)
    with Ok ready(2) have "ready w1" by simp
    from Cons.IH [OF this] ready(1) Ok s show ?thesis by (simp add: fc)
  qed (use ready(1) in \<open>simp_all add: fc\<close>)
qed simp

lemma filesystem_ready:
  assumes "ready w"
  shows "is_ok (filesystem env m tarWriter idMap w) \<longleftrightarrow> list_all (file_ok env m idMap) (mb_Files m)"
proof -
  have "list_all (\<lambda>fc. P (snd fc)) (enumerate n fs) = list_all P fs" for P and n and fs :: "File list"
    by (induction fs arbitrary: n) simp_all
  moreover have "is_ok (filesystem env m tarWriter idMap w) \<longleftrightarrow>
      is_ok (loop_res (addFile env m idMap tarWriter) (enumerate 0 (mb_Files m)) (w, []))"
    by (auto simp: filesystem_def is_ok_iff)
  ultimately show ?thesis using assms by (simp add: files_ready)
qed

section \<open>Properties\<close>

text \<open>
  C22. The files of a configuration are laid out so that they can be unpacked in order: every file
  that is not an absent optional one is in the archive, as what it is, with its mode, its owner and its contents.
  Every directory that leads to it comes before it: it is what the configuration itself lists under that path, or a directory
  made for one of the files, with that file's owner and mode and the permission to search wherever the file has any permission.
  Unless the configuration lists directories itself, no directory is made twice.
\<close>

theorem filesystem_layout:
  assumes "filesystem env m tarWriter idMap w = Ok w'" and "\<not> tw_closed w"
  shows "\<exists>files. tw_out w' = tw_out w @ map on_tape files \<and>
    list_all (placed env m idMap files) (enumerate 0 (mb_Files m)) \<and>
    (list_all (\<lambda>f. \<not> f_Directory f) (mb_Files m) \<longrightarrow> distinct (map name_of (filter isDir files)))"
proof -
  from assms(1) obtain added where
    loop: "loop_res (addFile env m idMap tarWriter) (enumerate 0 (mb_Files m)) (w, []) = Ok (w', added)"
    by (auto simp: filesystem_def)
  have "list_all (\<lambda>fc. \<not> f_Directory (snd fc)) (enumerate n fs) = list_all (\<lambda>f. \<not> f_Directory f) fs" for n fs
    by (induction fs arbitrary: n) simp_all
  then show ?thesis
    using files_loop [OF loop assms(2), of "[]" "list_all (\<lambda>f. \<not> f_Directory f) (mb_Files m)"] by auto
qed

definition demoFiles :: Moby where
  "demoFiles = Moby_zero\<lparr>mb_Files :=
     [\<lparr>f_Path = ''/etc/motd'', f_Directory = False, f_Symlink = [], f_Contents = Some ''hi'', f_Source = [],
       f_Metadata = [], f_Optional = False, f_Mode = ''0644'', f_UID = INil, f_GID = INil\<rparr>]\<rparr>"

lemma demo_filesystem: "is_ok (filesystem demoEnv demoFiles tarWriter (\<lambda>_. None) NewWriter)"
proof -
  have "is_ok (ParseInt ''0644'' 8 32)"
    by (simp add: ParseInt_def ParseUint_def digit_val_def)
  then have "list_all (file_ok demoEnv demoFiles (\<lambda>_. None)) (mb_Files demoFiles)"
    by (simp add: demoFiles_def file_ok_def fileMode_def IDNumeric_def fileContents_def relPath_def ends_slash_def
        is_ok_iff)
  then show ?thesis by (simp add: filesystem_ready ready_def NewWriter_sel)
qed

theorem filesystem_layout_witness:
  "\<exists>w' files. filesystem demoEnv demoFiles tarWriter (\<lambda>_. None) NewWriter = Ok w' \<and>
     tw_out w' = map on_tape files \<and>
     list_all (placed demoEnv demoFiles (\<lambda>_. None) files) (enumerate 0 (mb_Files demoFiles))"
proof -
  obtain w' where ok: "filesystem demoEnv demoFiles tarWriter (\<lambda>_. None) NewWriter = Ok w'"
    using demo_filesystem unfolding is_ok_iff by blast
  from filesystem_layout [OF ok NewWriter_sel(3)] ok show ?thesis by (auto simp: NewWriter_sel)
qed

text \<open>
  Exactly which file sections can be written to an archive between entries: those in which
  every file has a path, a mode in octal, known owners and one source of contents that can be
  read, no directory has contents and no path with a trailing slash has any.
\<close>

theorem filesystem_accepts:
  assumes "\<not> tw_closed w" and "tw_left w = 0"
  shows "is_ok (filesystem env m tarWriter idMap w) \<longleftrightarrow> list_all (file_ok env m idMap) (mb_Files m)"
  using assms by (intro filesystem_ready) (simp add: ready_def)

theorem filesystem_accepts_witness:
  "list_all (file_ok demoEnv demoFiles (\<lambda>_. None)) (mb_Files demoFiles)"
  using filesystem_accepts [OF NewWriter_sel(3,2)] demo_filesystem by blast

end
