(* ===== verification/Build.thy ===== *)
theory Build
  imports Volumes Image_Bundle Kernel_Filter Filesystem
begin

text \<open>
  The build itself: \<^verbatim>\<open>outputImage\<close> and \<^verbatim>\<open>Build\<close> of \<^verbatim>\<open>moby/build/build.go\<close>, one definition for
  each stretch of the body of \<^verbatim>\<open>Build\<close>.  The input archive, if there is one, is given with the
  configuration found in it.
\<close>

section \<open>Definitions\<close>

definition streamable :: "string list" where
  "streamable = [''docker'', ''tar'']"

definition Streamable :: "string \<Rightarrow> bool" where
  "Streamable t \<longleftrightarrow> t \<in> set streamable"

definition dockerfile :: string where
  "dockerfile = nl @ ''FROM scratch'' @ nl @ nl @ ''COPY . ./'' @ nl @ nl @
     ''ENTRYPOINT ['' @ [CHR 0x22] @ ''/bin/rc.init'' @ [CHR 0x22] @ '']'' @ nl"

definition resolvconfSymlink :: string where
  "resolvconfSymlink = ''/run/resolvconf/resolv.conf''"

definition dockerAddition :: "'w tarWriter \<Rightarrow> 'w \<Rightarrow> 'w res" where
  "dockerAddition tw w =
     bind_res (w_WriteHeader tw (Header\<lparr>th_Name := ''Dockerfile'', th_Mode := 420,
         th_Size := length dockerfile, th_ModTime := defaultModTime, th_Format := FormatPAX\<rparr>) w)
       (w_Write tw dockerfile)"

definition additions :: "string \<Rightarrow> ('w tarWriter \<Rightarrow> 'w \<Rightarrow> 'w res) option" where
  "additions t = (if t = ''docker'' then Some dockerAddition else None)"

definition indexed :: "string \<Rightarrow> nat \<Rightarrow> string" where
  "indexed sect i = sect @ ''['' @ dec_digits i @ '']''"

definition outputImage ::
  "BuildEnv \<Rightarrow> Image \<Rightarrow> string \<Rightarrow> nat \<Rightarrow> string \<Rightarrow> Moby \<Rightarrow> idMap \<Rightarrow> tarw buildState \<Rightarrow> tarw buildState res"
where
  "outputImage env img sect index pre m idMap st =
     bind_res (wrap_err (''could not resolve references for image '' @ img_Image img @ '': '')
        (be_refParse env (ReferenceExpand (img_Image img) [])))
     (\<lambda>ref. bind_res (wrap_err (''could not pull image '' @ img_Image img @ '': '') (be_imageSource env ref))
     (\<lambda>src. bind_res (wrap_err (''failed to retrieve config for '' @ img_Image img @ '': '') (src_Config src))
     (\<lambda>configRaw. bind_res (wrap_err (''failed update image '' @ img_Image img @ '' from volumes: '')
        (updateMountsAndBindsFromVolumes img m))
     (\<lambda>imageWithVolPaths. bind_res (wrap_err (''failed to create OCI spec for '' @ img_Image img @ '': '')
        (ConfigToOCI (be_yaml env) (be_capabilities env) imageWithVolPaths configRaw idMap))
     (\<lambda>(oci, runtime). bind_res (wrap_err (''failed to create config for '' @ img_Image img @ '': '')
        (be_marshalSpec env oci))
     (\<lambda>config. wrap_err (''failed to extract root filesystem for '' @ img_Image img @ '': '')
        (ImageBundle env (path_join [''containers'', sect, pre @ img_Name img]) (indexed sect index)
           (ic_ref (img_Config img)) config runtime tarWriter (root_Readonly (sp_Root oci)) st)))))))"

record BuildOpts =
  bo_InputTar :: string
  bo_BuilderType :: string
  bo_DecompressKernel :: bool

record BuildOs =
  os_MkdirTmp :: "unit res"
  os_Open :: "string \<Rightarrow> tar_stream res"

text \<open>The last file that holds metadata names the place of the configuration in the archive.\<close>

definition metadataLocation :: "Moby \<Rightarrow> string" where
  "metadataLocation m =
     foldl (\<lambda>loc f. if f_Metadata f = [] then loc else trim_prefix (f_Path f) ''/'') [] (mb_Files m)"

fun findConfig :: "BuildEnv \<Rightarrow> string \<Rightarrow> tar_entry list \<Rightarrow> string option \<Rightarrow> Moby option res" where
  "findConfig env loc [] err =
     (case err of None \<Rightarrow> Ok None | Some e \<Rightarrow> Err (''failed to read input tar: '' @ e))"
| "findConfig env loc ((hdr, data) # es) err =
     (if trim_prefix (th_Name hdr) ''/'' = loc
      then bind_res (wrap_err ''invalid config in existing tar file: ''
             (NewConfig (be_yaml env) (be_refParse env) data None)) (\<lambda>c. Ok (Some c))
      else findConfig env loc es err)"

type_synonym oldBuild = "(Moby \<times> tar_stream) option"

definition readOld :: "BuildOs \<Rightarrow> BuildEnv \<Rightarrow> Moby \<Rightarrow> BuildOpts \<Rightarrow> oldBuild res" where
  "readOld os env m opts =
     (if metadataLocation m \<noteq> [] \<and> bo_InputTar opts \<noteq> []
      then bind_res (wrap_err ''failed to open input tar: '' (os_Open os (bo_InputTar opts)))
        (\<lambda>inTar. bind_res (findConfig env (metadataLocation m) (fst inTar) (snd inTar))
        (\<lambda>oc. Ok (case oc of None \<Rightarrow> None | Some c \<Rightarrow> Some (c, inTar))))
      else Ok None)"

text \<open>User and group ids of the containers: 100, 101 and so on, at 32 bits.\<close>

definition allocateIds :: "Moby \<Rightarrow> idMap" where
  "allocateIds m =
     fst (foldl (\<lambda>(idMap, id) img. (idMap(img_Name img \<mapsto> id), id + 1)) (Map.empty, 100)
            (mb_Onboot m @ mb_Onshutdown m @ mb_Services m))"

definition buildKernel ::
  "BuildEnv \<Rightarrow> BuildOpts \<Rightarrow> Moby \<Rightarrow> oldBuild \<Rightarrow> tarw \<times> SbomGenerator option \<Rightarrow>
    (tarw \<times> SbomGenerator option) res" where
  "buildKernel env opts m old st =
     (case st of (w, sg) \<Rightarrow> case kc_ref (mb_Kernel m) of None \<Rightarrow> Ok (w, sg) | Some kernelRef \<Rightarrow>
      let oldRef = (case old of None \<Rightarrow> None | Some (oc, _) \<Rightarrow> kc_ref (mb_Kernel oc));
          same = (case oldRef of None \<Rightarrow> False | Some r \<Rightarrow> ref_String r = ref_String kernelRef) in
      case (if same then old else None) of
        Some (_, inTar) \<Rightarrow>
          bind_res (extractPackageFilesFromTar inTar tarWriter (ref_String kernelRef) ''kernel'' w)
            (\<lambda>w. Ok (w, sg))
      | None \<Rightarrow>
          let k = mb_Kernel m;
              kf = newKernelFilter kernelRef w (kc_Cmdline k) (kc_Binary k) (kc_Tar k) (kc_UCode k)
                     (bo_DecompressKernel opts)
          in bind_res (wrap_err ''failed to extract kernel image and tarball: ''
                (ImageTar env ''kernel'' (Some kernelRef) [] (kernelWriter env) [] (kf, sg)))
             (\<lambda>(kf, sg). bind_res (wrap_err ''close error: '' (kf_Close env kf))
             (\<lambda>kf. Ok (kf_tw kf, sg))))"

definition buildInit ::
  "BuildEnv \<Rightarrow> oldBuild \<Rightarrow> nat \<times> refspec \<Rightarrow> apkTarWriter \<times> SbomGenerator option \<Rightarrow>
    (apkTarWriter \<times> SbomGenerator option) res" where
  "buildInit env old ii st =
     (case ii of (i, ref) \<Rightarrow> case st of (a, sg) \<Rightarrow>
      case (case old of
              None \<Rightarrow> None
            | Some (oc, inTar) \<Rightarrow>
                if length (mb_initRefs oc) > i \<and> ref_String (mb_initRefs oc ! i) = ref_String ref
                then Some inTar else None) of
        Some inTar \<Rightarrow>
          bind_res (extractPackageFilesFromTar inTar apkWriter (ref_String ref) (indexed ''init'' i) a)
            (\<lambda>a. Ok (a, sg))
      | None \<Rightarrow>
          wrap_err (''failed to build init tarball from '' @ ref_String ref @ '': '')
            (ImageTar env (indexed ''init'' i) (Some ref) [] apkWriter resolvconfSymlink (a, sg)))"

definition volumeDirHdr :: "string \<Rightarrow> string \<Rightarrow> tar_hdr" where
  "volumeDirHdr path location =
     Header\<lparr>th_Name := path, th_Mode := 493, th_Typeflag := TypeDir, th_ModTime := defaultModTime,
       th_Format := FormatPAX, th_PAXRecords := pax_records ''linuxkit.volumes'' location\<rparr>"

definition volumePath :: "string \<Rightarrow> string" where
  "volumePath dir = trim_prefix dir ''/'' @ ''/''"

definition volumeContents ::
  "BuildEnv \<Rightarrow> string \<Rightarrow> Volume \<Rightarrow> apkTarWriter \<times> SbomGenerator option \<Rightarrow>
    (apkTarWriter \<times> SbomGenerator option) res" where
  "volumeContents env location vol st =
     (case st of (a, sg) \<Rightarrow>
      if vol_ref vol = None \<or> vol_Format vol = [] \<or> vol_Format vol = ''filesystem'' then
        wrap_err (''failed to build volume filesystem tarball from '' @ vol_Name vol @ '': '')
          (ImageTar env location (vol_ref vol) (volumePath (LowerDir vol)) apkWriter resolvconfSymlink (a, sg))
      else if vol_Format vol = ''oci'' then
        bind_res (map_res (\<lambda>p. wrap_err (''failed to parse platform '' @ p @ '': '') (be_ParsePlatform env p))
           (vol_Platforms vol))
        (\<lambda>platforms. bind_res
           (wrap_err (''failed to build volume OCI v1 layout tarball from '' @ vol_Name vol @ '': '')
             (ImageOCITar env location (vol_ref vol) (volumePath (LowerDir vol)) apkWriter platforms a))
        (\<lambda>a. Ok (a, sg)))
      else Ok (a, sg))"

text \<open>
  A volume of the old archive is looked for under another location than volumes are written with.
\<close>

definition buildVolume ::
  "BuildEnv \<Rightarrow> oldBuild \<Rightarrow> nat \<times> Volume \<Rightarrow> apkTarWriter \<times> SbomGenerator option \<Rightarrow>
    (apkTarWriter \<times> SbomGenerator option) res" where
  "buildVolume env old iv st =
     (case iv of (i, vol) \<Rightarrow> case st of (a, sg) \<Rightarrow>
      case (case old of
              None \<Rightarrow> None
            | Some (oc, inTar) \<Rightarrow>
                if length (mb_Volumes oc) > i \<and> vol_Image (mb_Volumes oc ! i) = vol_Image vol
                then Some inTar else None) of
        Some inTar \<Rightarrow>
          bind_res (extractPackageFilesFromTar inTar tarWriter (vol_Image vol) (indexed ''volumes'' i) (apk_Writer a))
            (\<lambda>w. Ok (a\<lparr>apk_Writer := w\<rparr>, sg))
      | None \<Rightarrow>
          let location = indexed ''volume'' i in
          bind_res (volumeContents env location vol (a, sg))
          (\<lambda>(a, sg). bind_res (apk_WriteHeader (volumeDirHdr (volumePath (TmpDir vol)) location) a)
          (\<lambda>a. bind_res (apk_WriteHeader (volumeDirHdr (volumePath (MergedDir vol)) location) a)
          (\<lambda>a. Ok (a, sg)))))"

text \<open>
  One container of a section.  Comparing it with the old one expands its image name in place.
\<close>

definition buildContainer ::
  "BuildEnv \<Rightarrow> Moby \<Rightarrow> idMap \<Rightarrow> (Image list \<times> tar_stream) option \<Rightarrow> string \<Rightarrow> bool \<Rightarrow> nat \<times> Image \<Rightarrow>
    tarw buildState \<Rightarrow> tarw buildState res" where
  "buildContainer env m idMap old sect numbered im st =
     (case im of (i, img) \<Rightarrow>
      let (reuse, img) =
            (case old of
               None \<Rightarrow> (None, img)
             | Some (imgs, inTar) \<Rightarrow>
                 if length imgs > i
                 then (case Image_Equal (be_yaml env) (imgs ! i) img of
                         (eq, _, img') \<Rightarrow> (if eq then Some inTar else None, img'))
                 else (None, img))
      in case reuse of
           Some inTar \<Rightarrow>
             (case st of (w, sg, dupMap) \<Rightarrow>
                bind_res (extractPackageFilesFromTar inTar tarWriter (img_Image img) (indexed sect i) w)
                  (\<lambda>w. Ok (w, sg, dupMap)))
         | None \<Rightarrow> outputImage env img sect i (if numbered then pad3 i @ ''-'' else []) m idMap st)"

definition buildSection ::
  "BuildEnv \<Rightarrow> Moby \<Rightarrow> idMap \<Rightarrow> oldBuild \<Rightarrow> string \<Rightarrow> bool \<Rightarrow> (Moby \<Rightarrow> Image list) \<Rightarrow>
    tarw buildState \<Rightarrow> tarw buildState res" where
  "buildSection env m idMap old sect numbered images st =
     loop_res (buildContainer env m idMap (case old of None \<Rightarrow> None | Some (oc, inTar) \<Rightarrow> Some (images oc, inTar))
        sect numbered) (enumerate 0 (images m)) st"

definition buildContainers ::
  "BuildEnv \<Rightarrow> Moby \<Rightarrow> idMap \<Rightarrow> oldBuild \<Rightarrow> tarw buildState \<Rightarrow> tarw buildState res" where
  "buildContainers env m idMap old st =
     bind_res (buildSection env m idMap old ''onboot'' True mb_Onboot st)
     (\<lambda>st. bind_res (buildSection env m idMap old ''onshutdown'' True mb_Onshutdown st)
     (buildSection env m idMap old ''services'' False mb_Services))"

text \<open>The rest: the files, what the output type adds, the bill of materials and the end.\<close>

definition buildFinish ::
  "BuildEnv \<Rightarrow> BuildOpts \<Rightarrow> Moby \<Rightarrow> idMap \<Rightarrow> tarw \<times> SbomGenerator option \<Rightarrow>
    (tarw \<times> SbomGenerator option) res" where
  "buildFinish env opts m idMap st =
     (case st of (w, sg) \<Rightarrow>
      bind_res (wrap_err ''failed to add filesystem parts: '' (filesystem env m tarWriter idMap w))
      (\<lambda>w. bind_res (case additions (bo_BuilderType opts) of
                        None \<Rightarrow> Ok w
                      | Some addition \<Rightarrow> wrap_err ''failed to add additional files: '' (addition tarWriter w))
      (\<lambda>w. bind_res (case sg of
                        None \<Rightarrow> Ok (None, w)
                      | Some s \<Rightarrow> bind_res (SbomGenerator_Close env tarWriter s w) (\<lambda>(s, w). Ok (Some s, w)))
      (\<lambda>(sg, w). bind_res (wrap_err ''initrd close error: '' (tw_Close w)) (\<lambda>w. Ok (w, sg))))))"

definition Build ::
  "BuildOs \<Rightarrow> BuildEnv \<Rightarrow> Moby \<Rightarrow> BuildOpts \<Rightarrow> SbomGenerator option \<Rightarrow> (tarw \<times> SbomGenerator option) res" where
  "Build os env m opts sg =
     bind_res (os_MkdirTmp os)
     (\<lambda>_. bind_res (readOld os env m opts)
     (\<lambda>old. let idMap = allocateIds m in
       bind_res (buildKernel env opts m old (NewWriter, sg))
     (\<lambda>(w, sg). bind_res (loop_res (buildInit env old) (enumerate 0 (mb_initRefs m)) (NewAPKTarWriter w ''init'', sg))
     (\<lambda>(a, sg). bind_res (WriteAPKDB a)
     (\<lambda>a. bind_res (loop_res (buildVolume env old) (enumerate 0 (mb_Volumes m)) (a, sg))
     (\<lambda>(a, sg). bind_res (buildContainers env m idMap old (apk_Writer a, sg, \<lambda>_. []))
     (\<lambda>(w, sg, _). buildFinish env opts m idMap (w, sg))))))))"

section \<open>The archive only grows\<close>

definition grows :: "tarw \<Rightarrow> tarw \<Rightarrow> bool" where
  "grows w w' \<longleftrightarrow> \<not> tw_closed w' \<and> set (tw_out w) \<subseteq> set (tw_out w')"

lemma grows_refl: "\<not> tw_closed w \<Longrightarrow> grows w w"
  by (simp add: grows_def)

lemma grows_trans [trans]: "grows w w1 \<Longrightarrow> grows w1 w2 \<Longrightarrow> grows w w2"
  by (auto simp: grows_def)

lemma grows_open: "grows w w' \<Longrightarrow> \<not> tw_closed w'"
  by (simp add: grows_def)

lemma grows_run: "run_ops tarWriter (entries es) w = Ok w' \<Longrightarrow> \<not> tw_closed w \<Longrightarrow> grows w w'"
  by (auto simp: grows_def run_tarWriter written_entries)

lemma grows_header: "tw_WriteHeader h w = Ok w' \<Longrightarrow> \<not> tw_closed w \<Longrightarrow> grows w w'"
  by (rule grows_run [of "[(h, [])]"]) (simp_all add: run_entry_empty)

definition ociOut :: "string \<Rightarrow> string \<Rightarrow> string \<Rightarrow> tar_entry \<Rightarrow> tar_entry" where
  "ociOut location refName pre e =
     (let hdr = annotate refName location (fst e); hdr = hdr\<lparr>th_Name := pre @ th_Name hdr\<rparr>
      in (if th_Typeflag hdr = TypeLink then hdr\<lparr>th_Linkname := pre @ th_Linkname hdr\<rparr> else hdr, snd e))"

context tar_writer
begin

text \<open>Every operation of the builder that takes a writer gives it a list of entries.\<close>

lemma ImageTar_entries:
  assumes "ImageTar env location ref pre tw resolv (w, sg) = Ok (w', sg')"
  shows "\<exists>es. run_ops tw (concat (map entry_ops es)) w = Ok w'"
proof (cases ref)
  case None
  with assms have "run_ops tw (map (\<lambda>d. Hdr (dirHdr d ''empty'' location)) (prefixDirs pre)) w = Ok w'"
    by (simp add: ImageTar_blank)
  then show ?thesis unfolding run_prefix [symmetric] by (rule exI)
next
  case (Some r)
  with assms show ?thesis by (auto simp: ImageTar_Ok_iff)
qed

lemma extract_entries:
  assumes "extractPackageFilesFromTar inTar tw name sect w = Ok w'"
  shows "\<exists>es. run_ops tw (concat (map entry_ops es)) w = Ok w'"
proof -
  obtain es err where inTar: "inTar = (es, err)" by (cases inTar)
  with assms have "err = None"
    by (cases err) (auto simp: extractPackageFilesFromTar_def tar_loop_def)
  with assms inTar show ?thesis using extract_run by blast
qed

lemma ImageOCITar_entries:
  assumes "ImageOCITar env location ref pre tw platforms w = Ok w'"
  shows "\<exists>es. run_ops tw (concat (map entry_ops es)) w = Ok w'"
proof -
  from assms obtain r w1 tr where r: "ref = Some r" and pre: "tarPrefix pre location (ref_String r) tw w = Ok w1"
    and loop: "tar_loop (ociEntry location (ref_String r) pre tw) tr w1 = Ok w'"
    by (auto simp: ImageOCITar_def refNameOf_def split: if_splits option.splits)
  from pre have "prefix_ok pre"
    using tarPrefix_ok [of pre location "ref_String r" tw w] by (simp add: is_ok_iff)
  with pre have dirs: "run_ops tw (concat (map entry_ops
      (map (\<lambda>d. (dirHdr d (ref_String r) location, [])) (prefixDirs pre)))) w = Ok w1"
    unfolding run_prefix by (simp add: tarPrefix_run)
  have "loop_res (\<lambda>(h, d). ociEntry location (ref_String r) pre tw h d) es w =
      run_ops tw (concat (map (\<lambda>e. entry_ops (ociOut location (ref_String r) pre e)) es)) w" for es w
    by (rule loop_res_run_ops)
      (auto simp: ociEntry_def ociOut_def Let_def entry_ops_def run_ops_Cons io_Copy_eta)
  with loop have "run_ops tw (concat (map entry_ops (map (ociOut location (ref_String r) pre) (fst tr)))) w1 = Ok w'"
    by (auto simp: tar_loop_def comp_def split: option.splits)
  with dirs have "run_ops tw (concat (map entry_ops (map (\<lambda>d. (dirHdr d (ref_String r) location, [])) (prefixDirs pre) @
      map (ociOut location (ref_String r) pre) (fst tr)))) w = Ok w'"
    by (simp add: run_ops_append del: map_map)
  then show ?thesis by (rule exI)
qed

end

lemma apk_grows:
  "run_ops apkWriter (entries es) a = Ok a' \<Longrightarrow> \<not> tw_closed (apk_Writer a) \<Longrightarrow> grows (apk_Writer a) (apk_Writer a')"
  using run_apk grows_run by blast

lemma WriteAPKDB_grows:
  assumes "WriteAPKDB a = Ok a'" and "\<not> tw_closed (apk_Writer a)"
  shows "grows (apk_Writer a) (apk_Writer a')"
proof (cases "length (apk_dbs a) > 1")
  case True
  with assms have "tw_left (apk_Writer a) = 0"
    by (auto simp: WriteAPKDB_def tw_WriteHeader_def tw_Flush_def split: if_splits)
  with WriteAPKDB_Ok [OF assms(2) this] assms show ?thesis by (auto simp: grows_def)
next
  case False
  with assms show ?thesis by (auto simp: WriteAPKDB_def grows_def)
qed

lemma buildKernel_grows:
  assumes "buildKernel env opts m old (w, sg) = Ok (w', sg')" and "\<not> tw_closed w"
  shows "grows w w'"
proof -
  consider "w' = w" | name inTar where "extractPackageFilesFromTar inTar tarWriter name ''kernel'' w = Ok w'"
    | r c b t u d kf sg1 kf' where
      "ImageTar env ''kernel'' (Some r) [] (kernelWriter env) [] (newKernelFilter r w c b t u d, sg) = Ok (kf, sg1)"
      "kf_Close env kf = Ok kf'" "w' = kf_tw kf'"
    using assms(1) by (auto simp: buildKernel_def Let_def split: option.splits prod.splits if_splits)
  then show ?thesis
  proof cases
    case 1
    with assms(2) show ?thesis by (simp add: grows_refl)
  next
    case 2
    with tarw.extract_entries grows_run assms(2) show ?thesis by blast
  next
    case 3
    have clean: "kf_clean (newKernelFilter r w c b t u d)" by (simp add: kf_clean_def newKernelFilter_def)
    from kernelw.ImageTar_entries [OF 3(1)] obtain es where
      "run_ops (kernelWriter env) (entries es) (newKernelFilter r w c b t u d) = Ok kf" by blast
    with 3(2) have "bind_res (run_ops (kernelWriter env) (entries es) (newKernelFilter r w c b t u d))
      (kf_Close env) = Ok kf'" by simp
    then obtain out where "run_ops tarWriter (entries out) w = Ok w'"
      unfolding Close_run [OF clean] by (auto simp: 3(3) newKernelFilter_def)
    with grows_run assms(2) show ?thesis by blast
  qed
qed

lemma buildInit_grows:
  assumes "buildInit env old ii (a, sg) = Ok (a', sg')" and "\<not> tw_closed (apk_Writer a)"
  shows "grows (apk_Writer a) (apk_Writer a')"
proof -
  have "\<exists>es. run_ops apkWriter (entries es) a = Ok a'"
    using assms(1) apkw.extract_entries apkw.ImageTar_entries
    by (auto simp: buildInit_def split: prod.splits option.splits if_splits)
  with apk_grows assms(2) show ?thesis by blast
qed

lemma volumeContents_entries:
  assumes "volumeContents env location vol (a, sg) = Ok (a', sg')"
  shows "\<exists>es. run_ops apkWriter (entries es) a = Ok a'"
proof -
  have "\<exists>es. run_ops apkWriter (entries es) a = Ok a" by (rule exI [of _ "[]"]) simp
  then show ?thesis
    using assms apkw.ImageTar_entries apkw.ImageOCITar_entries
    by (auto simp: volumeContents_def split: if_splits)
qed

lemma apk_header_grows:
  assumes "apk_WriteHeader h a = Ok a'" and "\<not> tw_closed (apk_Writer a)"
  shows "grows (apk_Writer a) (apk_Writer a')"
  by (rule apk_grows [of "[(h, [])]"]) (use assms in \<open>simp_all add: run_entry_empty\<close>)

lemma buildVolume_grows:
  assumes "buildVolume env old iv (a, sg) = Ok (a', sg')" and op: "\<not> tw_closed (apk_Writer a)"
  shows "grows (apk_Writer a) (apk_Writer a')"
proof -
  consider inTar name sect w where "extractPackageFilesFromTar inTar tarWriter name sect (apk_Writer a) = Ok w"
      "a' = a\<lparr>apk_Writer := w\<rparr>"
    | location vol a1 sg1 h1 a2 h2 where "volumeContents env location vol (a, sg) = Ok (a1, sg1)"
      "apk_WriteHeader h1 a1 = Ok a2" "apk_WriteHeader h2 a2 = Ok a'"
    using assms(1) by (auto simp: buildVolume_def Let_def split: prod.splits option.splits if_splits)
  then show ?thesis
  proof cases
    case 1
    with tarw.extract_entries grows_run op show ?thesis by fastforce
  next
    case 2
    from volumeContents_entries [OF 2(1)] apk_grows op have g1: "grows (apk_Writer a) (apk_Writer a1)" by blast
    also have g2: "grows (apk_Writer a1) (apk_Writer a2)" by (rule apk_header_grows [OF 2(2) grows_open [OF g1]])
    also have "grows (apk_Writer a2) (apk_Writer a')" by (rule apk_header_grows [OF 2(3) grows_open [OF g2]])
    finally show ?thesis .
  qed
qed

lemma apk_loop_grows:
  assumes "loop_res f xs (a, sg) = Ok (a', sg')" and "\<not> tw_closed (apk_Writer a)"
    and "\<And>x a sg a' sg'. f x (a, sg) = Ok (a', sg') \<Longrightarrow> \<not> tw_closed (apk_Writer a) \<Longrightarrow>
      grows (apk_Writer a) (apk_Writer a')"
  shows "grows (apk_Writer a) (apk_Writer a')"
proof -
  have "grows (apk_Writer a) (apk_Writer (fst (a', sg')))"
  proof (rule loop_res_invariant [OF assms(1), where P = "\<lambda>s. grows (apk_Writer a) (apk_Writer (fst s))"])
    show "grows (apk_Writer a) (apk_Writer (fst (a, sg)))" using assms(2) by (simp add: grows_refl)
  next
    fix x s s' assume "grows (apk_Writer a) (apk_Writer (fst s))" "f x s = Ok s'"
    then show "grows (apk_Writer a) (apk_Writer (fst s'))"
      using assms(3) [of x "fst s" "snd s" "fst s'" "snd s'"] grows_open grows_trans by (metis prod.collapse)
  qed
  then show ?thesis by simp
qed

lemma buildFinish_closed:
  assumes "buildFinish env opts m idMap (w, sg) = Ok (w', sg')" and op: "\<not> tw_closed w"
  shows "tw_closed w' \<and> tw_left w' = 0 \<and> set (tw_out w) \<subseteq> set (tw_out w')"
proof -
  from assms(1) obtain w1 w2 w3 where w1: "filesystem env m tarWriter idMap w = Ok w1"
    and w2: "w2 = w1 \<or> dockerAddition tarWriter w1 = Ok w2"
    and w3: "w3 = w2 \<or> (\<exists>s s'. SbomGenerator_Close env tarWriter s w2 = Ok (s', w3))"
    and close: "tw_Close w3 = Ok w'"
    unfolding buildFinish_def additions_def prod.case
    by (cases sg) (auto split: if_splits, blast+)
  from w1 obtain added where
    "loop_res (addFile env m idMap tarWriter) (enumerate 0 (mb_Files m)) (w, []) = Ok (w1, added)"
    by (auto simp: filesystem_def)
  from files_loop [OF this op, of "[]" False] have g: "grows w w1" by (auto simp: grows_def)
  have "grows w1 w2"
    using w2
  proof
    assume "dockerAddition tarWriter w1 = Ok w2"
    then obtain e where "run_ops tarWriter (entry_ops e) w1 = Ok w2"
      unfolding dockerAddition_def tarWriter_sel write_entry by blast
    then show ?thesis using grows_run [of "[e]"] grows_open [OF g] by simp
  qed (use grows_refl grows_open [OF g] in blast)
  with g have g2: "grows w w2" by (rule grows_trans)
  have "grows w2 w3"
    using w3
  proof
    assume "\<exists>s s'. SbomGenerator_Close env tarWriter s w2 = Ok (s', w3)"
    then obtain h buf where "bind_res (tw_WriteHeader h w2) (io_Copy tarWriter buf) = Ok w3"
      by (auto simp: SbomGenerator_Close_def)
    then have "run_ops tarWriter (entry_ops (h, buf)) w2 = Ok w3"
      by (auto simp: entry_ops_def run_ops_Cons tarw.io_Copy_eta)
    then show ?thesis using grows_run [of "[(h, buf)]"] grows_open [OF g2] by simp
  qed (use grows_refl grows_open [OF g2] in blast)
  with g2 have "grows w w3" by (rule grows_trans)
  with close show ?thesis by (auto simp: grows_def tw_Close_def tw_Flush_def split: if_splits)
qed

section \<open>The containers of a fresh build\<close>

text \<open>
  A container can be started.  Below its directory are \<^verbatim>\<open>config.json\<close>, which is the OCI specification of
  its image and configuration, and \<^verbatim>\<open>runtime.json\<close>, which is the runtime part of the same conversion
  with the mount of the root in front; what it mounts there (by a bind for a container whose specification is
  read-only, as the lower layer of an overlay otherwise) is a directory that holds all files of the image; and
  the directories that it mounts on are there.
\<close>

definition startable ::
  "BuildEnv \<Rightarrow> Moby \<Rightarrow> string \<Rightarrow> bool \<Rightarrow> tar_entry list \<Rightarrow> nat \<times> Image \<Rightarrow> bool" where
  "startable env m sect numbered out im \<longleftrightarrow>
     (case im of (i, img) \<Rightarrow>
      let pre = path_join [''containers'', sect, (if numbered then pad3 i @ ''-'' else []) @ img_Name img] in
      \<exists>ref parsed src configRaw img' oci runtime config root ms runtimeConfig.
        ic_ref (img_Config img) = Some ref \<and>
        be_refParse env (ReferenceExpand (img_Image img) []) = Ok parsed \<and>
        be_imageSource env parsed = Ok src \<and> src_Config src = Ok configRaw \<and>
        updateMountsAndBindsFromVolumes img m = Ok img' \<and>
        ConfigToOCI (be_yaml env) (be_capabilities env) img' configRaw (allocateIds m) = Ok (oci, runtime) \<and>
        be_marshalSpec env oci = Ok config \<and>
        has_file out (ref_String ref) (indexed sect i) (path_join [pre, ''config.json'']) config \<and>
        rt_Mounts runtime = Some ms \<and> unpacked env (ref_String ref) root out \<and>
        be_marshalRuntime env (runtime\<lparr>rt_Mounts := Some
          ((if root_Readonly (sp_Root oci) then bindMounts pre root else overlayMounts pre root) @ ms)\<rparr>) =
            Ok runtimeConfig \<and>
        has_file out (ref_String ref) (indexed sect i) (path_join [pre, ''runtime.json'']) runtimeConfig \<and>
        has_dir out (path_join [pre, ''rootfs'']) \<and>
        (\<not> root_Readonly (sp_Root oci) \<longrightarrow> has_dir out (path_join [pre, ''tmp''])))"

lemma startable_mono:
  assumes "startable env m sect numbered out im" and sub: "set out \<subseteq> set out'"
  shows "startable env m sect numbered out' im"
proof -
  obtain i img where im: "im = (i, img)" by (cases im)
  from assms(1) show ?thesis
    unfolding startable_def im prod.case Let_def
    by (elim exE conjE, intro exI conjI) (use sub unpacked_mono has_mono in blast)+
qed

lemma ImageBundle_None: "ImageBundle env pre location None config runtime tw readonly st = Panic"
  by (simp add: ImageBundle_def)

lemma buildContainer_fresh:
  "buildContainer env m idMap None sect numbered (i, img) st =
     outputImage env img sect i (if numbered then pad3 i @ ''-'' else []) m idMap st"
  by (simp add: buildContainer_def)

lemma outputImage_startable:
  assumes "outputImage env img sect i (if numbered then pad3 i @ ''-'' else []) m (allocateIds m) (w, sg, dupMap) =
      Ok (w', sg', dupMap')"
    and op: "\<not> tw_closed w" and dup: "dup_ok env dupMap (tw_out w)"
  shows "startable env m sect numbered (tw_out w') (i, img) \<and> dup_ok env dupMap' (tw_out w') \<and> grows w w'"
proof -
  let ?pre = "path_join [''containers'', sect, (if numbered then pad3 i @ ''-'' else []) @ img_Name img]"
  from assms(1) obtain parsed src configRaw img' oci runtime config where
    conv: "be_refParse env (ReferenceExpand (img_Image img) []) = Ok parsed" "be_imageSource env parsed = Ok src"
      "src_Config src = Ok configRaw" "updateMountsAndBindsFromVolumes img m = Ok img'"
      "ConfigToOCI (be_yaml env) (be_capabilities env) img' configRaw (allocateIds m) = Ok (oci, runtime)"
      "be_marshalSpec env oci = Ok config" and
    ib0: "ImageBundle env ?pre (indexed sect i) (ic_ref (img_Config img)) config runtime tarWriter
       (root_Readonly (sp_Root oci)) (w, sg, dupMap) = Ok (w', sg', dupMap')"
    unfolding outputImage_def by auto
  then obtain ref where ref: "ic_ref (img_Config img) = Some ref"
    and ib: "ImageBundle env ?pre (indexed sect i) (Some ref) config runtime tarWriter (root_Readonly (sp_Root oci))
      (w, sg, dupMap) = Ok (w', sg', dupMap')"
    by (cases "ic_ref (img_Config img)") (simp_all add: ImageBundle_None)
  note complete = ImageBundle_complete [OF ib op dup]
  then have "startable env m sect numbered (tw_out w') (i, img)"
    unfolding startable_def prod.case Let_def using ref conv by blast
  with complete show ?thesis by (simp add: grows_def)
qed

lemma section_startable:
  assumes "loop_res (buildContainer env m (allocateIds m) None sect numbered) ims (w, sg, dupMap) = Ok (w', sg', dupMap')"
    and "\<not> tw_closed w" and "dup_ok env dupMap (tw_out w)"
  shows "list_all (startable env m sect numbered (tw_out w')) ims \<and> dup_ok env dupMap' (tw_out w') \<and> grows w w'"
  using assms
proof (induction ims arbitrary: w sg dupMap)
  case Nil
  then show ?case by (simp add: grows_refl)
next
  case (Cons im ims)
  obtain i img where im: "im = (i, img)" by (cases im)
  from Cons.prems(1) im obtain w1 sg1 dupMap1 where
    first: "outputImage env img sect i (if numbered then pad3 i @ ''-'' else []) m (allocateIds m) (w, sg, dupMap) = Ok (w1, sg1, dupMap1)"
    and rest: "loop_res (buildContainer env m (allocateIds m) None sect numbered) ims (w1, sg1, dupMap1) = Ok (w', sg', dupMap')"
    by (auto simp: buildContainer_fresh)
  note 1 = outputImage_startable [OF first Cons.prems(2,3)]
  from 1 grows_open have "\<not> tw_closed w1" by blast
  note 2 = Cons.IH [OF rest this] 
  from 1 2 have 3: "list_all (startable env m sect numbered (tw_out w')) ims" "dup_ok env dupMap' (tw_out w')" "grows w1 w'"
    by blast+
  with 1 startable_mono [of env m sect numbered "tw_out w1" "(i, img)" "tw_out w'"] grows_trans show ?case
    by (auto simp: im grows_def)
qed

lemma section_fresh:
  assumes "buildSection env m (allocateIds m) None sect numbered images (w, sg, dupMap) = Ok (w', sg', dupMap')"
    and "\<not> tw_closed w" and "dup_ok env dupMap (tw_out w)"
  shows "list_all (startable env m sect numbered (tw_out w')) (enumerate 0 (images m)) \<and>
    dup_ok env dupMap' (tw_out w') \<and> grows w w'"
  using section_startable [of env m sect numbered "enumerate 0 (images m)"] assms
  by (simp add: buildSection_def)

definition allStartable :: "BuildEnv \<Rightarrow> Moby \<Rightarrow> tar_entry list \<Rightarrow> bool" where
  "allStartable env m out \<longleftrightarrow>
     list_all (startable env m ''onboot'' True out) (enumerate 0 (mb_Onboot m)) \<and>
     list_all (startable env m ''onshutdown'' True out) (enumerate 0 (mb_Onshutdown m)) \<and>
     list_all (startable env m ''services'' False out) (enumerate 0 (mb_Services m))"

lemma list_all_startable_mono:
  "list_all (startable env m sect numbered out) ims \<Longrightarrow> set out \<subseteq> set out' \<Longrightarrow>
     list_all (startable env m sect numbered out') ims"
  using startable_mono by (auto simp: list_all_iff)

lemma containers_fresh:
  assumes "buildContainers env m (allocateIds m) None (w, sg, dupMap) = Ok (w', sg', dupMap')"
    and "\<not> tw_closed w" and "dup_ok env dupMap (tw_out w)"
  shows "allStartable env m (tw_out w') \<and> grows w w'"
proof -
  from assms(1) obtain w1 sg1 d1 w2 sg2 d2 where
    s1: "buildSection env m (allocateIds m) None ''onboot'' True mb_Onboot (w, sg, dupMap) = Ok (w1, sg1, d1)"
    and s2: "buildSection env m (allocateIds m) None ''onshutdown'' True mb_Onshutdown (w1, sg1, d1) = Ok (w2, sg2, d2)"
    and s3: "buildSection env m (allocateIds m) None ''services'' False mb_Services (w2, sg2, d2) = Ok (w', sg', dupMap')"
    by (auto simp: buildContainers_def)
  note f1 = section_fresh [OF s1 assms(2,3)]
  then have o1: "\<not> tw_closed w1" "dup_ok env d1 (tw_out w1)" by (auto simp: grows_def)
  note f2 = section_fresh [OF s2 o1]
  then have o2: "\<not> tw_closed w2" "dup_ok env d2 (tw_out w2)" by (auto simp: grows_def)
  note f3 = section_fresh [OF s3 o2]
  have sub: "set (tw_out w1) \<subseteq> set (tw_out w')" "set (tw_out w2) \<subseteq> set (tw_out w')"
    using f2 f3 by (auto simp: grows_def)
  have "grows w w'" using f1 f2 f3 grows_trans by blast
  moreover have "allStartable env m (tw_out w')"
    unfolding allStartable_def
    using list_all_startable_mono [OF conjunct1 [OF f1] sub(1)] list_all_startable_mono [OF conjunct1 [OF f2] sub(2)]
      conjunct1 [OF f3] by blast
  ultimately show ?thesis by blast
qed

lemma Build_fresh:
  assumes "Build os env m opts sg = Ok (w', sg')" and "readOld os env m opts = Ok None"
  shows "tw_closed w' \<and> tw_left w' = 0 \<and> allStartable env m (tw_out w')"
proof -
  from assms obtain w1 sg1 a2 sg2 a3 a4 sg4 w5 sg5 d5 where
    k: "buildKernel env opts m None (NewWriter, sg) = Ok (w1, sg1)"
    and i: "loop_res (buildInit env None) (enumerate 0 (mb_initRefs m)) (NewAPKTarWriter w1 ''init'', sg1) = Ok (a2, sg2)"
    and d: "WriteAPKDB a2 = Ok a3"
    and v: "loop_res (buildVolume env None) (enumerate 0 (mb_Volumes m)) (a3, sg2) = Ok (a4, sg4)"
    and c: "buildContainers env m (allocateIds m) None (apk_Writer a4, sg4, \<lambda>_. []) = Ok (w5, sg5, d5)"
    and f: "buildFinish env opts m (allocateIds m) (w5, sg5) = Ok (w', sg')"
    by (auto simp: Build_def Let_def)
  have o1: "\<not> tw_closed w1" using buildKernel_grows [OF k NewWriter_sel(3)] by (rule grows_open)
  then have "\<not> tw_closed (apk_Writer (NewAPKTarWriter w1 ''init''))" by (simp add: NewAPKTarWriter_def)
  from apk_loop_grows [OF i this buildInit_grows] have "\<not> tw_closed (apk_Writer a2)" by (rule grows_open)
  from WriteAPKDB_grows [OF d this] have "\<not> tw_closed (apk_Writer a3)" by (rule grows_open)
  from apk_loop_grows [OF v this buildVolume_grows] have o4: "\<not> tw_closed (apk_Writer a4)" by (rule grows_open)
  have "dup_ok env (\<lambda>_. []) (tw_out (apk_Writer a4))" by (simp add: dup_ok_def)
  note cont = containers_fresh [OF c o4 this]
  then have "\<not> tw_closed w5" using grows_open by blast
  note fin = buildFinish_closed [OF f this]
  have "allStartable env m (tw_out w')"
    using cont fin list_all_startable_mono unfolding allStartable_def by blast
  with fin show ?thesis by blast
qed

section \<open>User ids\<close>

lemma foldl_ids:
  "distinct (map img_Name xs) \<Longrightarrow>
     fst (foldl (\<lambda>(idMap, id) img. (idMap(img_Name img \<mapsto> id), id + 1)) (m0, n) xs) k = Some uid \<longleftrightarrow>
       (\<exists>i < length xs. k = img_Name (xs ! i) \<and> uid = n + word_of_nat i) \<or>
       k \<notin> set (map img_Name xs) \<and> m0 k = Some uid"
proof (induction xs arbitrary: m0 n)
  case (Cons x xs)
  have "(\<exists>i < length (x # xs). k = img_Name ((x # xs) ! i) \<and> uid = n + word_of_nat i) \<longleftrightarrow>
      k = img_Name x \<and> uid = n \<or>
      (\<exists>i < length xs. k = img_Name (xs ! i) \<and> uid = (n + 1) + word_of_nat i)"
    by (simp add: Ex_less_Suc2 add.assoc)
  moreover have "k \<in> set (map img_Name xs)" if "\<exists>i < length xs. k = img_Name (xs ! i) \<and> P i" for P
    using that by auto
  ultimately show ?case
    using Cons.IH [of "m0(img_Name x \<mapsto> n)" "n + 1"] Cons.prems by auto
qed simp

lemma allocateIds_nth:
  assumes "xs = mb_Onboot m @ mb_Onshutdown m @ mb_Services m" and "distinct (map img_Name xs)"
  shows "allocateIds m n = Some uid \<longleftrightarrow> (\<exists>i < length xs. n = img_Name (xs ! i) \<and> uid = 100 + word_of_nat i)"
  unfolding allocateIds_def assms(1) [symmetric] foldl_ids [OF assms(2)] by simp

section \<open>Properties\<close>

text \<open>
  C1. A build without an input archive that succeeds gives a complete archive (closed, with no
  bytes owed) in which every container of the configuration can be started.  Under the directory of its section
  are, as regular files, its \<^verbatim>\<open>config.json\<close>, which is the OCI specification that the configuration and
  the image are converted to, and its \<^verbatim>\<open>runtime.json\<close> with the runtime part of that conversion; what
  the latter mounts as the root, as the specification says read-only or writable, is
  a directory that holds all the files of its image, even if another container unpacked them, and
  the mount points are there as directories.
\<close>

theorem Build_startable:
  assumes "Build os env m opts sg = Ok (w', sg')" and "bo_InputTar opts = []"
  shows "tw_closed w' \<and> tw_left w' = 0 \<and> allStartable env m (tw_out w')"
  using Build_fresh [OF assms(1)] assms(2) by (simp add: readOld_def)

definition demoService :: Image where
  "demoService = Image_zero\<lparr>img_Name := ''sshd'', img_Image := ''linuxkit/sshd'',
     img_Config := ImageConfig_zero\<lparr>ic_ref := Some demoSpec\<rparr>\<rparr>"

definition demoBuild :: Moby where
  "demoBuild = Moby_zero\<lparr>mb_Services := [demoService]\<rparr>"

definition demoOs :: BuildOs where
  "demoOs = \<lparr>os_MkdirTmp = Ok (), os_Open = (\<lambda>f. Err f)\<rparr>"

definition demoOpts :: BuildOpts where
  "demoOpts = \<lparr>bo_InputTar = [], bo_BuilderType = ''docker'', bo_DecompressKernel = False\<rparr>"

lemma demo_outputImage:
  "\<exists>w' d'. outputImage demoEnv demoService ''services'' 0 [] demoBuild idMap (NewWriter, None, \<lambda>_. []) =
     Ok (w', None, d') \<and> ready w'"
proof -
  have merged: "assignStrings (mergeStrings None None) None = []" by code_simp
  have "acceptable [''net_raw'', ''net_admin''] idMap (img_Config Image_zero) (img_Config demoService)"
    by (simp add: acceptable_def demoService_def Image_zero_def ImageConfig_zero_def assign_second assign_neither
        merged expandCaps_def ociRlimits_def IDNumeric_def Let_def)
  then have "is_ok (ConfigToOCI demoYaml [''net_raw'', ''net_admin''] demoService demoSpecConfig idMap)"
    unfolding ConfigToOCI_ok_iff demo_label by blast
  then obtain oci runtime where oci:
    "ConfigToOCI demoYaml [''net_raw'', ''net_admin''] demoService demoSpecConfig idMap = Ok (oci, runtime)"
    unfolding is_ok_iff by auto
  then have "runtime = assignRuntime None None"
    by (auto simp: ConfigToOCI_def demo_label Let_def Image_zero_def ImageConfig_zero_def demoService_def)
  then obtain ms where "rt_Mounts runtime = Some ms" by (simp add: assignRuntime_def Let_def)
  from demo_bundle_ready [OF this] obtain w' d' where
    "ImageBundle demoEnv ''containers/services/sshd'' ''services[0]'' (Some demoSpec) (sp_Version oci) runtime tarWriter
       (root_Readonly (sp_Root oci)) (NewWriter, None, \<lambda>_. []) = Ok (w', None, d')" "ready w'"
    unfolding ready_def by blast
  moreover have "updateMountsAndBindsFromVolumes demoService demoBuild = Ok demoService"
    by (simp add: updateMountsAndBindsFromVolumes_def demoService_def ImageConfig_zero_def volumeBinds_def)
  moreover have "path_join [''containers'', ''services'', ''sshd''] = ''containers/services/sshd''"
    "indexed ''services'' 0 = ''services[0]''" by code_simp+
  moreover have "img_Name demoService = ''sshd''" "ic_ref (img_Config demoService) = Some demoSpec"
    by (simp_all add: demoService_def)
  ultimately show ?thesis
    using oci by (simp add: outputImage_def demoEnv_def demoSource_def demoRef_def)
qed

lemma demo_Build: "is_ok (Build demoOs demoEnv demoBuild demoOpts None)"
proof -
  obtain w' d' where out: "outputImage demoEnv demoService ''services'' 0 [] demoBuild (allocateIds demoBuild)
      (NewWriter, None, \<lambda>_. []) = Ok (w', None, d')" and w': "ready w'"
    using demo_outputImage by blast
  have lists: "mb_Onboot demoBuild = []" "mb_Onshutdown demoBuild = []" "mb_Services demoBuild = [demoService]"
    "mb_initRefs demoBuild = []" "mb_Volumes demoBuild = []" "mb_Files demoBuild = []"
    "kc_ref (mb_Kernel demoBuild) = None"
    by (simp_all add: demoBuild_def Moby_zero_def KernelConfig_zero_def)
  have "buildContainers demoEnv demoBuild (allocateIds demoBuild) None (NewWriter, None, \<lambda>_. []) = Ok (w', None, d')"
    using out by (simp add: buildContainers_def buildSection_def lists buildContainer_fresh)
  moreover have "readOld demoOs demoEnv demoBuild demoOpts = Ok None" by (simp add: readOld_def demoOpts_def)
  moreover have "buildKernel demoEnv demoOpts demoBuild None (NewWriter, None) = Ok (NewWriter, None)"
    by (simp add: buildKernel_def lists)
  moreover have "WriteAPKDB (NewAPKTarWriter NewWriter ''init'') = Ok (NewAPKTarWriter NewWriter ''init'')"
    by (simp add: WriteAPKDB_def NewAPKTarWriter_def)
  moreover have "is_ok (buildFinish demoEnv demoOpts demoBuild (allocateIds demoBuild) (w', None))"
  proof -
    let ?e = "(Header\<lparr>th_Name := ''Dockerfile'', th_Mode := 420, th_Size := length dockerfile,
      th_ModTime := defaultModTime, th_Format := FormatPAX\<rparr>, dockerfile)"
    have "exact ?e" by (simp add: exact_def payload_old Header_def ends_slash_def)
    then have "dockerAddition tarWriter w' = Ok (w'\<lparr>tw_out := tw_out w' @ [on_tape ?e]\<rparr>)"
      using run_entries [of "[?e]" w'] w' by (simp add: dockerAddition_def write_entry ready_def)
    moreover have "filesystem demoEnv demoBuild tarWriter (allocateIds demoBuild) w' = Ok w'"
      by (simp add: filesystem_def lists)
    ultimately show ?thesis
      using w' by (simp add: buildFinish_def additions_def demoOpts_def tw_Close_def tw_Flush_def ready_def)
  qed
  ultimately show ?thesis
    by (simp add: Build_def Let_def lists demoOs_def NewAPKTarWriter_def)
qed

theorem Build_startable_witness:
  "\<exists>w' sg'. Build demoOs demoEnv demoBuild demoOpts None = Ok (w', sg') \<and> tw_closed w' \<and>
     allStartable demoEnv demoBuild (tw_out w')"
proof -
  obtain w' sg' where ok: "Build demoOs demoEnv demoBuild demoOpts None = Ok (w', sg')"
    using demo_Build unfolding is_ok_iff by auto
  have "bo_InputTar demoOpts = []" by (simp add: demoOpts_def)
  from Build_startable [OF ok this] ok show ?thesis by blast
qed

text \<open>
  C32. The containers of a configuration with distinct names get distinct user ids, none of them
  below 100, as long as there are not more containers than 32-bit numbers from there on.
\<close>

theorem allocateIds_distinct:
  assumes "distinct (map img_Name (mb_Onboot m @ mb_Onshutdown m @ mb_Services m))"
    and "length (mb_Onboot m @ mb_Onshutdown m @ mb_Services m) \<le> 2 ^ 32 - 100"
  shows "dom (allocateIds m) = set (map img_Name (mb_Onboot m @ mb_Onshutdown m @ mb_Services m)) \<and>
    inj_on (allocateIds m) (dom (allocateIds m)) \<and>
    (\<forall>n uid. allocateIds m n = Some uid \<longrightarrow> 100 \<le> uid)"
proof -
  define xs where "xs = mb_Onboot m @ mb_Onshutdown m @ mb_Services m"
  note ids = assms [folded xs_def]
  note nth = allocateIds_nth [OF xs_def ids(1)]
  have val: "unat (100 + word_of_nat i :: 32 word) = 100 + i" if "i < length xs" for i
    using that ids(2) by (simp add: unat_word_ariths unat_of_nat)
  have "n \<in> dom (allocateIds m) \<longleftrightarrow> n \<in> set (map img_Name xs)" for n
    using nth [of n] unfolding domIff in_set_conv_nth by auto
  then have "dom (allocateIds m) = set (map img_Name xs)" by blast
  moreover have "inj_on (allocateIds m) (dom (allocateIds m))"
  proof (rule inj_onI)
    fix n n' assume "n \<in> dom (allocateIds m)" "allocateIds m n = allocateIds m n'"
    then obtain uid where "allocateIds m n = Some uid" "allocateIds m n' = Some uid"
      unfolding domIff by (metis not_None_eq)
    then obtain i j where ij: "i < length xs" "j < length xs" "n = img_Name (xs ! i)" "n' = img_Name (xs ! j)"
      "(100 + word_of_nat i :: 32 word) = 100 + word_of_nat j" unfolding nth by auto
    from ij(5) have "100 + i = 100 + j" using val [OF ij(1)] val [OF ij(2)] by metis
    with ij show "n = n'" by simp
  qed
  moreover have "100 \<le> uid" if "allocateIds m n = Some uid" for n uid
    using that val unfolding nth by (auto simp: word_le_nat_alt)
  ultimately show ?thesis unfolding xs_def by blast
qed

theorem allocateIds_distinct_witness:
  "dom (allocateIds demoBuild) = {''sshd''} \<and> inj_on (allocateIds demoBuild) (dom (allocateIds demoBuild))"
  using allocateIds_distinct [of demoBuild] by (simp add: demoBuild_def demoService_def Moby_zero_def)

text \<open>
  What an incremental build does not notice: with an unchanged kernel image, a changed command
  line has no effect, since the kernel section is copied from the old archive.
\<close>

lemma buildKernel_stale:
  assumes "kc_ref (mb_Kernel oc) = Some r" and "kc_ref (mb_Kernel m) = Some r'" and "ref_String r = ref_String r'"
  shows "buildKernel env opts (m\<lparr>mb_Kernel := (mb_Kernel m)\<lparr>kc_Cmdline := c\<rparr>\<rparr>) (Some (oc, inTar)) st =
    buildKernel env opts m (Some (oc, inTar)) st"
  using assms by (cases st) (simp add: buildKernel_def)

text \<open>The location a volume is looked for under is not the one it was written with.\<close>

lemma volume_location: "indexed ''volumes'' i \<noteq> indexed ''volume'' j"
  by (simp add: indexed_def)

end
