(* ===== verification/Output.thy ===== *)
theory Output
  imports Initrd Build
begin

text \<open>
  The output formats: \<^verbatim>\<open>moby/build/output.go\<close>, \<^verbatim>\<open>linuxkit.go\<close>, \<^verbatim>\<open>docker.go\<close> and
  \<^verbatim>\<open>util/arch.go\<close>.  The file system is a map from path to contents.  The record \<open>OutEnv\<close> holds
  what is outside the program: the compressor, the bytes of a tar archive, the commands that are
  run (\<^verbatim>\<open>docker\<close>, \<^verbatim>\<open>linuxkit\<close>), which paths cannot be written, and the embedded YAML files once
  parsed.
\<close>

section \<open>The environment\<close>

type_synonym files = "string \<rightharpoonup> string"

text \<open>
  How a command ends: its standard output and what it made of the files, an exit code with the
  standard error, or a failure to run it at all.
\<close>

datatype exec_out = ExecOk string files | ExitError string string | ExecErr string

record OutEnv =
  oe_build :: "string \<Rightarrow> BuildEnv"
  oe_os :: BuildOs
  oe_readTar :: "string \<Rightarrow> tar_stream"
  oe_tarBytes :: "tar_entry list \<Rightarrow> string"
  oe_gzip :: "string \<Rightarrow> string"
  oe_sha256 :: "string \<Rightarrow> string"
  oe_MobyDir :: string
  oe_GOARCH :: string
  oe_images :: "(string \<times> string) list res"
  oe_mkimage :: string
  oe_WriteErr :: "string \<Rightarrow> string option"
  oe_MkdirAll :: "string \<Rightarrow> unit res"
  oe_MkdirTemp :: "string \<Rightarrow> string res"
  oe_CreateTemp :: "unit res"
  oe_LookPath :: "string \<Rightarrow> string res"
  oe_exec :: "string list \<Rightarrow> string \<Rightarrow> files \<Rightarrow> exec_out"

text \<open>\<^verbatim>\<open>os.WriteFile\<close>, and \<^verbatim>\<open>os.Create\<close> with no contents.\<close>

definition WriteFile :: "OutEnv \<Rightarrow> string \<Rightarrow> string \<Rightarrow> files \<Rightarrow> files res" where
  "WriteFile env p d fs = (case oe_WriteErr env p of Some e \<Rightarrow> Err e | None \<Rightarrow> Ok (fs(p \<mapsto> d)))"

text \<open>\<^verbatim>\<open>os.OpenFile\<close> for appending to a file that exists, and one write.\<close>

definition AppendFile :: "OutEnv \<Rightarrow> string \<Rightarrow> string \<Rightarrow> files \<Rightarrow> files res" where
  "AppendFile env p d fs =
     (case oe_WriteErr env p of
        Some e \<Rightarrow> Err e
      | None \<Rightarrow> (case fs p of None \<Rightarrow> Err ''no such file'' | Some old \<Rightarrow> Ok (fs(p \<mapsto> old @ d))))"

section \<open>Running \<^verbatim>\<open>docker\<close>\<close>

text \<open>
  The result is what the container writes to the output.  \<^verbatim>\<open>Run\<close> does not collect the standard
  error of \<^verbatim>\<open>docker pull\<close>, so the message ends there.
\<close>

definition dockerRun ::
  "OutEnv \<Rightarrow> string \<Rightarrow> string \<Rightarrow> string list \<Rightarrow> string list \<Rightarrow> files \<Rightarrow> (string \<times> files) res" where
  "dockerRun env input img runEnv imageArgs fs =
     (case oe_LookPath env ''docker'' of
        Ok docker \<Rightarrow>
          (case oe_exec env [docker, ''pull'', img] [] fs of
             ExitError err _ \<Rightarrow> Err (''docker pull '' @ img @ '' failed: '' @ err @ '' output:'' @ nl)
           | ExecErr e \<Rightarrow> Err e
           | ExecOk _ fs \<Rightarrow>
               let args = [''run'', ''--network=none'', ''--log-driver=none'', ''--rm'', ''-i''] @
                     concat (map (\<lambda>e. [''-e'', e]) runEnv) @ [img] @ imageArgs in
               (case oe_exec env (docker # args) input fs of
                  ExitError err stderr \<Rightarrow>
                    Err (''docker run '' @ img @ '' failed: '' @ err @ '' output:'' @ nl @ stderr)
                | ExecErr e \<Rightarrow> Err e
                | ExecOk stdout fs \<Rightarrow> Ok (stdout, fs)))
      | _ \<Rightarrow> Err ''docker does not seem to be installed'')"

text \<open>Creating the output file, running the image and collecting its output there.\<close>

definition runInto ::
  "OutEnv \<Rightarrow> string \<Rightarrow> string \<Rightarrow> string \<Rightarrow> string list res \<Rightarrow> string list \<Rightarrow> files \<Rightarrow> files res" where
  "runInto env filename input img runEnv imageArgs fs =
     bind_res (WriteFile env filename [] fs)
     (\<lambda>fs. bind_res runEnv
     (\<lambda>runEnv. bind_res (dockerRun env input img runEnv imageArgs fs)
     (\<lambda>(out, fs). Ok (fs(filename \<mapsto> out)))))"

definition targetArch :: "string \<Rightarrow> string list res" where
  "targetArch arch = bind_res (MArch arch) (\<lambda>march. Ok [''TARGETARCH='' @ march])"

section \<open>Writers of one kind of output\<close>

definition kernelTarHdr :: "string \<Rightarrow> int \<Rightarrow> string \<Rightarrow> tar_hdr" where
  "kernelTarHdr name mode d =
     Header\<lparr>th_Name := name, th_Mode := mode, th_Size := length d, th_ModTime := defaultModTime,
       th_Format := FormatPAX\<rparr>"

definition putEntry :: "string \<Rightarrow> int \<Rightarrow> string \<Rightarrow> tarw \<Rightarrow> tarw res" where
  "putEntry name mode d w = bind_res (tw_WriteHeader (kernelTarHdr name mode d) w) (tw_Write d)"

definition tarInitrdKernel :: "OutEnv \<Rightarrow> string \<Rightarrow> string \<Rightarrow> string \<Rightarrow> string res" where
  "tarInitrdKernel env krnl initrd cmdline =
     bind_res (putEntry ''kernel'' 384 krnl NewWriter)
     (\<lambda>w. bind_res (putEntry ''initrd.img'' 384 initrd w)
     (\<lambda>w. bind_res (putEntry ''cmdline'' 384 cmdline w)
     (\<lambda>w. bind_res (tw_Close w) (\<lambda>w. Ok (oe_tarBytes env (tw_out w))))))"

definition outputImg ::
  "OutEnv \<Rightarrow> string \<Rightarrow> string \<Rightarrow> string \<Rightarrow> string \<Rightarrow> string \<Rightarrow> string \<Rightarrow> files \<Rightarrow> files res" where
  "outputImg env img filename krnl initrd cmdline arch fs =
     bind_res (tarInitrdKernel env krnl initrd cmdline)
       (\<lambda>buf. runInto env filename buf img (targetArch arch) [cmdline] fs)"

definition outputIso :: "OutEnv \<Rightarrow> string \<Rightarrow> string \<Rightarrow> string \<Rightarrow> string \<Rightarrow> files \<Rightarrow> files res" where
  "outputIso env img filename fsys arch fs =
     runInto env filename fsys img (targetArch arch) [] fs"

definition outputRPi3 :: "OutEnv \<Rightarrow> string \<Rightarrow> string \<Rightarrow> string \<Rightarrow> files \<Rightarrow> files res" where
  "outputRPi3 env img filename fsys fs = runInto env filename fsys img (Ok []) [] fs"

definition outputKernelInitrd ::
  "OutEnv \<Rightarrow> string \<Rightarrow> string \<Rightarrow> string \<Rightarrow> string \<Rightarrow> string \<Rightarrow> files \<Rightarrow> files res" where
  "outputKernelInitrd env base krnl initrd cmdline ucode fs =
     bind_res
       (if length ucode \<noteq> 0 then
          bind_res (WriteFile env (base @ ''-initrd.img'') ucode fs)
            (\<lambda>fs. if length initrd \<noteq> 0 then AppendFile env (base @ ''-initrd.img'') initrd fs else Ok fs)
        else if length initrd \<noteq> 0 then WriteFile env (base @ ''-initrd.img'') initrd fs
        else Ok fs)
     (\<lambda>fs. bind_res
       (if length krnl \<noteq> 0 then WriteFile env (base @ ''-kernel'') krnl fs else Ok fs)
     (\<lambda>fs. if length cmdline \<noteq> 0 then WriteFile env (base @ ''-cmdline'') cmdline fs else Ok fs))"

definition outputKernelInitrdTarball ::
  "OutEnv \<Rightarrow> string \<Rightarrow> string \<Rightarrow> string \<Rightarrow> string \<Rightarrow> string \<Rightarrow> files \<Rightarrow> files res" where
  "outputKernelInitrdTarball env base krnl initrd cmdline ucode fs =
     bind_res (WriteFile env (base @ ''-initrd.tar'') [] fs)
     (\<lambda>fs. bind_res (if length krnl \<noteq> 0 then putEntry ''kernel'' 420 krnl NewWriter else Ok NewWriter)
     (\<lambda>w. bind_res (if length initrd \<noteq> 0 then putEntry ''initrd.img'' 420 initrd w else Ok w)
     (\<lambda>w. bind_res (if length cmdline \<noteq> 0 then putEntry ''cmdline'' 420 cmdline w else Ok w)
     (\<lambda>w. bind_res (if length ucode \<noteq> 0 then putEntry ''ucode.cpio'' 420 ucode w else Ok w)
     (\<lambda>w. bind_res (tw_Close w)
     (\<lambda>w. Ok (fs(base @ ''-initrd.tar'' \<mapsto> oe_tarBytes env (tw_out w)))))))))"

text \<open>
  One entry of the archive in \<^verbatim>\<open>outputKernelImage\<close>.  The error of \<^verbatim>\<open>WriteHeader\<close> is dropped.
\<close>

definition kernelImageEntry ::
  "OutEnv \<Rightarrow> string \<Rightarrow> tar_hdr \<Rightarrow> string \<Rightarrow> tarw \<times> files \<Rightarrow> (tarw \<times> files) res" where
  "kernelImageEntry env base thdr d st =
     (case st of (w, fs) \<Rightarrow>
      let thdr = thdr\<lparr>th_Format := FormatPAX\<rparr> in
      if th_Name thdr = ''boot/kernel''
      then bind_res (WriteFile env (base @ ''-kernel'') d fs) (\<lambda>fs. Ok (w, fs))
      else if th_Name thdr = ''boot/cmdline''
      then bind_res (WriteFile env (base @ ''-cmdline'') d fs) (\<lambda>fs. Ok (w, fs))
      else if has_prefix (th_Name thdr) ''boot/'' then Ok (w, fs)
      else let w = (case tw_WriteHeader thdr w of Ok w \<Rightarrow> w | _ \<Rightarrow> w) in
           bind_res (io_Copy tarWriter d w) (\<lambda>w. Ok (w, fs)))"

definition outputKernelImage ::
  "OutEnv \<Rightarrow> string \<Rightarrow> string \<Rightarrow> string \<Rightarrow> string \<Rightarrow> string \<Rightarrow> files \<Rightarrow> files res" where
  "outputKernelImage env img base outfile fsys arch fs =
     bind_res (tar_loop (kernelImageEntry env base) (oe_readTar env fsys) (NewWriter, fs))
     (\<lambda>(w, fs). let w = (case tw_Close w of Ok w \<Rightarrow> w | _ \<Rightarrow> w) in
        runInto env outfile (oe_tarBytes env (tw_out w)) img (targetArch arch) [] fs)"

definition outputKernelSquashFS ::
  "OutEnv \<Rightarrow> string \<Rightarrow> string \<Rightarrow> string \<Rightarrow> string \<Rightarrow> files \<Rightarrow> files res" where
  "outputKernelSquashFS env img base fsys arch =
     outputKernelImage env img base (base @ ''-squashfs.img'') fsys arch"

definition outputKernelEroFS ::
  "OutEnv \<Rightarrow> string \<Rightarrow> string \<Rightarrow> string \<Rightarrow> string \<Rightarrow> files \<Rightarrow> files res" where
  "outputKernelEroFS env img base fsys arch =
     outputKernelImage env img base (base @ ''-erofs.img'') fsys arch"

definition outputKernelISO ::
  "OutEnv \<Rightarrow> string \<Rightarrow> string \<Rightarrow> string \<Rightarrow> string \<Rightarrow> files \<Rightarrow> files res" where
  "outputKernelISO env img base fsys arch =
     outputKernelImage env img base (base @ ''.iso'') fsys arch"

section \<open>The image that builds disk images\<close>

definition linuxkitYaml :: "OutEnv \<Rightarrow> string \<Rightarrow> string" where
  "linuxkitYaml env name = (if name = ''mkimage'' then oe_mkimage env else [])"

definition imageFilename :: "OutEnv \<Rightarrow> string \<Rightarrow> string" where
  "imageFilename env name =
     path_join [oe_MobyDir env, ''linuxkit'', name @ ''-'' @ oe_sha256 env (linuxkitYaml env name)]"

definition writeKernelInitrd ::
  "OutEnv \<Rightarrow> string \<Rightarrow> string \<Rightarrow> string \<Rightarrow> string \<Rightarrow> files \<Rightarrow> files res" where
  "writeKernelInitrd env filename krnl initrd cmdline fs =
     bind_res (WriteFile env (filename @ ''-kernel'') krnl fs)
     (\<lambda>fs. bind_res (WriteFile env (filename @ ''-initrd.img'') initrd fs)
     (WriteFile env (filename @ ''-cmdline'') cmdline))"

definition ensureLinuxkitImage :: "OutEnv \<Rightarrow> string \<Rightarrow> string \<Rightarrow> files \<Rightarrow> files res" where
  "ensureLinuxkitImage env name cache fs =
     (let filename = imageFilename env name; benv = oe_build env cache in
      if fs (filename @ ''-kernel'') \<noteq> None \<and> fs (filename @ ''-initrd.img'') \<noteq> None \<and>
         fs (filename @ ''-cmdline'') \<noteq> None then Ok fs
      else bind_res (oe_MkdirAll env (path_join [oe_MobyDir env, ''linuxkit'']))
        (\<lambda>_. bind_res (NewConfig (be_yaml benv) (be_refParse benv) (linuxkitYaml env name) None)
        (\<lambda>m. bind_res (oe_CreateTemp env)
        (\<lambda>_. bind_res (Build (oe_os env) benv m
                \<lparr>bo_InputTar = [], bo_BuilderType = [], bo_DecompressKernel = False\<rparr> None)
        (\<lambda>(tf, _). bind_res (wrap_err ''error converting to initrd: ''
                (tarToInitrd (oe_gzip env) (oe_readTar env (oe_tarBytes env (tw_out tf)))))
        (\<lambda>(krnl, initrd, cmdline, _). writeKernelInitrd env filename krnl initrd cmdline fs))))))"

definition outputLinuxKit ::
  "OutEnv \<Rightarrow> string \<Rightarrow> string \<Rightarrow> string \<Rightarrow> string \<Rightarrow> string \<Rightarrow> nat \<Rightarrow> files \<Rightarrow> files res" where
  "outputLinuxKit env format filename krnl initrd cmdline sz fs =
     bind_res (oe_MkdirTemp env (path_join [oe_MobyDir env, ''tmp'']))
     (\<lambda>tmp. bind_res (tarInitrdKernel env krnl initrd cmdline)
     (\<lambda>buf. let tardisk = path_join [tmp, ''tardisk''] in
       bind_res (WriteFile env tardisk buf fs)
     (\<lambda>fs. let fs = (case oe_WriteErr env filename of None \<Rightarrow> fs(filename := None) | Some _ \<Rightarrow> fs) in
       if fs filename \<noteq> None then Err (''cannot remove existing file ['' @ filename @ '']'')
       else bind_res (wrap_err (''cannot find linuxkit executable, needed to build '' @ format @
              '' output type: '') (oe_LookPath env ''linuxkit''))
       (\<lambda>linuxkit.
          case oe_exec env [linuxkit, ''-q'', ''run'', ''qemu'',
                 ''--disk'', filename @ '',size='' @ dec_digits sz @ ''M,format='' @ format,
                 ''--disk'', tardisk @ '',format=raw'',
                 ''--kernel'', imageFilename env ''mkimage''] [] fs of
            ExecOk _ fs \<Rightarrow> Ok (fs(tardisk := None))
          | ExitError err _ \<Rightarrow> Err err
          | ExecErr e \<Rightarrow> Err e))))"

section \<open>The formats\<close>

type_synonym outFun = "string \<Rightarrow> string \<Rightarrow> nat \<Rightarrow> string \<Rightarrow> files \<Rightarrow> files res"

text \<open>The arguments of every format: the base name, the image, the size and the architecture.\<close>

abbreviation toInitrd :: "OutEnv \<Rightarrow> string \<Rightarrow> (string \<times> string \<times> string \<times> string) res" where
  "toInitrd env img \<equiv>
     wrap_err ''error converting to initrd: '' (tarToInitrd (oe_gzip env) (oe_readTar env img))"

abbreviation outImg :: "(string \<times> string) list \<Rightarrow> string \<Rightarrow> string" where
  "outImg imgs name \<equiv> (case map_of imgs name of None \<Rightarrow> [] | Some i \<Rightarrow> i)"

definition out_kernel_initrd :: "OutEnv \<Rightarrow> (string \<times> string) list \<Rightarrow> outFun" where
  "out_kernel_initrd env imgs base img sz arch fs =
     bind_res (toInitrd env img)
     (\<lambda>(krnl, initrd, cmdline, ucode). wrap_err ''error writing kernel+initrd output: ''
        (outputKernelInitrd env base krnl initrd cmdline ucode fs))"

definition out_tar_kernel_initrd :: "OutEnv \<Rightarrow> (string \<times> string) list \<Rightarrow> outFun" where
  "out_tar_kernel_initrd env imgs base img sz arch fs =
     bind_res (toInitrd env img)
     (\<lambda>(krnl, initrd, cmdline, ucode). wrap_err ''error writing kernel+initrd tarball output: ''
        (outputKernelInitrdTarball env base krnl initrd cmdline ucode fs))"

definition out_iso_bios :: "OutEnv \<Rightarrow> (string \<times> string) list \<Rightarrow> outFun" where
  "out_iso_bios env imgs base img sz arch fs =
     wrap_err ''error writing iso-bios output: ''
       (outputIso env (outImg imgs ''iso-bios'') (base @ ''.iso'') img arch fs)"

definition out_iso_efi :: "OutEnv \<Rightarrow> (string \<times> string) list \<Rightarrow> outFun" where
  "out_iso_efi env imgs base img sz arch fs =
     wrap_err ''error writing iso-efi output: ''
       (outputIso env (outImg imgs ''iso-efi'') (base @ ''-efi.iso'') img arch fs)"

definition out_iso_efi_initrd :: "OutEnv \<Rightarrow> (string \<times> string) list \<Rightarrow> outFun" where
  "out_iso_efi_initrd env imgs base img sz arch fs =
     bind_res (toInitrd env img)
     (\<lambda>(krnl, initrd, cmdline, _). wrap_err ''error writing iso-efi-initrd output: ''
        (outputImg env (outImg imgs ''iso-efi-initrd'') (base @ ''-efi-initrd.iso'') krnl initrd cmdline arch fs))"

definition out_raw_bios :: "OutEnv \<Rightarrow> (string \<times> string) list \<Rightarrow> outFun" where
  "out_raw_bios env imgs base img sz arch fs =
     bind_res (toInitrd env img)
     (\<lambda>(krnl, initrd, cmdline, _). wrap_err ''error writing raw-bios output: ''
        (outputImg env (outImg imgs ''raw-bios'') (base @ ''-bios.img'') krnl initrd cmdline arch fs))"

definition out_raw_efi :: "OutEnv \<Rightarrow> (string \<times> string) list \<Rightarrow> outFun" where
  "out_raw_efi env imgs base img sz arch fs =
     bind_res (toInitrd env img)
     (\<lambda>(krnl, initrd, cmdline, _). wrap_err ''error writing raw-efi output: ''
        (outputImg env (outImg imgs ''raw-efi'') (base @ ''-efi.img'') krnl initrd cmdline arch fs))"

definition out_kernel_squashfs :: "OutEnv \<Rightarrow> (string \<times> string) list \<Rightarrow> outFun" where
  "out_kernel_squashfs env imgs base img sz arch fs =
     wrap_err ''error writing kernel+squashfs output: ''
       (outputKernelSquashFS env (outImg imgs ''squashfs'') base img arch fs)"

definition out_kernel_erofs :: "OutEnv \<Rightarrow> (string \<times> string) list \<Rightarrow> outFun" where
  "out_kernel_erofs env imgs base img sz arch fs =
     wrap_err ''error writing kernel+erofs output: ''
       (outputKernelEroFS env (outImg imgs ''erofs'') base img arch fs)"

definition out_kernel_iso :: "OutEnv \<Rightarrow> (string \<times> string) list \<Rightarrow> outFun" where
  "out_kernel_iso env imgs base img sz arch fs =
     wrap_err ''error writing kernel+iso output: ''
       (outputKernelISO env (outImg imgs ''iso'') base img arch fs)"

definition out_aws :: "OutEnv \<Rightarrow> (string \<times> string) list \<Rightarrow> outFun" where
  "out_aws env imgs base img sz arch fs =
     bind_res (toInitrd env img)
     (\<lambda>(krnl, initrd, cmdline, _). wrap_err ''error writing raw output: ''
        (outputLinuxKit env ''raw'' (base @ ''.raw'') krnl initrd cmdline sz fs))"

definition out_gcp :: "OutEnv \<Rightarrow> (string \<times> string) list \<Rightarrow> outFun" where
  "out_gcp env imgs base img sz arch fs =
     bind_res (toInitrd env img)
     (\<lambda>(krnl, initrd, cmdline, _). wrap_err ''error writing gcp output: ''
        (outputImg env (outImg imgs ''gcp'') (base @ ''.img.tar.gz'') krnl initrd cmdline arch fs))"

definition out_qcow2_efi :: "OutEnv \<Rightarrow> (string \<times> string) list \<Rightarrow> outFun" where
  "out_qcow2_efi env imgs base img sz arch fs =
     bind_res (toInitrd env img)
     (\<lambda>(krnl, initrd, cmdline, _). wrap_err ''error writing qcow2 EFI output: ''
        (outputImg env (outImg imgs ''qcow2-efi'') (base @ ''-efi.qcow2'') krnl initrd cmdline arch fs))"

definition out_qcow2_bios :: "OutEnv \<Rightarrow> (string \<times> string) list \<Rightarrow> outFun" where
  "out_qcow2_bios env imgs base img sz arch fs =
     bind_res (toInitrd env img)
     (\<lambda>(krnl, initrd, cmdline, _). wrap_err ''error writing qcow2 output: ''
        (outputLinuxKit env ''qcow2'' (base @ ''.qcow2'') krnl initrd cmdline sz fs))"

definition out_vhd :: "OutEnv \<Rightarrow> (string \<times> string) list \<Rightarrow> outFun" where
  "out_vhd env imgs base img sz arch fs =
     bind_res (toInitrd env img)
     (\<lambda>(krnl, initrd, cmdline, _). wrap_err ''error writing vhd output: ''
        (outputImg env (outImg imgs ''vhd'') (base @ ''.vhd'') krnl initrd cmdline arch fs))"

definition out_dynamic_vhd :: "OutEnv \<Rightarrow> (string \<times> string) list \<Rightarrow> outFun" where
  "out_dynamic_vhd env imgs base img sz arch fs =
     bind_res (toInitrd env img)
     (\<lambda>(krnl, initrd, cmdline, _). wrap_err ''error writing vhd output: ''
        (outputImg env (outImg imgs ''dynamic-vhd'') (base @ ''.vhd'') krnl initrd cmdline arch fs))"

definition out_vmdk :: "OutEnv \<Rightarrow> (string \<times> string) list \<Rightarrow> outFun" where
  "out_vmdk env imgs base img sz arch fs =
     bind_res (toInitrd env img)
     (\<lambda>(krnl, initrd, cmdline, _). wrap_err ''error writing vmdk output: ''
        (outputImg env (outImg imgs ''vmdk'') (base @ ''.vmdk'') krnl initrd cmdline arch fs))"

definition out_rpi3 :: "OutEnv \<Rightarrow> (string \<times> string) list \<Rightarrow> outFun" where
  "out_rpi3 env imgs base img sz arch fs =
     (if oe_GOARCH env \<noteq> ''arm64''
      then Err ''raspberry Pi output currently only supported on arm64''
      else wrap_err ''error writing rpi3 output: ''
        (outputRPi3 env (outImg imgs ''rpi3'') (base @ ''.tar'') img fs))"

definition outFuns :: "(string \<times> (OutEnv \<Rightarrow> (string \<times> string) list \<Rightarrow> outFun)) list" where
  "outFuns =
     [(''kernel+initrd'', out_kernel_initrd),
      (''tar-kernel-initrd'', out_tar_kernel_initrd),
      (''iso-bios'', out_iso_bios),
      (''iso-efi'', out_iso_efi),
      (''iso-efi-initrd'', out_iso_efi_initrd),
      (''raw-bios'', out_raw_bios),
      (''raw-efi'', out_raw_efi),
      (''kernel+squashfs'', out_kernel_squashfs),
      (''kernel+erofs'', out_kernel_erofs),
      (''kernel+iso'', out_kernel_iso),
      (''aws'', out_aws),
      (''gcp'', out_gcp),
      (''qcow2-efi'', out_qcow2_efi),
      (''qcow2-bios'', out_qcow2_bios),
      (''vhd'', out_vhd),
      (''dynamic-vhd'', out_dynamic_vhd),
      (''vmdk'', out_vmdk),
      (''rpi3'', out_rpi3)]"

definition prereq :: "string \<Rightarrow> string" where
  "prereq out = (if out = ''aws'' \<or> out = ''qcow2-bios'' then ''mkimage'' else [])"

definition ensurePrereq :: "OutEnv \<Rightarrow> string \<Rightarrow> string \<Rightarrow> files \<Rightarrow> files res" where
  "ensurePrereq env out cache fs =
     (let p = prereq out in if p \<noteq> [] then ensureLinuxkitImage env p cache fs else Ok fs)"

text \<open>The names of the images that make the outputs are returned with the files.\<close>

definition ValidateFormats ::
  "OutEnv \<Rightarrow> string list \<Rightarrow> string \<Rightarrow> files \<Rightarrow> ((string \<times> string) list \<times> files) res" where
  "ValidateFormats env formats cache fs =
     bind_res (oe_images env)
     (\<lambda>imgs. bind_res
       (loop_res
         (\<lambda>out fs. case map_of outFuns out of
            None \<Rightarrow> Err (''unknown format type '' @ out)
          | Some _ \<Rightarrow> wrap_err (''failed to set up format type '' @ out @ '': '')
                        (ensurePrereq env out cache fs)) formats fs)
       (\<lambda>fs. Ok (imgs, fs)))"

definition Formats ::
  "OutEnv \<Rightarrow> string \<Rightarrow> string \<Rightarrow> string list \<Rightarrow> nat \<Rightarrow> string \<Rightarrow> string \<Rightarrow> files \<Rightarrow> files res" where
  "Formats env base img formats sz arch cache fs =
     bind_res (ValidateFormats env formats cache fs)
     (\<lambda>(imgs, fs). loop_res
        (\<lambda>out fs. case fs img of
           None \<Rightarrow> Err (''open '' @ img @ '': no such file or directory'')
         | Some ir \<Rightarrow> (case map_of outFuns out of
                         None \<Rightarrow> Panic
                       | Some f \<Rightarrow> f env imgs base ir sz arch fs)) formats fs)"

definition OutputTypes :: "string list" where
  "OutputTypes = sort (streamable @ map fst outFuns)"

section \<open>What the formats write\<close>

text \<open>A file that is only written when it has contents.\<close>

definition put_file :: "string \<Rightarrow> string \<Rightarrow> files \<Rightarrow> files" where
  "put_file p d fs = (if d = [] then fs else fs(p \<mapsto> d))"

abbreviation writes :: "OutEnv \<Rightarrow> string list \<Rightarrow> bool" where
  "writes env ps \<equiv> list_all (\<lambda>p. oe_WriteErr env p = None) ps"

lemma outputKernelInitrd_writes:
  assumes "writes env [base @ ''-initrd.img'', base @ ''-kernel'', base @ ''-cmdline'']"
  shows "outputKernelInitrd env base k i c u fs =
    Ok (put_file (base @ ''-cmdline'') c (put_file (base @ ''-kernel'') k
        (put_file (base @ ''-initrd.img'') (u @ i) fs)))"
  using assms by (auto simp: outputKernelInitrd_def WriteFile_def AppendFile_def put_file_def)

lemma outFuns_names: "distinct (map fst outFuns)"
  by (simp add: outFuns_def)

lemma map_of_outFuns: "map_of outFuns o' = None \<longleftrightarrow> o' \<notin> set (map fst outFuns)"
  by (simp add: map_of_eq_None_iff)

lemma ensurePrereq_none: "prereq o' = [] \<Longrightarrow> ensurePrereq env o' cache fs = Ok fs"
  by (simp add: ensurePrereq_def)

definition present :: "string \<Rightarrow> files \<Rightarrow> bool" where
  "present filename fs \<longleftrightarrow>
     fs (filename @ ''-kernel'') \<noteq> None \<and> fs (filename @ ''-initrd.img'') \<noteq> None \<and>
     fs (filename @ ''-cmdline'') \<noteq> None"

lemma ensureLinuxkitImage_present:
  "present (imageFilename env name) fs \<Longrightarrow> ensureLinuxkitImage env name cache fs = Ok fs"
  by (simp add: ensureLinuxkitImage_def present_def Let_def)

lemma writeKernelInitrd_present:
  "writeKernelInitrd env filename k i c fs = Ok fs' \<Longrightarrow> present filename fs'"
  by (auto simp: writeKernelInitrd_def WriteFile_def present_def split: option.splits)

lemma ensureLinuxkitImage_Ok:
  assumes "ensureLinuxkitImage env name cache fs = Ok fs'"
  shows "present (imageFilename env name) fs'"
proof (cases "present (imageFilename env name) fs")
  case True
  with assms show ?thesis by (simp add: ensureLinuxkitImage_present)
next
  case False
  then have "\<not> (fs (imageFilename env name @ ''-kernel'') \<noteq> None \<and>
      fs (imageFilename env name @ ''-initrd.img'') \<noteq> None \<and>
      fs (imageFilename env name @ ''-cmdline'') \<noteq> None)"
    by (simp add: present_def)
  with assms show ?thesis
    by (auto simp: ensureLinuxkitImage_def Let_def intro: writeKernelInitrd_present)
qed

text \<open>The archive given to the image builder: everything outside \<^verbatim>\<open>boot/\<close>, in PAX format.\<close>

definition paxEntry :: "tar_entry \<Rightarrow> tar_entry" where
  "paxEntry e = ((fst e)\<lparr>th_Format := FormatPAX\<rparr>, snd e)"

fun bootFiles :: "string \<Rightarrow> tar_entry list \<Rightarrow> files \<Rightarrow> files" where
  "bootFiles base [] fs = fs"
| "bootFiles base (e # es) fs =
     bootFiles base es
       (if th_Name (fst e) = ''boot/kernel'' then fs(base @ ''-kernel'' \<mapsto> snd e)
        else if th_Name (fst e) = ''boot/cmdline'' then fs(base @ ''-cmdline'' \<mapsto> snd e) else fs)"

lemma kernelImageEntry_boot:
  assumes "writes env [base @ ''-kernel'', base @ ''-cmdline'']" and "bootEntry (h, d)"
  shows "kernelImageEntry env base h d (w, fs) =
    Ok (w, if th_Name h = ''boot/kernel'' then fs(base @ ''-kernel'' \<mapsto> d)
        else if th_Name h = ''boot/cmdline'' then fs(base @ ''-cmdline'' \<mapsto> d) else fs)"
  using assms by (auto simp: kernelImageEntry_def WriteFile_def bootEntry_def Let_def)

lemma kernelImageEntry_root:
  assumes "\<not> bootEntry (h, d)" and "exact (paxEntry (h, d))" and "\<not> tw_closed w" and "tw_left w = 0"
  shows "kernelImageEntry env base h d (w, fs) =
    Ok (w\<lparr>tw_out := tw_out w @ [on_tape (paxEntry (h, d))]\<rparr>, fs)"
proof -
  let ?h = "h\<lparr>th_Format := FormatPAX\<rparr>"
  have n: "th_Name h \<noteq> ''boot/kernel''" "th_Name h \<noteq> ''boot/cmdline''" "\<not> has_prefix (th_Name h) ''boot/''"
    using assms(1) by (auto simp: bootEntry_def)
  have "tw_WriteHeader ?h w = Ok (w\<lparr>tw_out := tw_out w @ [(norm_hdr ?h, [])], tw_left := payload ?h\<rparr>)"
    using assms(3,4) by (simp add: tw_WriteHeader_def tw_Flush_def)
  moreover have "run_ops tarWriter (entries [paxEntry (h, d)]) w =
      Ok (w\<lparr>tw_out := tw_out w @ [on_tape (paxEntry (h, d))]\<rparr>)"
    using run_entries [of "[paxEntry (h, d)]" w] assms(2-4) by simp
  ultimately show ?thesis
    using n by (simp add: kernelImageEntry_def Let_def tarw.io_Copy_run entry_ops_def run_ops_Cons
        paxEntry_def)
qed

lemma kernelImage_loop:
  assumes "writes env [base @ ''-kernel'', base @ ''-cmdline'']"
    and "list_all (\<lambda>e. bootEntry e \<or> exact (paxEntry e)) es" and "\<not> tw_closed w" and "tw_left w = 0"
  shows "loop_res (\<lambda>(h, d). kernelImageEntry env base h d) es (w, fs) =
    Ok (w\<lparr>tw_out := tw_out w @ map (\<lambda>e. on_tape (paxEntry e)) (rootEntries es)\<rparr>, bootFiles base es fs)"
  using assms(2-)
proof (induction es arbitrary: w fs)
  case (Cons e es)
  obtain h d where e: "e = (h, d)" by (cases e)
  show ?case
  proof (cases "bootEntry e")
    case True
    with Cons show ?thesis by (simp add: e kernelImageEntry_boot [OF assms(1)])
  next
    case False
    then have "th_Name h \<noteq> ''boot/kernel''" "th_Name h \<noteq> ''boot/cmdline''"
      by (auto simp: e bootEntry_def)
    with False Cons show ?thesis by (simp add: e kernelImageEntry_root)
  qed
qed simp

lemma exact_pax: "exact (paxEntry e) = exact e"
  by (simp add: exact_def paxEntry_def payload_def norm_hdr_def Let_def)

lemma ensurePrereq_Ok:
  assumes "ensurePrereq env f cache fs = Ok fs'"
  shows "(prereq f \<noteq> [] \<longrightarrow> present (imageFilename env ''mkimage'') fs') \<and>
    (present (imageFilename env ''mkimage'') fs \<longrightarrow> fs' = fs)"
  using assms ensureLinuxkitImage_Ok [of env "''mkimage''" cache fs fs']
    ensureLinuxkitImage_present [of env "''mkimage''" fs cache]
  by (auto simp: ensurePrereq_def prereq_def Let_def split: if_splits)

lemma ensurePrereq_present:
  "present (imageFilename env ''mkimage'') fs \<or> prereq f = [] \<Longrightarrow> ensurePrereq env f cache fs = Ok fs"
  using ensureLinuxkitImage_present [of env "''mkimage''" fs cache]
  by (auto simp: ensurePrereq_def prereq_def Let_def)

abbreviation validateStep :: "OutEnv \<Rightarrow> string \<Rightarrow> string \<Rightarrow> files \<Rightarrow> files res" where
  "validateStep env cache f fs \<equiv>
     (case map_of outFuns f of
        None \<Rightarrow> Err (''unknown format type '' @ f)
      | Some _ \<Rightarrow> wrap_err (''failed to set up format type '' @ f @ '': '') (ensurePrereq env f cache fs))"

lemma validate_step:
  assumes "validateStep env cache f fs = Ok fs'"
  shows "f \<in> set (map fst outFuns)" "ensurePrereq env f cache fs = Ok fs'"
  using assms map_of_outFuns [of f] by (auto split: option.splits)

lemma validate_step_known:
  assumes "f \<in> set (map fst outFuns)" and "ensurePrereq env f cache fs = Ok fs'"
  shows "validateStep env cache f fs = Ok fs'"
proof -
  from assms(1) obtain g where "map_of outFuns f = Some g" using map_of_outFuns [of f] by blast
  with assms(2) show ?thesis by simp
qed

lemma validate_loop:
  assumes "loop_res (validateStep env cache) formats fs = Ok fs'"
  shows "set formats \<subseteq> set (map fst outFuns) \<and>
    (present (imageFilename env ''mkimage'') fs \<longrightarrow> fs' = fs) \<and>
    ((\<exists>f\<in>set formats. prereq f \<noteq> []) \<longrightarrow> present (imageFilename env ''mkimage'') fs')"
  using assms
proof (induction formats arbitrary: fs)
  case (Cons f formats)
  from Cons.prems obtain fs1 where 1: "validateStep env cache f fs = Ok fs1"
    and 2: "loop_res (validateStep env cache) formats fs1 = Ok fs'"
    by (auto simp del: wrap_err_Ok_iff)
  from Cons.IH [OF 2] validate_step [OF 1] ensurePrereq_Ok [OF validate_step(2) [OF 1]] show ?case
    by (auto simp del: list.set_map)
qed simp

lemma validate_stable:
  assumes "set formats \<subseteq> set (map fst outFuns)"
    and "present (imageFilename env ''mkimage'') fs \<or> (\<forall>f\<in>set formats. prereq f = [])"
  shows "loop_res (validateStep env cache) formats fs = Ok fs"
  using assms
proof (induction formats)
  case (Cons f formats)
  have "validateStep env cache f fs = Ok fs"
    by (rule validate_step_known) (use Cons.prems ensurePrereq_present in auto)
  moreover have "loop_res (validateStep env cache) formats fs = Ok fs"
    by (rule Cons.IH) (use Cons.prems in auto)
  ultimately show ?case by simp
qed simp

lemma ValidateFormats_loop:
  "ValidateFormats env formats cache fs =
     bind_res (oe_images env) (\<lambda>imgs.
       bind_res (loop_res (validateStep env cache) formats fs) (\<lambda>fs. Ok (imgs, fs)))"
  by (simp add: ValidateFormats_def)

text \<open>An environment where every command succeeds and the tool image is an empty configuration.\<close>

definition demoOut :: OutEnv where
  "demoOut =
     \<lparr>oe_build = (\<lambda>_. demoEnv\<lparr>be_yaml := demoLib\<lparr>yl_unmarshal_moby := \<lambda>_. Ok Moby_zero\<rparr>\<rparr>),
      oe_os = demoOs, oe_readTar = (\<lambda>s. (demoRoot, None)), oe_tarBytes = (\<lambda>es. ''tar''),
      oe_gzip = (\<lambda>s. ''gz'' @ s), oe_sha256 = (\<lambda>s. ''ab''), oe_MobyDir = ''/root/.moby'',
      oe_GOARCH = ''amd64'', oe_images = Ok [(''iso'', ''linuxkit/mkimage-iso'')], oe_mkimage = [],
      oe_WriteErr = (\<lambda>p. None), oe_MkdirAll = (\<lambda>p. Ok ()), oe_MkdirTemp = (\<lambda>p. Ok p),
      oe_CreateTemp = Ok (), oe_LookPath = (\<lambda>p. Ok p),
      oe_exec = (\<lambda>args input fs. ExecOk input fs)\<rparr>"

lemma demo_zero_config:
  "NewConfig (demoLib\<lparr>yl_unmarshal_moby := \<lambda>_. Ok Moby_zero\<rparr>) demoRef [] None = Ok Moby_zero"
  by (simp add: NewConfig_def demoLib_def processTemplates_def uniqueServices_def uniqueVolumes_def
      extractReferences_def Moby_zero_def KernelConfig_zero_def sync_vols_def fun_eq_iff)

lemma demo_zero_build:
  "is_ok (Build demoOs (demoEnv\<lparr>be_yaml := y\<rparr>) Moby_zero
     \<lparr>bo_InputTar = [], bo_BuilderType = [], bo_DecompressKernel = False\<rparr> None)"
  by (simp add: Build_def demoOs_def readOld_def Let_def buildKernel_def Moby_zero_def
      KernelConfig_zero_def NewAPKTarWriter_def WriteAPKDB_def buildContainers_def buildSection_def
      buildFinish_def filesystem_def additions_def tw_Close_def tw_Flush_def NewWriter_def)

section \<open>Properties\<close>

text \<open>
  C21.  The output \<^verbatim>\<open>kernel+initrd\<close>: when the image can be converted and the files can be written,
  the kernel and the command line are copied from the image, the initrd is the microcode followed
  by the compressed archive of everything outside \<^verbatim>\<open>boot/\<close>, empty parts give no file, and no
  other file changes.
\<close>

theorem Formats_kernel_initrd:
  assumes "oe_images env = Ok imgs" and "fs img = Some ir" and "oe_readTar env ir = (es, None)"
    and "list_all (\<lambda>e. bootEntry e \<or> convertible e) es"
    and "writes env [base @ ''-initrd.img'', base @ ''-kernel'', base @ ''-cmdline'']"
  shows "Formats env base img [''kernel+initrd''] sz arch cache fs =
    Ok (put_file (base @ ''-cmdline'') (lastNamed ''boot/cmdline'' es)
       (put_file (base @ ''-kernel'') (lastNamed ''boot/kernel'' es)
       (put_file (base @ ''-initrd.img'')
          (lastNamed ''boot/ucode.cpio'' es @
             oe_gzip env (cpio_archive (map initrdEntry (rootEntries es)))) fs)))"
proof -
  have f: "map_of outFuns ''kernel+initrd'' = Some out_kernel_initrd" by (simp add: outFuns_def)
  have v: "ValidateFormats env [''kernel+initrd''] cache fs = Ok (imgs, fs)"
    using assms(1) validate_stable [of "[''kernel+initrd'']" env fs cache]
    by (simp add: ValidateFormats_loop prereq_def outFuns_def)
  show ?thesis
    using assms(2,3)
    by (simp add: Formats_def v f out_kernel_initrd_def tarToInitrd_split [OF assms(4)]
        outputKernelInitrd_writes [OF assms(5)])
qed

theorem Formats_kernel_initrd_witness:
  "\<exists>fs'. Formats demoOut ''lk'' ''lk.tar'' [''kernel+initrd''] 1024 ''amd64'' [] [''lk.tar'' \<mapsto> ''tar''] = Ok fs' \<and>
     fs' ''lk-kernel'' = Some ''ELF'' \<and> fs' ''lk-cmdline'' = None \<and>
     fs' ''lk-initrd.img'' = Some (''gz'' @ cpio_archive (map initrdEntry (tl demoRoot)))"
proof -
  have "lastNamed ''boot/kernel'' demoRoot = ''ELF''" "lastNamed ''boot/cmdline'' demoRoot = []"
    "lastNamed ''boot/ucode.cpio'' demoRoot = []" "rootEntries demoRoot = tl demoRoot"
    by (simp_all add: lastNamed_def demoRoot_def Header_def bootEntry_def)
  then show ?thesis
    using Formats_kernel_initrd [of demoOut _ "[''lk.tar'' \<mapsto> ''tar'']" "''lk.tar''" "''tar''" demoRoot
        "''lk''" 1024 "''amd64''" "[]", OF _ _ _ demoRoot_ok]
    by (simp add: demoOut_def put_file_def)
qed

text \<open>
  C34.  The formats with a kernel beside a root file system (SquashFS, EroFS, ISO): the image builder
  is given exactly the entries outside \<^verbatim>\<open>boot/\<close>, in order and in PAX format, and the kernel and
  the command line are written next to its output.
\<close>

theorem outputKernelImage_root:
  assumes "oe_readTar env fsys = (es, None)"
    and "list_all (\<lambda>e. bootEntry e \<or> exact e) es"
    and "writes env [base @ ''-kernel'', base @ ''-cmdline'']"
  shows "outputKernelImage env img base outfile fsys arch fs =
    runInto env outfile (oe_tarBytes env (map (\<lambda>e. on_tape (paxEntry e)) (rootEntries es))) img
      (targetArch arch) [] (bootFiles base es fs)"
proof -
  have "list_all (\<lambda>e. bootEntry e \<or> exact (paxEntry e)) es" using assms(2) by (simp add: exact_pax)
  from kernelImage_loop [OF assms(3) this, of NewWriter fs] assms(1) show ?thesis
    by (simp add: outputKernelImage_def tar_loop_def NewWriter_sel tw_Close_def tw_Flush_def)
qed

theorem outputKernelImage_root_witness:
  "\<exists>fs'. outputKernelImage demoOut ''mkimage'' ''lk'' ''lk.iso'' ''tar'' ''amd64'' Map.empty = Ok fs' \<and>
     fs' ''lk-kernel'' = Some ''ELF'' \<and> fs' ''lk.iso'' = Some ''tar''"
proof -
  have "list_all (\<lambda>e. bootEntry e \<or> exact e) demoRoot"
    by (simp add: demoRoot_def bootEntry_def exact_def payload_flag isHeaderOnlyType_def Header_def)
  then show ?thesis
    using outputKernelImage_root [of demoOut "''tar''" demoRoot "''lk''" "''mkimage''" "''lk.iso''"
        "''amd64''" Map.empty]
    by (simp add: demoOut_def runInto_def WriteFile_def targetArch_def MArch_def dockerRun_def
        demoRoot_def Header_def Let_def)
qed

text \<open>
  Formats are checked before anything is built: only known formats pass, the tool image is
  there when a format needs it, and once a check has passed it passes again and changes nothing.
\<close>

theorem ValidateFormats_stable:
  assumes "ValidateFormats env formats cache fs = Ok (imgs, fs')"
  shows "set formats \<subseteq> set (map fst outFuns) \<and>
    ((\<exists>f\<in>set formats. prereq f \<noteq> []) \<longrightarrow> present (imageFilename env ''mkimage'') fs') \<and>
    ValidateFormats env formats cache fs' = Ok (imgs, fs')"
proof -
  from assms have i: "oe_images env = Ok imgs" and "loop_res (validateStep env cache) formats fs = Ok fs'"
    by (auto simp: ValidateFormats_loop)
  from validate_loop [OF this(2)] have v: "set formats \<subseteq> set (map fst outFuns)"
    "(\<exists>f\<in>set formats. prereq f \<noteq> []) \<longrightarrow> present (imageFilename env ''mkimage'') fs'"
    by blast+
  then have "loop_res (validateStep env cache) formats fs' = Ok fs'"
    by (intro validate_stable) auto
  with v i show ?thesis by (simp add: ValidateFormats_loop)
qed

theorem ValidateFormats_stable_witness:
  "\<exists>imgs fs'. ValidateFormats demoOut [''raw-efi'', ''aws''] [] Map.empty = Ok (imgs, fs') \<and>
     present (imageFilename demoOut ''mkimage'') fs' \<and>
     ValidateFormats demoOut [''raw-efi'', ''aws''] [] fs' = Ok (imgs, fs')"
proof -
  obtain tf sg where "Build demoOs (demoEnv\<lparr>be_yaml := demoLib\<lparr>yl_unmarshal_moby := \<lambda>_. Ok Moby_zero\<rparr>\<rparr>)
      Moby_zero \<lparr>bo_InputTar = [], bo_BuilderType = [], bo_DecompressKernel = False\<rparr> None = Ok (tf, sg)"
    using demo_zero_build [of "demoLib\<lparr>yl_unmarshal_moby := \<lambda>_. Ok Moby_zero\<rparr>"]
    by (auto simp: is_ok_iff)
  moreover have "be_refParse demoEnv = demoRef" by (simp add: demoEnv_def)
  ultimately have "is_ok (ensureLinuxkitImage demoOut ''mkimage'' [] Map.empty)"
    by (simp add: ensureLinuxkitImage_def demoOut_def Let_def linuxkitYaml_def demo_zero_config
        tarToInitrd_split [OF demoRoot_ok] writeKernelInitrd_def WriteFile_def)
  then obtain fs' where "ensureLinuxkitImage demoOut ''mkimage'' [] Map.empty = Ok fs'"
    by (auto simp: is_ok_iff)
  then have "\<exists>imgs fs'. ValidateFormats demoOut [''raw-efi'', ''aws''] [] Map.empty = Ok (imgs, fs')"
    by (simp add: ValidateFormats_def outFuns_def ensurePrereq_def prereq_def demoOut_def)
  then obtain imgs fs' where "ValidateFormats demoOut [''raw-efi'', ''aws''] [] Map.empty = Ok (imgs, fs')"
    by blast
  with ValidateFormats_stable [OF this] show ?thesis by (auto simp: prereq_def)
qed

end
