(* ===== verification/Memlogd.thy ===== *)
theory Memlogd
  imports Prelude
begin

text \<open>
  The in-memory log daemon (\<^verbatim>\<open>pkg/memlogd/cmd/memlogd/main.go\<close>).  The ring buffer of
  \<^verbatim>\<open>container/ring\<close> is a list of cells and the position of the next write; the handler of the ring,
  and the goroutine that serves each connection, are the steps of a transition system: a case of
  the handler's select is one step, and so is each message a goroutine serves, so logging, queries
  and slow or broken clients interleave in every order.  A goroutine that serves while its channel
  is being filled is not a separate interleaving: \<^verbatim>\<open>main\<close> gives the channels as many places as
  the ring has cells, so a fill drops nothing whether or not messages leave during it.  A channel is
  the list of its buffered messages.
\<close>

section \<open>Log entries\<close>

record logEntry =
  le_Time :: int
  le_Source :: string
  le_Msg :: string

text \<open>The printed form; formatting of times is a parameter.\<close>

definition logEntry_String :: "(int \<Rightarrow> string) \<Rightarrow> logEntry \<Rightarrow> string" where
  "logEntry_String fmt m =
     fmt (le_Time m) @ '';'' @ replace_char (CHR '';'') [CHR 0x5C, CHR '';''] (le_Source m) @ '';'' @ le_Msg m"

type_synonym logMode = "8 word"

abbreviation (input) logDump :: logMode where "logDump \<equiv> 0"
abbreviation (input) logFollow :: logMode where "logFollow \<equiv> 1"
abbreviation (input) logDumpFollow :: logMode where "logDumpFollow \<equiv> 2"

definition doLog :: "int \<Rightarrow> string \<Rightarrow> logEntry" where
  "doLog now msg = \<lparr>le_Time = now, le_Source = ''memlogd'', le_Msg = msg\<rparr>"

section \<open>The ring\<close>

record ring =
  r_cells :: "logEntry option list"
  r_pos :: nat

definition ring_New :: "nat \<Rightarrow> ring" where
  "ring_New n = \<lparr>r_cells = replicate n None, r_pos = 0\<rparr>"

text \<open>
  Storing an entry and moving on.  A ring of no cells is a nil pointer.
\<close>

definition ring_put :: "logEntry \<Rightarrow> ring \<Rightarrow> ring res" where
  "ring_put m r =
     (if r_cells r = [] then Panic
      else Ok (r\<lparr>r_cells := (r_cells r)[r_pos r := Some m],
                 r_pos := Suc (r_pos r) mod length (r_cells r)\<rparr>))"

definition ring_Do :: "ring \<Rightarrow> logEntry list" where
  "ring_Do r = List.map_filter (\<lambda>c. c) (rotate (r_pos r) (r_cells r))"

section \<open>Connections\<close>

record connListener =
  cn_mode :: logMode
  cn_output :: "logEntry list"
  cn_closed :: bool
  cn_err :: bool
  cn_sent :: "logEntry list"
  cn_done :: bool

record memlogd =
  m_ring :: ring
  m_listeners :: "nat list"
  m_conns :: "connListener list"

definition mem_init :: "nat \<Rightarrow> memlogd" where
  "mem_init n = \<lparr>m_ring = ring_New n, m_listeners = [], m_conns = []\<rparr>"

text \<open>
  A send that gives up when the channel is full; sending on a closed channel panics.
\<close>

definition trySend :: "nat \<Rightarrow> logEntry \<Rightarrow> connListener \<Rightarrow> connListener res" where
  "trySend cap m c =
     (if cn_closed c then Panic
      else if length (cn_output c) < cap then Ok (c\<lparr>cn_output := cn_output c @ [m]\<rparr>)
      else Ok c)"

definition notify :: "nat \<Rightarrow> logEntry \<Rightarrow> nat \<Rightarrow> connListener list \<Rightarrow> connListener list res" where
  "notify cap m i cs =
     (if cn_err (cs ! i) then Ok cs
      else bind_res (trySend cap m (cs ! i)) (\<lambda>c. Ok (cs[i := c])))"

text \<open>The two cases of the select of \<^verbatim>\<open>ringBufferHandler\<close>.\<close>

definition handleLog :: "nat \<Rightarrow> logEntry \<Rightarrow> memlogd \<Rightarrow> memlogd res" where
  "handleLog cap m st =
     bind_res (ring_put m (m_ring st)) (\<lambda>r.
     bind_res (loop_res (notify cap m) (m_listeners st) (m_conns st)) (\<lambda>cs.
       Ok (st\<lparr>m_ring := r, m_conns := cs,
              m_listeners := filter (\<lambda>i. \<not> cn_err (m_conns st ! i)) (m_listeners st)\<rparr>)))"

definition handleQuery :: "nat \<Rightarrow> logMode \<Rightarrow> memlogd \<Rightarrow> memlogd res" where
  "handleQuery cap mode st =
     (let l = \<lparr>cn_mode = mode, cn_output = [], cn_closed = False, cn_err = False, cn_sent = [],
               cn_done = False\<rparr>;
          ls = (if mode = logDumpFollow \<or> mode = logFollow
                then m_listeners st @ [length (m_conns st)] else m_listeners st) in
      bind_res (if mode = logDumpFollow \<or> mode = logDump
                then loop_res (trySend cap) (ring_Do (m_ring st)) l else Ok l)
        (\<lambda>l. let l = (if mode = logDump then l\<lparr>cn_closed := True\<rparr> else l) in
           Ok (st\<lparr>m_listeners := ls, m_conns := m_conns st @ [l]\<rparr>)))"

text \<open>
  The loop of \<^verbatim>\<open>logQueryHandler\<close>: receive a message and encode it, stop at an encoding error, stop
  when the channel is closed and empty.
\<close>

definition serveOk :: "connListener \<Rightarrow> connListener" where
  "serveOk c = c\<lparr>cn_output := tl (cn_output c), cn_sent := cn_sent c @ [hd (cn_output c)]\<rparr>"

definition serveErr :: "connListener \<Rightarrow> connListener" where
  "serveErr c = c\<lparr>cn_output := tl (cn_output c), cn_err := True, cn_done := True\<rparr>"

definition serveEnd :: "connListener \<Rightarrow> connListener" where
  "serveEnd c = c\<lparr>cn_done := True\<rparr>"

section \<open>The transition system\<close>

datatype mem_event = Log logEntry | Query logMode | Sent nat | Broken nat | Ended nat

inductive mstep :: "nat \<Rightarrow> memlogd \<Rightarrow> mem_event \<Rightarrow> memlogd \<Rightarrow> bool" for cap where
  log: "handleLog cap m st = Ok st' \<Longrightarrow> mstep cap st (Log m) st'"
| query: "handleQuery cap mode st = Ok st' \<Longrightarrow> mstep cap st (Query mode) st'"
| sent: "i < length (m_conns st) \<Longrightarrow> \<not> cn_done (m_conns st ! i) \<Longrightarrow> cn_output (m_conns st ! i) \<noteq> [] \<Longrightarrow>
    mstep cap st (Sent i) (st\<lparr>m_conns := (m_conns st)[i := serveOk (m_conns st ! i)]\<rparr>)"
| broken: "i < length (m_conns st) \<Longrightarrow> \<not> cn_done (m_conns st ! i) \<Longrightarrow> cn_output (m_conns st ! i) \<noteq> [] \<Longrightarrow>
    mstep cap st (Broken i) (st\<lparr>m_conns := (m_conns st)[i := serveErr (m_conns st ! i)]\<rparr>)"
| ended: "i < length (m_conns st) \<Longrightarrow> \<not> cn_done (m_conns st ! i) \<Longrightarrow> cn_output (m_conns st ! i) = [] \<Longrightarrow>
    cn_closed (m_conns st ! i) \<Longrightarrow>
    mstep cap st (Ended i) (st\<lparr>m_conns := (m_conns st)[i := serveEnd (m_conns st ! i)]\<rparr>)"

inductive_cases mstep_LogE: "mstep cap st (Log m) st'"
inductive_cases mstep_QueryE: "mstep cap st (Query mode) st'"
inductive_cases mstep_SentE: "mstep cap st (Sent i) st'"
inductive_cases mstep_BrokenE: "mstep cap st (Broken i) st'"
inductive_cases mstep_EndedE: "mstep cap st (Ended i) st'"

text \<open>Runs, with the events in the order they happened.\<close>

inductive mruns :: "nat \<Rightarrow> memlogd \<Rightarrow> mem_event list \<Rightarrow> memlogd \<Rightarrow> bool" for cap where
  none: "mruns cap st [] st"
| more: "mruns cap st evs st' \<Longrightarrow> mstep cap st' ev st'' \<Longrightarrow> mruns cap st (evs @ [ev]) st''"

lemma mruns_trans: "mruns cap b evs' c \<Longrightarrow> mruns cap a evs b \<Longrightarrow> mruns cap a (evs @ evs') c"
proof (induction rule: mruns.induct)
  case (none st)
  then show ?case by simp
next
  case (more st evs' st' ev st'')
  then have "mruns cap a ((evs @ evs') @ [ev]) st''" by (blast intro: mruns.more)
  then show ?case by simp
qed

definition logged :: "mem_event list \<Rightarrow> logEntry list" where
  "logged evs = List.map_filter (\<lambda>e. case e of Log m \<Rightarrow> Some m | _ \<Rightarrow> None) evs"

lemma map_filter_app: "List.map_filter f (a @ b) = List.map_filter f a @ List.map_filter f b"
  by (simp add: map_filter_def)

lemma logged_simps [simp]:
  "logged [] = []" "logged (a @ b) = logged a @ logged b" "logged [Log m] = [m]"
  "logged [Query q] = []" "logged [Sent i] = []" "logged [Broken i] = []" "logged [Ended i] = []"
  by (simp_all add: logged_def map_filter_simps map_filter_app)

section \<open>The ring keeps the last messages\<close>

definition lastn :: "nat \<Rightarrow> 'a list \<Rightarrow> 'a list" where
  "lastn n xs = drop (length xs - n) xs"

lemma length_lastn [simp]: "length (lastn n xs) = min n (length xs)"
  by (simp add: lastn_def)

text \<open>From the position on: empty cells, then the last messages.\<close>

definition ring_holds :: "nat \<Rightarrow> logEntry list \<Rightarrow> ring \<Rightarrow> bool" where
  "ring_holds n h r \<longleftrightarrow>
     length (r_cells r) = n \<and> r_pos r < n \<and>
     rotate (r_pos r) (r_cells r) = replicate (n - length h) None @ map Some (lastn n h)"

lemma ring_holds_New: "n > 0 \<Longrightarrow> ring_holds n [] (ring_New n)"
  by (simp add: ring_holds_def ring_New_def lastn_def)

lemma rotate_put:
  assumes "p < length cs"
  shows "rotate (Suc p mod length cs) (cs[p := x]) = tl (rotate p cs) @ [x]"
proof (cases "Suc p = length cs")
  case True
  then have "cs[p := x] = take p cs @ [x]"
    using assms by (simp add: upd_conv_take_nth_drop)
  moreover have "tl (rotate p cs) = take p cs"
    using True assms by (simp add: rotate_drop_take Cons_nth_drop_Suc [symmetric])
  ultimately show ?thesis using True by simp
next
  case False
  with assms have lt: "Suc p < length cs" by simp
  have "drop p cs = cs ! p # drop (Suc p) cs" using assms by (simp add: Cons_nth_drop_Suc)
  with lt assms show ?thesis
    by (simp add: rotate_drop_take take_Suc_conv_app_nth)
qed

lemma ring_holds_put:
  assumes "ring_holds n h r"
  shows "\<exists>r'. ring_put m r = Ok r' \<and> ring_holds n (h @ [m]) r'"
proof -
  let ?cs = "r_cells r" and ?p = "r_pos r"
  have len: "length ?cs = n" and p: "?p < length ?cs"
    and rot: "rotate ?p ?cs = replicate (n - length h) None @ map Some (lastn n h)"
    using assms by (simp_all add: ring_holds_def)
  have "tl (rotate ?p ?cs) @ [Some m] =
      replicate (n - length (h @ [m])) None @ map Some (lastn n (h @ [m]))"
  proof (cases "length h < n")
    case True
    then obtain k where k: "n - length h = Suc k" by (metis Suc_diff_Suc)
    with True show ?thesis by (simp add: rot lastn_def)
  next
    case False
    then have "tl (lastn n h) = drop (Suc (length h) - n) h"
      by (simp add: lastn_def tl_drop drop_Suc [symmetric] Suc_diff_le)
    moreover have "lastn n (h @ [m]) = drop (Suc (length h) - n) h @ [m]"
      using p len by (simp add: lastn_def)
    ultimately show ?thesis using False by (simp add: rot map_tl [symmetric])
  qed
  with rotate_put [OF p, of "Some m"] p len show ?thesis
    by (auto simp: ring_put_def ring_holds_def)
qed

lemma map_filter_None [simp]: "List.map_filter (\<lambda>c. c) (replicate k None) = []"
  by (simp add: map_filter_def)

lemma map_filter_Some [simp]: "List.map_filter (\<lambda>c. c) (map Some xs) = xs"
  by (simp add: map_filter_def comp_def)

lemma ring_Do_holds: "ring_holds n h r \<Longrightarrow> ring_Do r = lastn n h"
  by (simp add: ring_holds_def ring_Do_def map_filter_app)

section \<open>The state stays well formed\<close>

abbreviation follows :: "logMode \<Rightarrow> bool" where
  "follows mode \<equiv> mode = logDumpFollow \<or> mode = logFollow"

abbreviation dumps :: "logMode \<Rightarrow> bool" where
  "dumps mode \<equiv> mode = logDumpFollow \<or> mode = logDump"

definition conn_wf :: "nat \<Rightarrow> connListener \<Rightarrow> bool" where
  "conn_wf cap c \<longleftrightarrow>
     length (cn_output c) \<le> cap \<and> (cn_closed c \<longleftrightarrow> cn_mode c = logDump) \<and> (cn_err c \<longrightarrow> cn_done c) \<and>
     (cn_done c \<longrightarrow> cn_err c \<or> cn_closed c \<and> cn_output c = [])"

text \<open>
  Only connections that follow the log are listeners, each once; no channel holds more than its
  capacity; the channels of dumps, and only they, are closed.
\<close>

definition mem_wf :: "nat \<Rightarrow> memlogd \<Rightarrow> bool" where
  "mem_wf cap st \<longleftrightarrow>
     distinct (m_listeners st) \<and>
     (\<forall>i\<in>set (m_listeners st). i < length (m_conns st) \<and> follows (cn_mode (m_conns st ! i))) \<and>
     list_all (conn_wf cap) (m_conns st)"

definition push :: "nat \<Rightarrow> logEntry \<Rightarrow> connListener \<Rightarrow> connListener" where
  "push cap m c = (if length (cn_output c) < cap then c\<lparr>cn_output := cn_output c @ [m]\<rparr> else c)"

lemma trySend_push: "\<not> cn_closed c \<Longrightarrow> trySend cap m c = Ok (push cap m c)"
  by (simp add: trySend_def push_def)

lemma push_sel [simp]:
  "cn_mode (push cap m c) = cn_mode c" "cn_closed (push cap m c) = cn_closed c"
  "cn_err (push cap m c) = cn_err c" "cn_sent (push cap m c) = cn_sent c" "cn_done (push cap m c) = cn_done c"
  by (simp_all add: push_def)

lemma notify_loop:
  assumes "distinct ls" and "\<forall>i\<in>set ls. i < length cs \<and> \<not> cn_closed (cs ! i)"
  shows "\<exists>cs'. loop_res (notify cap m) ls cs = Ok cs' \<and> length cs' = length cs \<and>
    (\<forall>i<length cs. cs' ! i = (if i \<in> set ls \<and> \<not> cn_err (cs ! i) then push cap m (cs ! i) else cs ! i))"
  using assms
proof (induction ls arbitrary: cs)
  case Nil
  then show ?case by simp
next
  case (Cons j ls)
  let ?cs = "if cn_err (cs ! j) then cs else cs[j := push cap m (cs ! j)]"
  have step: "notify cap m j cs = Ok ?cs"
    using Cons.prems by (simp add: notify_def trySend_push)
  have nj: "j \<notin> set ls" using Cons.prems by simp
  have same: "?cs ! i = cs ! i" if "i \<noteq> j" for i using that by simp
  have "\<forall>i\<in>set ls. i < length ?cs \<and> \<not> cn_closed (?cs ! i)"
  proof
    fix i assume "i \<in> set ls"
    then have "i \<noteq> j" "i < length cs" "\<not> cn_closed (cs ! i)" using nj Cons.prems(2) by auto
    then show "i < length ?cs \<and> \<not> cn_closed (?cs ! i)" by simp
  qed
  from Cons.IH [OF _ this] Cons.prems(1) obtain cs' where cs':
    "loop_res (notify cap m) ls ?cs = Ok cs'" "length cs' = length ?cs"
    "\<forall>i<length ?cs. cs' ! i = (if i \<in> set ls \<and> \<not> cn_err (?cs ! i) then push cap m (?cs ! i) else ?cs ! i)"
    by auto
  have "cs' ! i = (if i \<in> set (j # ls) \<and> \<not> cn_err (cs ! i) then push cap m (cs ! i) else cs ! i)"
    if "i < length cs" for i
    using cs'(3) [rule_format, of i] that nj by (cases "i = j") (auto split: if_splits)
  with cs'(1,2) step show ?case by auto
qed

lemma fill_loop:
  assumes "\<not> cn_closed c"
  shows "loop_res (trySend cap) ms c = Ok (c\<lparr>cn_output := cn_output c @ take (cap - length (cn_output c)) ms\<rparr>)"
  using assms
proof (induction ms arbitrary: c)
  case (Cons m ms)
  from Cons.IH [of "push cap m c"] Cons.prems show ?case
    by (auto simp: trySend_push push_def take_Cons' Suc_diff_le)
qed simp

lemma handleLog_wf:
  assumes "mem_wf cap st" and "ring_holds n h (m_ring st)"
  shows "\<exists>st'. handleLog cap m st = Ok st' \<and> ring_holds n (h @ [m]) (m_ring st') \<and>
    set (m_listeners st') \<subseteq> set (m_listeners st) \<and> distinct (m_listeners st') \<and>
    length (m_conns st') = length (m_conns st) \<and>
    (\<forall>i<length (m_conns st). m_conns st' ! i =
       (if i \<in> set (m_listeners st) \<and> \<not> cn_err (m_conns st ! i) then push cap m (m_conns st ! i)
        else m_conns st ! i))"
proof -
  have "\<forall>i\<in>set (m_listeners st). i < length (m_conns st) \<and> \<not> cn_closed (m_conns st ! i)"
    using assms(1) by (auto simp: mem_wf_def list_all_length conn_wf_def)
  from notify_loop [OF _ this, of cap m] assms(1) obtain cs' where
    "loop_res (notify cap m) (m_listeners st) (m_conns st) = Ok cs'" "length cs' = length (m_conns st)"
    "\<forall>i<length (m_conns st). cs' ! i =
       (if i \<in> set (m_listeners st) \<and> \<not> cn_err (m_conns st ! i) then push cap m (m_conns st ! i)
        else m_conns st ! i)"
    by (auto simp: mem_wf_def)
  moreover obtain r' where "ring_put m (m_ring st) = Ok r'" "ring_holds n (h @ [m]) r'"
    using ring_holds_put [OF assms(2)] by blast
  ultimately show ?thesis
    using assms(1) by (auto simp: handleLog_def mem_wf_def)
qed

definition newConn :: "nat \<Rightarrow> logMode \<Rightarrow> logEntry list \<Rightarrow> connListener" where
  "newConn cap mode ms =
     \<lparr>cn_mode = mode, cn_output = (if dumps mode then take cap ms else []),
      cn_closed = (mode = logDump), cn_err = False, cn_sent = [], cn_done = False\<rparr>"

lemma handleQuery_eq:
  "handleQuery cap mode st =
     Ok (st\<lparr>m_listeners := if follows mode then m_listeners st @ [length (m_conns st)] else m_listeners st,
            m_conns := m_conns st @ [newConn cap mode (ring_Do (m_ring st))]\<rparr>)"
  by (simp add: handleQuery_def Let_def fill_loop newConn_def)

lemma conn_wf_push: "conn_wf cap c \<Longrightarrow> \<not> cn_err c \<Longrightarrow> \<not> cn_closed c \<Longrightarrow> conn_wf cap (push cap m c)"
  by (auto simp: conn_wf_def push_def)

lemma conn_wf_serve:
  assumes "conn_wf cap c" and "\<not> cn_done c"
  shows "conn_wf cap (serveOk c)" "conn_wf cap (serveErr c)"
    "cn_output c = [] \<Longrightarrow> cn_closed c \<Longrightarrow> conn_wf cap (serveEnd c)"
  using assms by (auto simp: conn_wf_def serveOk_def serveErr_def serveEnd_def)

lemma conn_wf_new: "conn_wf cap (newConn cap mode ms)"
  by (simp add: conn_wf_def newConn_def)

lemma serve_mode [simp]:
  "cn_mode (serveOk c) = cn_mode c" "cn_mode (serveErr c) = cn_mode c" "cn_mode (serveEnd c) = cn_mode c"
  by (simp_all add: serveOk_def serveErr_def serveEnd_def)

lemma mem_wf_update:
  assumes "mem_wf cap st" and "i < length (m_conns st)" and "conn_wf cap c"
    and "cn_mode c = cn_mode (m_conns st ! i)"
  shows "mem_wf cap (st\<lparr>m_conns := (m_conns st)[i := c]\<rparr>)"
  using assms by (auto simp: mem_wf_def list_all_length nth_list_update)

lemma mem_wf_nth: "mem_wf cap st \<Longrightarrow> i < length (m_conns st) \<Longrightarrow> conn_wf cap (m_conns st ! i)"
  by (simp add: mem_wf_def list_all_length)

lemma mem_wf_log:
  assumes "mem_wf cap st" and "ring_holds n h (m_ring st)" and "handleLog cap m st = Ok st'"
  shows "mem_wf cap st' \<and> ring_holds n (h @ [m]) (m_ring st')"
proof -
  from handleLog_wf [OF assms(1,2), of m] assms(3) have st': "ring_holds n (h @ [m]) (m_ring st')"
    "set (m_listeners st') \<subseteq> set (m_listeners st)" "distinct (m_listeners st')"
    "length (m_conns st') = length (m_conns st)"
    "\<And>i. i < length (m_conns st) \<Longrightarrow> m_conns st' ! i =
       (if i \<in> set (m_listeners st) \<and> \<not> cn_err (m_conns st ! i) then push cap m (m_conns st ! i)
        else m_conns st ! i)"
    by auto
  have "conn_wf cap (m_conns st' ! i)" if i: "i < length (m_conns st)" for i
  proof -
    have c: "conn_wf cap (m_conns st ! i)" using assms(1) i by (simp add: mem_wf_def list_all_length)
    have "\<not> cn_closed (m_conns st ! i)" if "i \<in> set (m_listeners st)"
      using assms(1) that c by (auto simp: mem_wf_def conn_wf_def)
    with c st'(5) [OF i] show ?thesis by (auto intro: conn_wf_push)
  qed
  moreover have "i < length (m_conns st') \<and> follows (cn_mode (m_conns st' ! i))"
    if "i \<in> set (m_listeners st')" for i
  proof -
    have i: "i < length (m_conns st)" "follows (cn_mode (m_conns st ! i))"
      using assms(1) st'(2) that by (auto simp: mem_wf_def)
    with st'(4) st'(5) [OF i(1)] show ?thesis by simp
  qed
  ultimately show ?thesis
    using st'(1,3,4) by (simp add: mem_wf_def list_all_length)
qed

lemma mem_wf_query:
  assumes "mem_wf cap st" and "handleQuery cap mode st = Ok st'"
  shows "mem_wf cap st'"
proof -
  let ?c = "newConn cap mode (ring_Do (m_ring st))" and ?n = "length (m_conns st)"
  have ls: "m_listeners st' = (if follows mode then m_listeners st @ [?n] else m_listeners st)"
    and cs: "m_conns st' = m_conns st @ [?c]"
    using assms(2) by (auto simp: handleQuery_eq)
  have l: "i < ?n" "follows (cn_mode (m_conns st ! i))" if "i \<in> set (m_listeners st)" for i
    using assms(1) that by (auto simp: mem_wf_def)
  have "?n \<notin> set (m_listeners st)" using l(1) by blast
  then have "distinct (m_listeners st')" using assms(1) by (simp add: mem_wf_def ls)
  moreover have "i < length (m_conns st') \<and> follows (cn_mode (m_conns st' ! i))"
    if "i \<in> set (m_listeners st')" for i
  proof (cases "i \<in> set (m_listeners st)")
    case True
    with l [OF this] show ?thesis by (simp add: cs nth_append)
  next
    case False
    with that have "i = ?n" "follows mode" by (auto simp: ls split: if_splits)
    then show ?thesis by (simp add: cs newConn_def)
  qed
  moreover have "list_all (conn_wf cap) (m_conns st')"
    using assms(1) by (simp add: mem_wf_def cs conn_wf_new)
  ultimately show ?thesis by (simp add: mem_wf_def)
qed

lemma mstep_wf:
  assumes "mstep cap st ev st'" and "mem_wf cap st" and "ring_holds n h (m_ring st)"
  shows "mem_wf cap st' \<and> ring_holds n (h @ logged [ev]) (m_ring st')"
  using assms
proof (cases rule: mstep.cases)
  case (log m)
  with assms mem_wf_log show ?thesis by simp
next
  case (query mode)
  with assms mem_wf_query show ?thesis by (auto simp: handleQuery_eq)
next
  case (sent i)
  from mem_wf_nth [OF assms(2) sent(3)] sent(4-) have "conn_wf cap (serveOk (m_conns st ! i))"
    by (simp add: conn_wf_serve)
  with mem_wf_update [OF assms(2) sent(3) this] assms(3) sent show ?thesis by simp
next
  case (broken i)
  from mem_wf_nth [OF assms(2) broken(3)] broken(4-) have "conn_wf cap (serveErr (m_conns st ! i))"
    by (simp add: conn_wf_serve)
  with mem_wf_update [OF assms(2) broken(3) this] assms(3) broken show ?thesis by simp
next
  case (ended i)
  from mem_wf_nth [OF assms(2) ended(3)] ended(4-) have "conn_wf cap (serveEnd (m_conns st ! i))"
    by (simp add: conn_wf_serve)
  with mem_wf_update [OF assms(2) ended(3) this] assms(3) ended show ?thesis by simp
qed

lemma mruns_wf:
  assumes "mruns cap st0 evs st" and "mem_wf cap st0" and "ring_holds n h (m_ring st0)"
  shows "mem_wf cap st \<and> ring_holds n (h @ logged evs) (m_ring st)"
  using assms
proof (induction rule: mruns.induct)
  case (more st evs st' ev st'')
  then show ?case using mstep_wf [OF more.hyps(2)] by fastforce
qed simp

lemma mem_init_wf: "n > 0 \<Longrightarrow> mem_wf cap (mem_init n) \<and> ring_holds n [] (m_ring (mem_init n))"
  by (simp add: mem_wf_def mem_init_def ring_holds_New)

section \<open>What a connection is sent\<close>

text \<open>
  Everything connection \<open>k\<close> was sent or still has in its channel, against the messages it should
  see: those in the ring when it asked (\<open>D\<close>) and those logged since (\<open>F\<close>).
\<close>

definition tracked :: "nat \<Rightarrow> logEntry list \<Rightarrow> logEntry list \<Rightarrow> memlogd \<Rightarrow> bool" where
  "tracked k D F st \<longleftrightarrow>
     k < length (m_conns st) \<and>
     (let c = m_conns st ! k; got = cn_sent c @ cn_output c in
      subseq got ((if dumps (cn_mode c) then D else []) @ (if follows (cn_mode c) then F else [])) \<and>
      (cn_mode c = logDump \<longrightarrow> cn_err c \<or> got = D))"

lemma tracked_new:
  assumes "handleQuery cap mode st = Ok st'" and "length (ring_Do (m_ring st)) \<le> cap"
  shows "tracked (length (m_conns st)) (ring_Do (m_ring st)) [] st'"
  using assms by (auto simp: tracked_def handleQuery_eq newConn_def)

lemma subseq_snoc: "subseq xs ys \<Longrightarrow> subseq (xs @ [m]) (ys @ [m])"
  by (rule list_emb_append_mono) simp_all

lemma subseq_more: "subseq xs ys \<Longrightarrow> subseq xs (ys @ zs)"
  using list_emb_append_mono [of "(=)" xs ys "[]" zs] by simp

lemma tracked_update:
  assumes "tracked k D F st"
    and "i = k \<Longrightarrow> cn_mode c = cn_mode (m_conns st ! k) \<and>
      subseq (cn_sent c @ cn_output c) (cn_sent (m_conns st ! k) @ cn_output (m_conns st ! k)) \<and>
      (cn_err c \<or> \<not> cn_err (m_conns st ! k) \<and>
         cn_sent c @ cn_output c = cn_sent (m_conns st ! k) @ cn_output (m_conns st ! k))"
  shows "tracked k D F (st\<lparr>m_conns := (m_conns st)[i := c]\<rparr>)"
proof (cases "i = k")
  case True
  with assms show ?thesis
    by (auto simp: tracked_def Let_def intro: subseq_order.order_trans)
next
  case False
  with assms(1) show ?thesis by (simp add: tracked_def Let_def)
qed

lemma serve_got:
  "cn_output c \<noteq> [] \<Longrightarrow> cn_sent (serveOk c) @ cn_output (serveOk c) = cn_sent c @ cn_output c"
  "subseq (cn_sent (serveErr c) @ cn_output (serveErr c)) (cn_sent c @ cn_output c)"
  "cn_sent (serveEnd c) @ cn_output (serveEnd c) = cn_sent c @ cn_output c"
proof -
  have "subseq (tl xs) xs" for xs :: "logEntry list" by (cases xs) auto
  then show "subseq (cn_sent (serveErr c) @ cn_output (serveErr c)) (cn_sent c @ cn_output c)"
    by (auto simp: serveErr_def intro: list_emb_append_mono)
qed (simp_all add: serveOk_def serveEnd_def)

lemma serve_err [simp]:
  "cn_err (serveOk c) = cn_err c" "cn_err (serveErr c)" "cn_err (serveEnd c) = cn_err c"
  by (simp_all add: serveOk_def serveErr_def serveEnd_def)

lemma tracked_log:
  assumes "tracked k D F st" and "handleLog cap m st = Ok st'" and "mem_wf cap st"
    and "ring_holds n h (m_ring st)"
  shows "tracked k D (F @ [m]) st'"
proof -
  let ?c = "m_conns st ! k"
  have k: "k < length (m_conns st)" using assms(1) by (simp add: tracked_def)
  from handleLog_wf [OF assms(3,4), of m] assms(2) k have st': "k < length (m_conns st')"
    "m_conns st' ! k = (if k \<in> set (m_listeners st) \<and> \<not> cn_err ?c then push cap m ?c else ?c)"
    by auto
  have fol: "follows (cn_mode ?c)" if "k \<in> set (m_listeners st)"
    using assms(3) that by (auto simp: mem_wf_def)
  show ?thesis
  proof (cases "k \<in> set (m_listeners st) \<and> \<not> cn_err ?c \<and> length (cn_output ?c) < cap")
    case True
    with fol have f: "follows (cn_mode ?c)" "cn_mode ?c \<noteq> logDump" by auto
    with assms(1) have "subseq (cn_sent ?c @ cn_output ?c) ((if dumps (cn_mode ?c) then D else []) @ F)"
      by (simp add: tracked_def Let_def)
    from subseq_snoc [OF this, of m] True f st' show ?thesis
      by (auto simp: tracked_def Let_def push_def)
  next
    case False
    with st' have same: "m_conns st' ! k = ?c" by (auto simp: push_def)
    from assms(1) have "subseq (cn_sent ?c @ cn_output ?c)
        ((if dumps (cn_mode ?c) then D else []) @ (if follows (cn_mode ?c) then F else []))"
      by (simp add: tracked_def Let_def)
    from subseq_more [OF this, of "if follows (cn_mode ?c) then [m] else []"] assms(1) same st'(1)
    show ?thesis by (auto simp: tracked_def Let_def split: if_splits)
  qed
qed

lemma tracked_step:
  assumes "mstep cap st ev st'" and "tracked k D F st" and "mem_wf cap st" and "ring_holds n h (m_ring st)"
  shows "tracked k D (F @ logged [ev]) st'"
  using assms(1)
proof (cases rule: mstep.cases)
  case (log m)
  with assms tracked_log show ?thesis by simp
next
  case (query mode)
  with assms(2) show ?thesis by (auto simp: tracked_def handleQuery_eq nth_append Let_def)
next
  case (sent i)
  have "\<not> cn_err (m_conns st ! i)"
    using mem_wf_nth [OF assms(3) sent(3)] sent(4) by (auto simp: conn_wf_def)
  then have "tracked k D F (st\<lparr>m_conns := (m_conns st)[i := serveOk (m_conns st ! i)]\<rparr>)"
    using sent(5) serve_got(1) by (intro tracked_update [OF assms(2)]) auto
  with sent show ?thesis by simp
next
  case (broken i)
  have "tracked k D F (st\<lparr>m_conns := (m_conns st)[i := serveErr (m_conns st ! i)]\<rparr>)"
    by (intro tracked_update [OF assms(2)]) (auto simp:  serve_got)
  with broken show ?thesis by simp
next
  case (ended i)
  have "\<not> cn_err (m_conns st ! i)"
    using mem_wf_nth [OF assms(3) ended(3)] ended(4) by (auto simp: conn_wf_def)
  then have "tracked k D F (st\<lparr>m_conns := (m_conns st)[i := serveEnd (m_conns st ! i)]\<rparr>)"
    by (intro tracked_update [OF assms(2)]) (auto simp:  serve_got)
  with ended show ?thesis by simp
qed

lemma tracked_runs:
  assumes "mruns cap st0 evs st" and "tracked k D F st0" and "mem_wf cap st0" and "ring_holds n h (m_ring st0)"
  shows "tracked k D (F @ logged evs) st"
  using assms
proof (induction rule: mruns.induct)
  case (more st evs st' ev st'')
  from mruns_wf [OF more.hyps(1) more.prems(2,3)] tracked_step [OF more.hyps(2) more.IH [OF more.prems]]
  show ?case by auto
qed simp

lemma mode_step:
  assumes "mstep cap st ev st'" and "mem_wf cap st" and "ring_holds n h (m_ring st)" and "k < length (m_conns st)"
  shows "k < length (m_conns st') \<and> cn_mode (m_conns st' ! k) = cn_mode (m_conns st ! k)"
  using assms(1)
proof (cases rule: mstep.cases)
  case (log m)
  with handleLog_wf [OF assms(2,3), of m] assms(4) show ?thesis by auto
next
  case (query mode)
  with assms(4) show ?thesis by (auto simp: handleQuery_eq nth_append)
qed (use assms(4) in \<open>auto simp: nth_list_update\<close>)

lemma dump_mode_kept:
  assumes "mruns cap st0 evs st" and "mem_wf cap st0" and "ring_holds n h (m_ring st0)"
    and "k < length (m_conns st0)"
  shows "k < length (m_conns st) \<and> cn_mode (m_conns st ! k) = cn_mode (m_conns st0 ! k)"
  using assms
proof (induction rule: mruns.induct)
  case (more st evs st' ev st'')
  from mruns_wf [OF more.hyps(1) more.prems(1,2)] more.IH [OF more.prems]
  show ?case using mode_step [OF more.hyps(2)] by fastforce
qed simp

text \<open>Serving a dump to its end.\<close>

lemma serve_dump:
  assumes "k < length (m_conns st)" and "\<not> cn_done (m_conns st ! k)" and "cn_closed (m_conns st ! k)"
  shows "\<exists>st'. mruns cap st (replicate (length (cn_output (m_conns st ! k))) (Sent k) @ [Ended k]) st' \<and>
    k < length (m_conns st') \<and> cn_done (m_conns st' ! k) \<and>
    cn_sent (m_conns st' ! k) = cn_sent (m_conns st ! k) @ cn_output (m_conns st ! k)"
  using assms
proof (induction "length (cn_output (m_conns st ! k))" arbitrary: st)
  case 0
  then have "mstep cap st (Ended k) (st\<lparr>m_conns := (m_conns st)[k := serveEnd (m_conns st ! k)]\<rparr>)"
    by (intro mstep.ended) simp_all
  then have "mruns cap st ([] @ [Ended k]) (st\<lparr>m_conns := (m_conns st)[k := serveEnd (m_conns st ! k)]\<rparr>)"
    by (rule mruns.more [OF mruns.none])
  with 0 show ?case by (auto simp: serveEnd_def intro!: exI)
next
  case (Suc x)
  let ?c = "m_conns st ! k"
  let ?st = "st\<lparr>m_conns := (m_conns st)[k := serveOk ?c]\<rparr>"
  have ne: "cn_output ?c \<noteq> []" using Suc.hyps(2) by auto
  have step: "mruns cap st ([] @ [Sent k]) ?st"
    by (rule mruns.more [OF mruns.none mstep.sent]) (use Suc.prems ne in simp_all)
  have c: "m_conns ?st ! k = serveOk ?c" using Suc.prems by simp
  have len: "length (cn_output (m_conns ?st ! k)) = x" using Suc.hyps(2) unfolding c by (simp add: serveOk_def)
  from Suc.hyps(1) [of ?st] Suc.prems len obtain st' where st':
    "mruns cap ?st (replicate x (Sent k) @ [Ended k]) st'" "k < length (m_conns st')"
    "cn_done (m_conns st' ! k)" "cn_sent (m_conns st' ! k) = cn_sent (serveOk ?c) @ cn_output (serveOk ?c)"
    by (auto simp: serveOk_def)
  from mruns_trans [OF st'(1) step] st'(2-) serve_got(1) [OF ne] Suc.hyps(2) [symmetric] show ?case
    by (auto simp: serve_got(1) [OF ne])
qed

section \<open>Reading lines\<close>

text \<open>
  \<^verbatim>\<open>bufio.Reader.ReadLine\<close> with its buffer of 4096 bytes, on what is left of the stream: a line
  without its end, or a full buffer and the news that the line goes on.  A carriage return at the
  end of a full buffer is kept for the next call.
\<close>

definition ReadLine :: "string \<Rightarrow> (string \<times> bool \<times> string) option" where
  "ReadLine s =
     (if s = [] then None
      else let l = takeWhile (\<lambda>c. c \<noteq> CHR 0x0A) (take 4096 s) in
           if length l < length (take 4096 s)
           then Some (if l \<noteq> [] \<and> last l = CHR 0x0D then butlast l else l, False, drop (Suc (length l)) s)
           else if length l < 4096 then Some (l, False, [])
           else if last l = CHR 0x0D then Some (butlast l, True, drop 4095 s)
           else Some (l, True, drop 4096 s))"

lemma ReadLine_shorter: "ReadLine s = Some (l, p, s') \<Longrightarrow> length s' < length s"
  by (auto simp: ReadLine_def Let_def split: if_splits)

text \<open>The inner loop: the rest of a long line, dropped once the buffer has enough.\<close>

function readRest :: "nat \<Rightarrow> string \<Rightarrow> string \<Rightarrow> string \<times> string" where
  "readRest maxLineLen buffer s =
     (case ReadLine s of
        None \<Rightarrow> (buffer, s)
      | Some (l, isPrefix, s') \<Rightarrow>
          let buffer = (if length buffer < maxLineLen then buffer @ l else buffer) in
          if isPrefix then readRest maxLineLen buffer s' else (buffer, s'))"
  by pat_completeness auto

termination
  by (relation "measure (\<lambda>(_, _, s). length s)") (auto dest: ReadLine_shorter)

declare readRest.simps [simp del]

lemma readRest_shorter: "length (snd (readRest n b s)) \<le> length s"
proof (induction n b s rule: readRest.induct)
  case (1 n b s)
  show ?case
  proof (cases "ReadLine s")
    case None
    then show ?thesis by (simp add: readRest.simps [of n b s])
  next
    case (Some q)
    obtain l p s' where q: "q = (l, p, s')" by (cases q)
    with Some ReadLine_shorter [of s l p s'] "1.IH" [of q l "(p, s')" p s'] show ?thesis
      by (cases p) (auto simp: readRest.simps [of n b s] Let_def intro: order_trans)
  qed
qed

text \<open>The messages of one descriptor, in order.\<close>

function readMsgs :: "nat \<Rightarrow> string \<Rightarrow> string list" where
  "readMsgs maxLineLen s =
     (case ReadLine s of
        None \<Rightarrow> []
      | Some (l, isPrefix, s') \<Rightarrow>
          (case (if isPrefix then readRest maxLineLen l s' else (l, s')) of
             (buffer, s'') \<Rightarrow>
               (if length buffer > maxLineLen then take maxLineLen buffer else buffer)
                 # readMsgs maxLineLen s''))"
  by pat_completeness auto

termination
proof (relation "measure (\<lambda>(_, s). length s)")
  fix n s and q :: "string \<times> bool \<times> string" and l x2 p s' buf s''
  assume 1: "ReadLine s = Some q" "(l, x2) = q" "(p, s') = x2"
    "(buf, s'') = (if p then readRest n l s' else (l, s'))"
  then have "length s'' \<le> length s'" using readRest_shorter [of n l s'] by (cases p) (auto dest: sym)
  moreover have "length s' < length s" using 1 by (auto intro: ReadLine_shorter)
  ultimately show "((n, s''), n, s) \<in> measure (\<lambda>(_, s). length s)" by simp
qed simp

declare readMsgs.simps [simp del]

definition readLogFromFd :: "nat \<Rightarrow> (nat \<Rightarrow> int) \<Rightarrow> string \<Rightarrow> string \<Rightarrow> logEntry list" where
  "readLogFromFd maxLineLen clock source s =
     map (\<lambda>(i, m). \<lparr>le_Time = clock i, le_Source = source, le_Msg = m\<rparr>)
       (enumerate 0 (readMsgs maxLineLen s))"

section \<open>Requests\<close>

text \<open>
  One turn of \<^verbatim>\<open>receiveQueryHandler\<close>: an error of \<^verbatim>\<open>Accept\<close>, or the count, the buffer and the error
  of reading the mode.  After a failed read the handler goes on with the zeroed buffer.
\<close>

datatype accepted = AcceptErr string | Accepted nat logMode "string option"

definition receiveQuery :: "int \<Rightarrow> accepted \<Rightarrow> logEntry list \<times> logMode option" where
  "receiveQuery now a =
     (case a of
        AcceptErr e \<Rightarrow> ([doLog now (''Connection error '' @ e)], None)
      | Accepted n mode err \<Rightarrow>
          (if err \<noteq> None \<or> n \<noteq> 1
           then [doLog now (''No mode received: '' @ (case err of Some e \<Rightarrow> e | None \<Rightarrow> ''%!s(<nil>)''))]
           else [], Some mode))"

record fdMessage =
  fm_name :: string
  fm_fd :: int

datatype fd_out = FdLog logEntry | FdMsg fdMessage

text \<open>
  One turn of \<^verbatim>\<open>receiveFdHandler\<close>.  What the system hands over: the datagram (its first \<open>n\<close> bytes
  and the control data), how the control data parses, and the descriptors of each message.
\<close>

record datagram =
  dg_err :: "string option"
  dg_b :: string
  dg_oob :: string
  dg_msgs :: "(int list res) list res"

definition receiveRights :: "int \<Rightarrow> string \<Rightarrow> int list res \<Rightarrow> fd_out list" where
  "receiveRights now name r =
     (case r of
        Ok fds \<Rightarrow> map (\<lambda>fd. FdMsg \<lparr>fm_name = name, fm_fd = fd\<rparr>) fds
      | Err e \<Rightarrow> [FdLog (doLog now (''ERROR: Failed to parse UNIX rights in oob data: '' @ e))]
      | Panic \<Rightarrow> [])"

definition receiveFd :: "int \<Rightarrow> datagram \<Rightarrow> fd_out list" where
  "receiveFd now d =
     (case dg_err d of
        Some e \<Rightarrow> [FdLog (doLog now (''ERROR: Unable to read oob data: '' @ e))]
      | None \<Rightarrow>
          if dg_oob d = [] then []
          else (case dg_msgs d of
                  Err e \<Rightarrow> [FdLog (doLog now (''ERROR: Failed to parse socket control message: '' @ e))]
                | Panic \<Rightarrow> []
                | Ok msgs \<Rightarrow> concat (map (receiveRights now (dg_b d)) msgs)))"

text \<open>
  The lines of a stream: cut at newlines, a carriage return before the newline dropped, an
  unfinished last line kept unless it is empty.
\<close>

definition strip_cr :: "string \<Rightarrow> string" where
  "strip_cr l = (if l \<noteq> [] \<and> last l = CHR 0x0D then butlast l else l)"

fun logLines :: "string \<Rightarrow> string \<Rightarrow> string list" where
  "logLines acc [] = (if acc = [] then [] else [acc])"
| "logLines acc (c # s) = (if c = CHR 0x0A then strip_cr acc # logLines [] s else logLines (acc @ [c]) s)"

text \<open>The first line of a stream and what follows it.\<close>

abbreviation upTo :: "string \<Rightarrow> string" where
  "upTo s \<equiv> takeWhile (\<lambda>c. c \<noteq> CHR 0x0A) s"

definition firstLine :: "string \<Rightarrow> string" where
  "firstLine s = (if CHR 0x0A \<in> set s then strip_cr (upTo s) else s)"

definition afterLine :: "string \<Rightarrow> string" where
  "afterLine s = (if CHR 0x0A \<in> set s then drop (Suc (length (upTo s))) s else [])"

lemma logLines_acc:
  "logLines acc s =
     (if CHR 0x0A \<in> set s then strip_cr (acc @ upTo s) # logLines [] (afterLine s)
      else if acc @ s = [] then [] else [acc @ s])"
  by (induction acc s rule: logLines.induct) (auto simp: afterLine_def)

lemma logLines_first: "s \<noteq> [] \<Longrightarrow> logLines [] s = firstLine s # logLines [] (afterLine s)"
  by (subst logLines_acc) (simp add: firstLine_def afterLine_def)

lemma upTo_take:
  assumes "length (upTo (take n s)) < length (take n s)"
  shows "upTo s = upTo (take n s)" "CHR 0x0A \<in> set s"
proof -
  have "upTo (take n s) \<noteq> take n s" using assms by (metis less_irrefl)
  then obtain c where c: "c \<in> set (take n s)" "\<not> c \<noteq> CHR 0x0A"
    unfolding takeWhile_eq_all_conv by blast
  have "upTo (take n s @ drop n s) = upTo (take n s)"
    using c by (rule takeWhile_append1)
  then show "upTo s = upTo (take n s)" by simp
  show "CHR 0x0A \<in> set s" using c by (auto dest: in_set_takeD)
qed

lemma upTo_full:
  assumes "\<not> length (upTo (take n s)) < length (take n s)"
  shows "upTo (take n s) = take n s" "CHR 0x0A \<notin> set (take n s)"
proof -
  have "upTo (take n s) = take (length (upTo (take n s))) (take n s)" by (rule takeWhile_eq_take)
  also have "\<dots> = take n s" by (rule take_all) (use assms in linarith)
  finally show eq: "upTo (take n s) = take n s" .
  then show "CHR 0x0A \<notin> set (take n s)" unfolding takeWhile_eq_all_conv by blast
qed

lemma ReadLine_newline:
  assumes "length (upTo (take 4096 s)) < length (take 4096 s)"
  shows "ReadLine s = Some (firstLine s, False, afterLine s)"
proof -
  have "s \<noteq> []" using assms by auto
  with assms upTo_take [OF assms] show ?thesis
    by (simp add: ReadLine_def Let_def firstLine_def afterLine_def strip_cr_def)
qed

lemma ReadLine_full:
  assumes "\<not> length (upTo (take 4096 s)) < length (take 4096 s)" and "s \<noteq> []"
  shows "ReadLine s =
    (if length s < 4096 then Some (s, False, [])
     else if last (take 4096 s) = CHR 0x0D then Some (butlast (take 4096 s), True, drop 4095 s)
     else Some (take 4096 s, True, drop 4096 s))"
  unfolding ReadLine_def Let_def upTo_full(1) [OF assms(1)] using assms(2) by simp

lemma ReadLine_nonempty: "ReadLine s = Some x \<Longrightarrow> s \<noteq> []"
  by (auto simp: ReadLine_def)

lemma ReadLine_whole:
  assumes "ReadLine s = Some (l, False, s')"
  shows "l = firstLine s \<and> s' = afterLine s"
proof (cases "length (upTo (take 4096 s)) < length (take 4096 s)")
  case True
  with assms ReadLine_newline show ?thesis by simp
next
  case False
  with assms ReadLine_full [OF False ReadLine_nonempty [OF assms]]
  have "length s < 4096" "l = s" "s' = []" by (simp_all split: if_splits)
  moreover from this upTo_full(2) [OF False] have "CHR 0x0A \<notin> set s" by simp
  ultimately show ?thesis by (simp add: firstLine_def afterLine_def)
qed

lemma strip_cr_append: "u \<noteq> [] \<or> l = [] \<or> last l \<noteq> CHR 0x0D \<Longrightarrow> strip_cr (l @ u) = l @ strip_cr u"
  by (auto simp: strip_cr_def butlast_append)

text \<open>A part of a line is followed by the rest of the same line.\<close>

lemma ReadLine_part:
  assumes "ReadLine s = Some (l, True, s')"
  shows "s = l @ s' \<and> CHR 0x0A \<notin> set l \<and> (last l \<noteq> CHR 0x0D \<or> (\<exists>t. s' = CHR 0x0D # t))"
proof -
  have full: "\<not> length (upTo (take 4096 s)) < length (take 4096 s)"
    using assms ReadLine_newline [of s] by auto
  note eq = ReadLine_full [OF full ReadLine_nonempty [OF assms]]
  define t where "t = take 4096 s"
  have len: "length t = 4096" using assms eq by (simp add: t_def split: if_splits)
  then have ne: "t \<noteq> []" by auto
  have no: "CHR 0x0A \<notin> set t" using upTo_full(2) [OF full] by (simp add: t_def)
  have s: "s = t @ drop 4096 s" by (simp add: t_def)
  show ?thesis
  proof (cases "last t = CHR 0x0D")
    case False
    then have "l = t" "s' = drop 4096 s" using assms eq by (simp_all add: t_def split: if_splits)
    with False no s show ?thesis by metis
  next
    case True
    then have l: "l = butlast t" "s' = drop 4095 s"
      using assms eq by (simp_all add: t_def split: if_splits)
    have t: "t = l @ [CHR 0x0D]" using True l(1) ne append_butlast_last_id [of t] by simp
    have "length l = 4095" using len l(1) by simp
    have s': "s' = CHR 0x0D # drop 4096 s"
      unfolding l(2) by (subst s) (simp add: t \<open>length l = 4095\<close>)
    moreover have "s = l @ s'" unfolding s' by (subst s) (simp add: t)
    moreover have "CHR 0x0A \<notin> set l" using no by (simp add: t)
    ultimately show ?thesis by blast
  qed
qed

lemma firstLine_part:
  assumes "ReadLine s = Some (l, True, s')"
  shows "firstLine s = l @ firstLine s' \<and> afterLine s = afterLine s'"
proof -
  from ReadLine_part [OF assms] have s: "s = l @ s'" and no: "CHR 0x0A \<notin> set l"
    and cr: "last l \<noteq> CHR 0x0D \<or> (\<exists>t. s' = CHR 0x0D # t)"
    by auto
  have up: "upTo s = l @ upTo s'"
    using no unfolding s by (auto intro: takeWhile_append2)
  have "strip_cr (l @ upTo s') = l @ strip_cr (upTo s')"
    by (rule strip_cr_append) (use cr in auto)
  moreover have "CHR 0x0A \<in> set s \<longleftrightarrow> CHR 0x0A \<in> set s'" using no unfolding s by simp
  ultimately show ?thesis
    unfolding firstLine_def afterLine_def up by (simp add: s)
qed

lemma readRest_line:
  "readRest n b s = (b', r) \<Longrightarrow> r = afterLine s \<and> take n b' = take n (b @ firstLine s)"
proof (induction n b s rule: readRest.induct)
  case (1 n b s)
  show ?case
  proof (cases "ReadLine s")
    case None
    then have "s = []" by (auto simp: ReadLine_def Let_def split: if_splits)
    with None "1.prems" show ?thesis
      by (simp add: readRest.simps [of n b "[]"] afterLine_def firstLine_def)
  next
    case (Some q)
    obtain l p s' where q: "q = (l, p, s')" by (cases q)
    define b1 where "b1 = (if length b < n then b @ l else b)"
    have b1: "take n (b1 @ x) = take n (b @ l @ x)" for x by (simp add: b1_def)
    have unf: "readRest n b s = (if p then readRest n b1 s' else (b1, s'))"
      by (subst readRest.simps) (simp add: Some q b1_def Let_def)
    show ?thesis
    proof (cases p)
      case False
      with unf "1.prems" have "b' = b1" "r = s'" by simp_all
      moreover from ReadLine_whole [of s l s'] Some q False have "l = firstLine s" "s' = afterLine s"
        by simp_all
      ultimately show ?thesis using b1 [of "[]"] by simp
    next
      case True
      with unf "1.prems" have "readRest n b1 s' = (b', r)" by simp
      from "1.IH" [OF Some q [symmetric] refl b1_def True this]
      have "r = afterLine s'" "take n b' = take n (b1 @ firstLine s')" by simp_all
      moreover from firstLine_part [of s l s'] Some q True
      have "firstLine s = l @ firstLine s'" "afterLine s = afterLine s'" by simp_all
      ultimately show ?thesis by (simp only: b1)
    qed
  qed
qed

lemma readMsgs_lines: "readMsgs n s = map (take n) (logLines [] s)"
proof (induction n s rule: readMsgs.induct)
  case (1 n s)
  show ?case
  proof (cases "ReadLine s")
    case None
    then have "s = []" by (auto simp: ReadLine_def Let_def split: if_splits)
    with None show ?thesis by (simp add: readMsgs.simps [of n "[]"])
  next
    case (Some q)
    obtain l p s' where q: "q = (l, p, s')" by (cases q)
    obtain b r where br: "(if p then readRest n l s' else (l, s')) = (b, r)"
      by (cases "if p then readRest n l s' else (l, s')")
    have ne: "s \<noteq> []" using Some by (auto simp: ReadLine_def)
    have "r = afterLine s \<and> take n b = take n (firstLine s)"
    proof (cases p)
      case True
      with br readRest_line [of n l s' b r] firstLine_part [of s l s'] Some q show ?thesis by simp
    next
      case False
      with br ReadLine_whole [of s l s'] Some q show ?thesis by simp
    qed
    moreover have "readMsgs n s = take n b # readMsgs n r"
      by (subst readMsgs.simps) (simp add: Some q br split del: if_split, simp)
    moreover have "readMsgs n r = map (take n) (logLines [] r)"
      using "1.IH" [OF Some q [symmetric] refl br [symmetric]] by simp
    ultimately show ?thesis by (simp only: logLines_first [OF ne] list.map)
  qed
qed

section \<open>Unknown modes\<close>

text \<open>
  A connection with a mode the handler does not know is never served and never closed: no step of
  the daemon changes it.
\<close>

lemma unknown_step:
  assumes "mstep cap st ev st'" and "k < length (m_conns st)" and "m_conns st ! k = newConn cap mode ms"
    and "\<not> dumps mode" and "\<not> follows mode" and "mem_wf cap st" and "ring_holds n h (m_ring st)"
  shows "k < length (m_conns st') \<and> m_conns st' ! k = newConn cap mode ms"
  using assms(1)
proof (cases rule: mstep.cases)
  case (log m)
  have "k \<notin> set (m_listeners st)" using assms(3,5,6) by (auto simp: mem_wf_def newConn_def)
  with handleLog_wf [OF assms(6,7), of m] log assms(2,3) show ?thesis by auto
next
  case (query q)
  with assms(2,3) show ?thesis by (auto simp: handleQuery_eq nth_append)
next
  case (sent i)
  with assms(2-5) show ?thesis by (cases "i = k") (auto simp: newConn_def)
next
  case (broken i)
  with assms(2-5) show ?thesis by (cases "i = k") (auto simp: newConn_def)
next
  case (ended i)
  with assms(2-5) show ?thesis by (cases "i = k") (auto simp: newConn_def)
qed

lemma unknown_mode_hangs:
  assumes "mruns cap st0 evs st" and "k < length (m_conns st0)" and "m_conns st0 ! k = newConn cap mode ms"
    and "\<not> dumps mode" and "\<not> follows mode" and "mem_wf cap st0" and "ring_holds n h (m_ring st0)"
  shows "k < length (m_conns st) \<and> m_conns st ! k = newConn cap mode ms"
  using assms
proof (induction rule: mruns.induct)
  case (more st evs st' ev st'')
  note wf = mruns_wf [OF more.hyps(1) more.prems(5,6)]
  from more.IH [OF more.prems] show ?case
    using unknown_step [OF more.hyps(2) _ _ more.prems(3,4)] wf by blast
qed simp

section \<open>Properties\<close>

text \<open>A run used as an example: two messages, a dump and a follower, another message.\<close>

abbreviation msg :: "string \<Rightarrow> logEntry" where
  "msg m \<equiv> \<lparr>le_Time = 0, le_Source = ''init'', le_Msg = m\<rparr>"

lemma demo_run: "\<exists>st. mruns 1 (mem_init 1) [Log (msg ''a''), Log (msg ''b'')] st \<and> m_conns st = []"
proof -
  let ?r = "\<lambda>m. \<lparr>r_cells = [Some (msg m)], r_pos = 0\<rparr>"
  let ?s = "\<lambda>m. \<lparr>m_ring = ?r m, m_listeners = [], m_conns = []\<rparr>"
  have "mstep 1 (mem_init 1) (Log (msg ''a'')) (?s ''a'')"
    by (rule mstep.log) (simp add: handleLog_def mem_init_def ring_put_def ring_New_def)
  from mruns.more [OF mruns.none this] have a: "mruns 1 (mem_init 1) [Log (msg ''a'')] (?s ''a'')" by simp
  have "mstep 1 (?s ''a'') (Log (msg ''b'')) (?s ''b'')"
    by (rule mstep.log) (simp add: handleLog_def ring_put_def)
  from mruns.more [OF a this] show ?thesis by auto
qed

lemma demo_dump:
  "\<exists>st st1. mruns 1 (mem_init 1) [Log (msg ''a''), Log (msg ''b'')] st \<and> m_conns st = [] \<and>
     handleQuery 1 logDump st = Ok st1 \<and> m_conns st1 ! 0 = newConn 1 logDump (ring_Do (m_ring st))"
proof -
  obtain st where "mruns 1 (mem_init 1) [Log (msg ''a''), Log (msg ''b'')] st" "m_conns st = []"
    using demo_run by blast
  then show ?thesis by (auto simp: handleQuery_eq intro!: exI [of _ st])
qed

text \<open>
  C35.  Every state the daemon can reach with a ring of at least one line is well typed (with
  \<^verbatim>\<open>-max-lines 0\<close> the ring is nil and the first message panics): each listener is a live connection that
  follows the log and is registered once, no channel holds more than its capacity, exactly the
  channels of dumps are closed; so the handler never sends on a closed channel and neither case of
  it panics.
\<close>

theorem memlogd_wf:
  assumes "n > 0" and "mruns cap (mem_init n) evs st"
  shows "mem_wf cap st \<and> is_ok (handleLog cap m st) \<and> is_ok (handleQuery cap mode st)"
proof -
  from mruns_wf [OF assms(2)] mem_init_wf [OF assms(1)] have
    wf: "mem_wf cap st" "ring_holds n ([] @ logged evs) (m_ring st)"
    by blast+
  from handleLog_wf [OF wf, of m] show ?thesis using wf(1) by (auto simp: handleQuery_eq)
qed

theorem memlogd_wf_witness:
  "\<exists>st. mruns 1 (mem_init 1) [Log (msg ''a''), Log (msg ''b'')] st \<and> mem_wf 1 st \<and>
     is_ok (handleLog 1 (msg ''c'') st)"
proof -
  obtain st where st: "mruns 1 (mem_init 1) [Log (msg ''a''), Log (msg ''b'')] st"
    using demo_run by blast
  from memlogd_wf [OF _ this, of "msg ''c''"] st show ?thesis by auto
qed

text \<open>
  C12.  The ring buffer implements a bounded log: whatever else happened, it holds exactly the last
  messages logged, as many as it has cells, oldest first.
\<close>

theorem ring_last_messages:
  assumes "n > 0" and "mruns cap (mem_init n) evs st"
  shows "ring_Do (m_ring st) = lastn n (logged evs)"
  using mruns_wf [OF assms(2)] mem_init_wf [OF assms(1)] ring_Do_holds by fastforce

theorem ring_last_messages_witness:
  "\<exists>st. mruns 1 (mem_init 1) [Log (msg ''a''), Log (msg ''b'')] st \<and> ring_Do (m_ring st) = [msg ''b'']"
proof -
  obtain st where st: "mruns 1 (mem_init 1) [Log (msg ''a''), Log (msg ''b'')] st"
    using demo_run by blast
  from ring_last_messages [OF _ this] st show ?thesis
    by (auto simp: logged_def map_filter_simps lastn_def)
qed

text \<open>
  C5.  What a client sees: the messages sent to a connection, and those still in its channel, are a
  subsequence of the messages that were in the ring when it asked for a dump followed by those
  logged since when it follows, so nothing is reordered, repeated or made up; and a dump misses
  nothing, unless the connection broke, when the channels are as large as the ring.
\<close>

theorem delivery_in_order:
  assumes "n > 0" and "n \<le> cap" and "mruns cap (mem_init n) evs st"
    and "handleQuery cap mode st = Ok st1" and "mruns cap st1 evs' st2"
  shows "\<exists>c. length (m_conns st) < length (m_conns st2) \<and> m_conns st2 ! length (m_conns st) = c \<and>
    subseq (cn_sent c @ cn_output c)
      ((if dumps (cn_mode c) then lastn n (logged evs) else []) @
       (if follows (cn_mode c) then logged evs' else [])) \<and>
    (cn_mode c = logDump \<longrightarrow> cn_err c \<or> cn_sent c @ cn_output c = lastn n (logged evs))"
proof -
  from mruns_wf [OF assms(3)] mem_init_wf [OF assms(1)] have
    wf: "mem_wf cap st" "ring_holds n (logged evs) (m_ring st)"
    by fastforce+
  have D: "ring_Do (m_ring st) = lastn n (logged evs)" by (rule ring_Do_holds [OF wf(2)])
  have t: "tracked (length (m_conns st)) (lastn n (logged evs)) [] st1"
    using tracked_new [OF assms(4)] assms(2) by (simp add: D)
  have "ring_holds n (logged evs) (m_ring st1)" using wf(2) assms(4) by (auto simp: handleQuery_eq)
  from tracked_runs [OF assms(5) t mem_wf_query [OF wf(1) assms(4)] this] show ?thesis
    by (simp add: tracked_def Let_def)
qed

theorem delivery_in_order_witness:
  "\<exists>st st1. mruns 1 (mem_init 1) [Log (msg ''a''), Log (msg ''b'')] st \<and>
     handleQuery 1 logDump st = Ok st1 \<and>
     cn_sent (m_conns st1 ! 0) @ cn_output (m_conns st1 ! 0) = [msg ''b'']"
proof -
  obtain st st1 where st: "mruns 1 (mem_init 1) [Log (msg ''a''), Log (msg ''b'')] st" "m_conns st = []"
    "handleQuery 1 logDump st = Ok st1" "m_conns st1 ! 0 = newConn 1 logDump (ring_Do (m_ring st))"
    using demo_dump by blast
  have "cn_sent (m_conns st1 ! 0) @ cn_output (m_conns st1 ! 0) =
      lastn 1 (logged [Log (msg ''a''), Log (msg ''b'')])"
    using delivery_in_order [OF _ _ st(1,3) mruns.none] st(2,4) by (simp add: newConn_def)
  with st(1,3) show ?thesis by (auto simp: logged_def map_filter_simps lastn_def)
qed

text \<open>
  C20.  A dump can always be finished: from any state that follows a dump query, as long as the
  connection has not broken or ended, the sends that are left, one for each message of the channel,
  and the end of the connection are possible one after the other, whatever the other clients do,
  and then the client has been sent exactly the messages that were in the ring.
\<close>

theorem dump_completes:
  assumes "n > 0" and "n \<le> cap" and "mruns cap (mem_init n) evs st"
    and "handleQuery cap logDump st = Ok st1" and "mruns cap st1 evs' st2"
    and "k = length (m_conns st)" and "\<not> cn_done (m_conns st2 ! k)"
  shows "\<exists>st3. mruns cap st2 (replicate (length (cn_output (m_conns st2 ! k))) (Sent k) @ [Ended k]) st3 \<and>
    cn_done (m_conns st3 ! k) \<and> cn_sent (m_conns st3 ! k) = lastn n (logged evs)"
proof -
  from mruns_wf [OF assms(3)] mem_init_wf [OF assms(1)] have
    wf: "mem_wf cap st" "ring_holds n (logged evs) (m_ring st)"
    by fastforce+
  have D: "ring_Do (m_ring st) = lastn n (logged evs)" by (rule ring_Do_holds [OF wf(2)])
  have t: "tracked k (lastn n (logged evs)) [] st1"
    using tracked_new [OF assms(4)] assms(2) by (simp add: D assms(6))
  have r1: "ring_holds n (logged evs) (m_ring st1)" using wf(2) assms(4) by (auto simp: handleQuery_eq)
  note wf1 = mem_wf_query [OF wf(1) assms(4)]
  have m1: "k < length (m_conns st1) \<and> cn_mode (m_conns st1 ! k) = logDump"
    using assms(4,6) by (auto simp: handleQuery_eq newConn_def)
  have mode: "cn_mode (m_conns st2 ! k) = logDump"
    using dump_mode_kept [OF assms(5) wf1 r1] m1 by simp
  from tracked_runs [OF assms(5) t wf1 r1] have k: "k < length (m_conns st2)"
    and got: "cn_err (m_conns st2 ! k) \<or>
      cn_sent (m_conns st2 ! k) @ cn_output (m_conns st2 ! k) = lastn n (logged evs)"
    using mode by (auto simp: tracked_def Let_def)
  have c: "conn_wf cap (m_conns st2 ! k)"
    using mruns_wf [OF assms(5) wf1 r1] k mem_wf_nth by blast
  then have "cn_closed (m_conns st2 ! k)" "\<not> cn_err (m_conns st2 ! k)"
    using mode assms(7) by (auto simp: conn_wf_def)
  with serve_dump [OF k assms(7)] got show ?thesis by auto
qed

theorem dump_completes_witness:
  "\<exists>st st1 st3. mruns 1 (mem_init 1) [Log (msg ''a''), Log (msg ''b'')] st \<and>
     handleQuery 1 logDump st = Ok st1 \<and>
     mruns 1 st1 (replicate (length (cn_output (m_conns st1 ! 0))) (Sent 0) @ [Ended 0]) st3 \<and>
     cn_done (m_conns st3 ! 0) \<and> cn_sent (m_conns st3 ! 0) = [msg ''b'']"
proof -
  obtain st st1 where st: "mruns 1 (mem_init 1) [Log (msg ''a''), Log (msg ''b'')] st" "m_conns st = []"
    "handleQuery 1 logDump st = Ok st1" "m_conns st1 ! 0 = newConn 1 logDump (ring_Do (m_ring st))"
    using demo_dump by blast
  have "\<not> cn_done (m_conns st1 ! 0)" "0 = length (m_conns st)" using st(2,4) by (simp_all add: newConn_def)
  with dump_completes [OF _ _ st(1,3) mruns.none, of 0] st(1,3) show ?thesis
    by (auto simp: logged_def map_filter_simps lastn_def)
qed

text \<open>
  C36.  Reading a log descriptor gives one entry per line of the stream: a carriage return before a
  newline is dropped, an unfinished last line is kept, and a line longer than the limit is cut to
  it, however the lines fall into the buffer of the reader.
\<close>

theorem readLogFromFd_lines:
  "map le_Msg (readLogFromFd maxLineLen clock source s) = map (take maxLineLen) (logLines [] s) \<and>
   list_all (\<lambda>e. length (le_Msg e) \<le> maxLineLen \<and> le_Source e = source)
     (readLogFromFd maxLineLen clock source s)"
proof -
  have "map le_Msg (readLogFromFd maxLineLen clock source s) = readMsgs maxLineLen s"
    by (simp add: readLogFromFd_def comp_def case_prod_beta' flip: snd_def)
  then have eq: "map le_Msg (readLogFromFd maxLineLen clock source s) = map (take maxLineLen) (logLines [] s)"
    by (simp only: readMsgs_lines)
  have "length (le_Msg e) \<le> maxLineLen" if "e \<in> set (readLogFromFd maxLineLen clock source s)" for e
  proof -
    have "le_Msg e \<in> set (map (take maxLineLen) (logLines [] s))"
      unfolding eq [symmetric] using that by simp
    then show ?thesis by auto
  qed
  with eq show ?thesis
    by (auto simp: list_all_iff readLogFromFd_def)
qed

end
