(* ===== verification/Logwrite.thy ===== *)
theory Logwrite
  imports Go_Path
begin

text \<open>
  The service that writes the messages of the log daemon to files and rotates them
  (\<^verbatim>\<open>pkg/logwrite/logwrite.go\<close>).  The file system is a map from path to contents; which calls fail
  is a parameter.  The result: the rotated files and the current one, read oldest first, are
  always a suffix of what was written, so rotation drops old messages and nothing else.
\<close>

section \<open>Definitions\<close>

record LogMessage =
  lm_Time :: int
  lm_Source :: string
  lm_Msg :: string

record LogwriteEnv =
  lw_Format :: "int \<Rightarrow> string"
  lw_OpenErr :: "string \<Rightarrow> string option"
  lw_WriteErr :: "string \<Rightarrow> string option"
  lw_RenameErr :: "string \<Rightarrow> string \<Rightarrow> string option"

type_synonym disk = "string \<rightharpoonup> string"

definition LogMessage_String :: "LogwriteEnv \<Rightarrow> LogMessage \<Rightarrow> string" where
  "LogMessage_String env m = lw_Format env (lm_Time m) @ '' '' @ lm_Source m @ '' '' @ lm_Msg m"

record LogFile =
  lf_File :: bool
  lf_Path :: string
  lf_BytesWritten :: nat

text \<open>The field \<open>lf_File\<close> says whether the handle is open.  An existing file is kept.\<close>

definition NewLogFile :: "LogwriteEnv \<Rightarrow> string \<Rightarrow> string \<Rightarrow> disk \<Rightarrow> (LogFile \<times> disk) res" where
  "NewLogFile env dir name fs =
     (let p = path_join [dir, name @ ''.log''] in
      case lw_OpenErr env p of
        Some e \<Rightarrow> Err e
      | None \<Rightarrow>
          let fs = (if fs p = None then fs(p \<mapsto> []) else fs) in
          Ok (\<lparr>lf_File = True, lf_Path = p, lf_BytesWritten = length (the (fs p))\<rparr>, fs))"

definition LogFile_Write ::
  "LogwriteEnv \<Rightarrow> LogMessage \<Rightarrow> LogFile \<Rightarrow> disk \<Rightarrow> (LogFile \<times> disk) res" where
  "LogFile_Write env m l fs =
     (let s = LogMessage_String env m @ [CHR 0x0A] in
      if \<not> lf_File l then Err ''file already closed''
      else case lw_WriteErr env (lf_Path l) of
             Some e \<Rightarrow> Err e
           | None \<Rightarrow>
               Ok (l\<lparr>lf_BytesWritten := lf_BytesWritten l + length s\<rparr>,
                   fs(lf_Path l \<mapsto> (case fs (lf_Path l) of None \<Rightarrow> [] | Some d \<Rightarrow> d) @ s)))"

definition LogFile_Close :: "LogFile \<Rightarrow> LogFile res" where
  "LogFile_Close l = (if lf_File l then Ok (l\<lparr>lf_File := False\<rparr>) else Err ''file already closed'')"

definition olderFile :: "string \<Rightarrow> nat \<Rightarrow> string" where
  "olderFile p i = p @ ''.'' @ dec_digits i"

definition newerFile :: "string \<Rightarrow> nat \<Rightarrow> string" where
  "newerFile p i = (if i = 0 then p else p @ ''.'' @ dec_digits (i - 1))"

text \<open>The loop over the files, from the oldest; a missing file is passed over.\<close>

fun renames :: "LogwriteEnv \<Rightarrow> string \<Rightarrow> nat \<Rightarrow> disk \<Rightarrow> string option \<times> disk" where
  "renames env p 0 fs = (None, fs)"
| "renames env p (Suc i) fs =
     (case fs (newerFile p i) of
        None \<Rightarrow> renames env p i fs
      | Some d \<Rightarrow>
          (case lw_RenameErr env (newerFile p i) (olderFile p i) of
             Some e \<Rightarrow> (Some e, fs)
           | None \<Rightarrow> renames env p i (fs(newerFile p i := None, olderFile p i := Some d))))"

text \<open>The error, the file and the disk: the caller goes on with the file whatever happened.\<close>

definition Rotate :: "LogwriteEnv \<Rightarrow> nat \<Rightarrow> LogFile \<Rightarrow> disk \<Rightarrow> string option \<times> LogFile \<times> disk" where
  "Rotate env maxLogFiles l fs =
     (case LogFile_Close l of
        Ok l \<Rightarrow>
          (case renames env (lf_Path l) maxLogFiles fs of
             (Some e, fs) \<Rightarrow> (Some e, l, fs)
           | (None, fs) \<Rightarrow>
               (case lw_OpenErr env (lf_Path l) of
                  Some e \<Rightarrow> (Some e, l, fs)
                | None \<Rightarrow> (None, l\<lparr>lf_File := True, lf_BytesWritten := 0\<rparr>, fs(lf_Path l \<mapsto> []))))
      | Err e \<Rightarrow> (Some e, l, fs)
      | Panic \<Rightarrow> (None, l, fs))"

type_synonym logState = "(string \<rightharpoonup> LogFile) \<times> disk"

text \<open>One message in the loop of \<^verbatim>\<open>main\<close>.\<close>

definition writeMsg ::
  "LogwriteEnv \<Rightarrow> nat \<Rightarrow> nat \<Rightarrow> LogMessage \<Rightarrow> LogFile \<Rightarrow> logState \<Rightarrow> logState" where
  "writeMsg env maxLogFiles maxLogSize m logF st =
     (case st of (logs, fs) \<Rightarrow>
      case LogFile_Write env m logF fs of
        Ok (logF, fs) \<Rightarrow>
          if lf_BytesWritten logF > maxLogSize
          then (case Rotate env maxLogFiles logF fs of
                  (_, logF, fs) \<Rightarrow> (logs(lm_Source m \<mapsto> logF), fs))
          else (logs(lm_Source m \<mapsto> logF), fs)
      | _ \<Rightarrow> (logs(lm_Source m := None), fs))"

definition handleMsg ::
  "LogwriteEnv \<Rightarrow> string \<Rightarrow> nat \<Rightarrow> nat \<Rightarrow> LogMessage \<Rightarrow> logState \<Rightarrow> logState" where
  "handleMsg env logDir maxLogFiles maxLogSize m st =
     (case st of (logs, fs) \<Rightarrow>
      if has_prefix (lm_Source m) ''logwrite'' then (logs, fs)
      else case logs (lm_Source m) of
             Some logF \<Rightarrow> writeMsg env maxLogFiles maxLogSize m logF (logs, fs)
           | None \<Rightarrow>
               (case NewLogFile env logDir (lm_Source m) fs of
                  Ok (logF, fs) \<Rightarrow>
                    writeMsg env maxLogFiles maxLogSize m logF (logs(lm_Source m \<mapsto> logF), fs)
                | _ \<Rightarrow> (logs, fs)))"

section \<open>What the files hold\<close>

definition content :: "disk \<Rightarrow> string \<Rightarrow> string" where
  "content fs p = (case fs p of None \<Rightarrow> [] | Some d \<Rightarrow> d)"

lemma content_upd [simp]:
  "content (fs(a := None)) b = (if b = a then [] else content fs b)"
  "content (fs(a \<mapsto> d)) b = (if b = a then d else content fs b)"
  by (simp_all add: content_def)

text \<open>The rotated files below \<open>k\<close>, oldest first, and the current file.\<close>

fun history :: "string \<Rightarrow> nat \<Rightarrow> disk \<Rightarrow> string" where
  "history p 0 fs = content fs p"
| "history p (Suc k) fs = content fs (olderFile p k) @ history p k fs"

lemma older_inj [simp]: "olderFile p i = olderFile p j \<longleftrightarrow> i = j"
  by (auto simp: olderFile_def dest: dec_digits_inj)

lemma older_not_path [simp]: "olderFile p i \<noteq> p" "p \<noteq> olderFile p i"
  by (simp_all add: olderFile_def)

lemma newer_eq: "newerFile p i = (if i = 0 then p else olderFile p (i - 1))"
  by (simp add: newerFile_def olderFile_def)

lemma history_cong:
  "content fs p = content fs' p \<Longrightarrow> (\<And>j. j < k \<Longrightarrow> content fs (olderFile p j) = content fs' (olderFile p j)) \<Longrightarrow>
     history p k fs = history p k fs'"
  by (induction k) simp_all

text \<open>The history without its top slot, which is the file the next rename takes.\<close>

lemma history_newer: "\<exists>r. history p k fs = content fs (newerFile p k) @ r \<and>
    (\<forall>d. history p k (fs(newerFile p k := None, olderFile p k := Some d)) = r)"
proof (cases k)
  case 0
  then show ?thesis by (simp add: newer_eq content_def)
next
  case (Suc j)
  have "history p j (fs(olderFile p j := None, olderFile p k := Some d)) = history p j fs" for d
    by (rule history_cong) (use Suc in \<open>simp_all add: content_def\<close>)
  with Suc show ?thesis by (simp add: newer_eq content_def)
qed

abbreviation renamable :: "LogwriteEnv \<Rightarrow> bool" where
  "renamable env \<equiv> \<forall>a b. lw_RenameErr env a b = None"

lemma renames_above:
  "k \<le> j \<Longrightarrow> renamable env \<Longrightarrow> content (snd (renames env p k fs)) (olderFile p j) = content fs (olderFile p j)"
proof (induction k arbitrary: fs)
  case (Suc k)
  have "olderFile p j \<noteq> newerFile p k" using Suc.prems by (auto simp: newer_eq)
  with Suc show ?case by (auto split: option.splits)
qed simp

lemma renames_no_error: "renamable env \<Longrightarrow> fst (renames env p k fs) = None"
  by (induction k arbitrary: fs) (auto split: option.splits)

text \<open>When the slot below the top is free, nothing is lost.\<close>

lemma renames_exact:
  assumes "renamable env" and "content fs (newerFile p k) = []"
  shows "history p k (snd (renames env p k fs)) = history p k fs"
  using assms(2)
proof (induction k arbitrary: fs)
  case (Suc k)
  have free: "content fs (olderFile p k) = []" using Suc.prems by (simp add: newer_eq)
  show ?case
  proof (cases "fs (newerFile p k)")
    case None
    then have "content fs (newerFile p k) = []" by (simp add: content_def)
    from Suc.IH [OF this] None show ?thesis
      using renames_above [OF order_refl assms(1), of p k fs] by simp
  next
    case (Some d)
    let ?fs = "fs(newerFile p k := None, olderFile p k := Some d)"
    have ne: "newerFile p k \<noteq> olderFile p k" by (auto simp: newer_eq)
    obtain r where r: "history p k fs = content fs (newerFile p k) @ r" "history p k ?fs = r"
      using history_newer [of p k fs] by blast
    have c: "content ?fs (newerFile p k) = []" "content ?fs (olderFile p k) = d"
      "content fs (newerFile p k) = d"
      using ne Some by (simp_all add: content_def)
    have "snd (renames env p (Suc k) fs) = snd (renames env p k ?fs)" using Some assms(1) by simp
    then show ?thesis
      using Suc.IH [OF c(1)] r c renames_above [OF order_refl assms(1), of p k ?fs]
      by (simp only: history.simps free append_Nil)
  qed
qed simp

lemma renames_suffix:
  assumes "renamable env"
  shows "suffix (history p k (snd (renames env p k fs))) (history p k fs)"
proof (cases k)
  case (Suc j)
  show ?thesis
  proof (cases "fs (newerFile p j)")
    case None
    then have "content fs (newerFile p j) = []" by (simp add: content_def)
    from renames_exact [OF assms this] None Suc show ?thesis
      using renames_above [OF order_refl assms, of p j fs] by simp
  next
    case (Some d)
    let ?fs = "fs(newerFile p j := None, olderFile p j := Some d)"
    have ne: "newerFile p j \<noteq> olderFile p j" by (auto simp: newer_eq)
    obtain r where r: "history p j fs = content fs (newerFile p j) @ r" "history p j ?fs = r"
      using history_newer [of p j fs] by blast
    have c: "content ?fs (newerFile p j) = []" "content ?fs (olderFile p j) = d" "content fs (newerFile p j) = d"
      using ne Some by (simp_all add: content_def)
    have "history p k (snd (renames env p k fs)) = history p j fs"
      using Suc Some assms r c renames_exact [OF assms c(1)] renames_above [OF order_refl assms, of p j ?fs]
      by simp
    then show ?thesis by (simp add: Suc suffix_def)
  qed
qed simp

lemma renames_path: "renamable env \<Longrightarrow> k > 0 \<Longrightarrow> content (snd (renames env p k fs)) p = []"
proof (induction k arbitrary: fs)
  case (Suc k)
  then show ?case
  proof (cases "k = 0")
    case True
    with Suc.prems show ?thesis by (auto simp: newerFile_def content_def split: option.splits)
  next
    case False
    with Suc show ?thesis by (simp split: option.splits)
  qed
qed simp

definition noErrors :: "LogwriteEnv \<Rightarrow> bool" where
  "noErrors env \<longleftrightarrow> (\<forall>p. lw_OpenErr env p = None) \<and> (\<forall>p. lw_WriteErr env p = None) \<and> renamable env"

lemma Rotate_suffix:
  assumes "noErrors env" and "lf_File l"
  shows "\<exists>fs'. Rotate env k l fs = (None, l\<lparr>lf_BytesWritten := 0\<rparr>, fs') \<and> fs' (lf_Path l) = Some [] \<and>
    suffix (history (lf_Path l) k fs') (history (lf_Path l) k fs)"
proof -
  let ?p = "lf_Path l"
  obtain fs1 where fs1: "renames env ?p k fs = (None, fs1)"
    using renames_no_error [of env ?p k fs] assms(1) by (cases "renames env ?p k fs") (simp add: noErrors_def)
  have "suffix (history ?p k (fs1(?p \<mapsto> []))) (history ?p k fs)"
  proof (cases "k = 0")
    case True
    then show ?thesis by (simp add: content_def)
  next
    case False
    then have "content fs1 ?p = []" using renames_path [of env k ?p fs] assms(1) fs1 by (simp add: noErrors_def)
    then have "history ?p k (fs1(?p \<mapsto> [])) = history ?p k fs1"
      by (intro history_cong) (simp_all add: content_def)
    with renames_suffix [of env ?p k fs] assms(1) fs1 show ?thesis by (simp add: noErrors_def)
  qed
  with assms fs1 show ?thesis by (simp add: Rotate_def LogFile_Close_def noErrors_def)
qed

definition logLine :: "LogwriteEnv \<Rightarrow> LogMessage \<Rightarrow> string" where
  "logLine env m = LogMessage_String env m @ [CHR 0x0A]"

lemma history_write: "history p k (fs(p \<mapsto> content fs p @ s)) = history p k fs @ s"
  by (induction k) (simp_all add: content_def)

text \<open>A file that is open, and the invariant of one source.\<close>

definition fileOk :: "string \<Rightarrow> LogFile \<Rightarrow> disk \<Rightarrow> bool" where
  "fileOk p l fs \<longleftrightarrow> lf_File l \<and> lf_Path l = p \<and> fs p \<noteq> None \<and> lf_BytesWritten l = length (content fs p)"

definition logInv :: "string \<Rightarrow> string \<Rightarrow> nat \<Rightarrow> nat \<Rightarrow> string \<Rightarrow> logState \<Rightarrow> bool" where
  "logInv src p k maxSize W st \<longleftrightarrow>
     suffix (history p k (snd st)) W \<and>
     (\<forall>l. fst st src = Some l \<longrightarrow> fileOk p l (snd st) \<and> lf_BytesWritten l \<le> maxSize)"

lemma writeMsg_inv:
  assumes "noErrors env" and "fileOk p l fs" and "suffix (history p k fs) W"
  shows "\<exists>l'. fst (writeMsg env k maxSize m l (logs, fs)) (lm_Source m) = Some l' \<and>
    logInv (lm_Source m) p k maxSize (W @ logLine env m) (writeMsg env k maxSize m l (logs, fs))"
proof -
  let ?s = "logLine env m"
  let ?fs = "fs(p \<mapsto> content fs p @ ?s)"
  let ?l = "l\<lparr>lf_BytesWritten := lf_BytesWritten l + length ?s\<rparr>"
  have l: "lf_File l" "lf_Path l = p" "fs p \<noteq> None" "lf_BytesWritten l = length (content fs p)"
    using assms(2) by (simp_all add: fileOk_def)
  have w: "LogFile_Write env m l fs = Ok (?l, ?fs)"
    using assms(1) l by (simp add: LogFile_Write_def noErrors_def Let_def logLine_def content_def)
  have suf: "suffix (history p k ?fs) (W @ ?s)"
    using assms(3) by (auto simp: history_write suffix_def)
  have ok: "fileOk p ?l ?fs" using l by (simp add: fileOk_def content_def)
  show ?thesis
  proof (cases "lf_BytesWritten ?l > maxSize")
    case False
    with w suf ok show ?thesis by (simp add: writeMsg_def logInv_def)
  next
    case True
    obtain fs' where fs': "Rotate env k ?l ?fs = (None, ?l\<lparr>lf_BytesWritten := 0\<rparr>, fs')" "fs' p = Some []"
      "suffix (history p k fs') (history p k ?fs)"
      using Rotate_suffix [OF assms(1), of ?l k ?fs] l by auto
    then have "fileOk p (?l\<lparr>lf_BytesWritten := 0\<rparr>) fs'" using l by (simp add: fileOk_def content_def)
    with w True fs' suf show ?thesis
      by (auto simp: writeMsg_def logInv_def intro: suffix_order.trans)
  qed
qed

lemma NewLogFile_ok:
  assumes "noErrors env" and "p = path_join [dir, name @ ''.log'']"
  shows "\<exists>l fs'. NewLogFile env dir name fs = Ok (l, fs') \<and> fileOk p l fs' \<and> history p k fs' = history p k fs"
proof -
  have "history p k (fs(p \<mapsto> [])) = history p k fs" if "fs p = None"
    using that by (intro history_cong) (simp_all add: content_def)
  then show ?thesis
    using assms by (auto simp: NewLogFile_def Let_def noErrors_def fileOk_def content_def)
qed

lemma handleMsg_inv:
  assumes "noErrors env" and "\<not> has_prefix (lm_Source m) ''logwrite''"
    and "p = path_join [dir, lm_Source m @ ''.log'']" and "logInv (lm_Source m) p k maxSize W st"
  shows "\<exists>l'. fst (handleMsg env dir k maxSize m st) (lm_Source m) = Some l' \<and>
    logInv (lm_Source m) p k maxSize (W @ logLine env m) (handleMsg env dir k maxSize m st)"
proof -
  obtain logs fs where st: "st = (logs, fs)" by (cases st)
  have suf: "suffix (history p k fs) W" using assms(4) by (simp add: logInv_def st)
  show ?thesis
  proof (cases "logs (lm_Source m)")
    case (Some l)
    then have "fileOk p l fs" using assms(4) by (simp add: logInv_def st)
    from writeMsg_inv [OF assms(1) this suf, where m = m and maxSize = maxSize and logs = logs] Some assms(2)
    show ?thesis by (simp add: handleMsg_def st)
  next
    case None
    obtain l fs' where n: "NewLogFile env dir (lm_Source m) fs = Ok (l, fs')" "fileOk p l fs'"
      "history p k fs' = history p k fs"
      using NewLogFile_ok [OF assms(1,3)] by blast
    from writeMsg_inv [OF assms(1) n(2), where k = k and W = W and m = m and maxSize = maxSize
        and logs = "logs(lm_Source m \<mapsto> l)"] n suf None assms(2)
    show ?thesis by (simp add: handleMsg_def st)
  qed
qed

section \<open>Properties\<close>

text \<open>
  C8.  Rotation loses only the oldest messages.  When no call fails, after any messages of a service
  its files, from the oldest rotated one to the current one, hold a suffix of what was there
  before followed by every line written since, and the current file is counted exactly and is
  never left larger than the limit.
\<close>

theorem rotation_keeps_suffix:
  assumes "noErrors env" and "\<not> has_prefix src ''logwrite''" and "p = path_join [dir, src @ ''.log'']"
    and "list_all (\<lambda>m. lm_Source m = src) msgs" and "msgs \<noteq> []"
    and "fold (handleMsg env dir maxFiles maxSize) msgs (Map.empty, fs) = (logs', fs')"
  shows "suffix (history p maxFiles fs') (history p maxFiles fs @ concat (map (logLine env) msgs)) \<and>
    (\<exists>l. logs' src = Some l \<and> lf_BytesWritten l = length (content fs' p) \<and> lf_BytesWritten l \<le> maxSize)"
proof -
  have "\<exists>l'. fst (fold (handleMsg env dir maxFiles maxSize) (ms @ [m]) st) src = Some l' \<and>
      logInv src p maxFiles maxSize (W @ concat (map (logLine env) (ms @ [m])))
        (fold (handleMsg env dir maxFiles maxSize) (ms @ [m]) st)"
    if "list_all (\<lambda>m. lm_Source m = src) (ms @ [m])" "logInv src p maxFiles maxSize W st" for ms m W st
    using that
  proof (induction ms arbitrary: W st)
    case Nil
    with handleMsg_inv [OF assms(1), of m p dir maxFiles maxSize W st] assms(2,3) show ?case by simp
  next
    case (Cons x ms)
    with handleMsg_inv [OF assms(1), of x p dir maxFiles maxSize W st] assms(2,3)
    have "logInv src p maxFiles maxSize (W @ logLine env x) (handleMsg env dir maxFiles maxSize x st)"
      by auto
    from Cons.IH [OF _ this] Cons.prems show ?case by simp
  qed
  moreover obtain ms m where "msgs = ms @ [m]" using assms(5) by (cases msgs rule: rev_cases) auto
  moreover have "logInv src p maxFiles maxSize (history p maxFiles fs) (Map.empty, fs)"
    by (simp add: logInv_def)
  ultimately have "\<exists>l'. logs' src = Some l' \<and>
      logInv src p maxFiles maxSize (history p maxFiles fs @ concat (map (logLine env) msgs)) (logs', fs')"
    using assms(4,6) by (metis fst_conv)
  then show ?thesis by (auto simp: logInv_def fileOk_def)
qed

definition demoLogs :: LogwriteEnv where
  "demoLogs = \<lparr>lw_Format = (\<lambda>t. ''t''), lw_OpenErr = (\<lambda>p. None), lw_WriteErr = (\<lambda>p. None),
     lw_RenameErr = (\<lambda>a b. None)\<rparr>"

theorem rotation_keeps_suffix_witness:
  "\<exists>logs' fs'. fold (handleMsg demoLogs ''/var/log'' 2 10)
      [\<lparr>lm_Time = 0, lm_Source = ''sshd'', lm_Msg = ''started''\<rparr>,
       \<lparr>lm_Time = 1, lm_Source = ''sshd'', lm_Msg = ''ok''\<rparr>] (Map.empty, Map.empty) = (logs', fs') \<and>
    suffix (history ''/var/log/sshd.log'' 2 fs')
      (''t sshd started'' @ [CHR 0x0A] @ ''t sshd ok'' @ [CHR 0x0A])"
proof -
  let ?ms = "[\<lparr>lm_Time = 0, lm_Source = ''sshd'', lm_Msg = ''started''\<rparr>,
    \<lparr>lm_Time = 1, lm_Source = ''sshd'', lm_Msg = ''ok''\<rparr>]"
  have p: "''/var/log/sshd.log'' = path_join [''/var/log'', ''sshd'' @ ''.log'']" by code_simp
  have e: "noErrors demoLogs" by (simp add: noErrors_def demoLogs_def)
  have h: "history q k Map.empty = []" for q k by (induction k) (simp_all add: content_def)
  obtain logs' fs' where r: "fold (handleMsg demoLogs ''/var/log'' 2 10) ?ms (Map.empty, Map.empty) = (logs', fs')"
    by (cases "fold (handleMsg demoLogs ''/var/log'' 2 10) ?ms (Map.empty, Map.empty)")
  from rotation_keeps_suffix [OF e _ p _ _ r] have
    "suffix (history ''/var/log/sshd.log'' 2 fs') (concat (map (logLine demoLogs) ?ms))"
    by (simp add: h)
  with r show ?thesis by (simp add: logLine_def LogMessage_String_def demoLogs_def)
qed

text \<open>
  The names of the rotated files start at zero: the first rotation moves the log to the file with
  suffix \<^verbatim>\<open>.0\<close>, although the comment in the code announces \<^verbatim>\<open>.1\<close>.
\<close>

lemma first_rotation_name:
  assumes "fs p = Some d" and "lw_RenameErr env p (p @ ''.0'') = None"
  shows "renames env p 1 fs = (None, fs(p := None, p @ ''.0'' := Some d))"
proof -
  have "dec_digits 0 = ''0''" by code_simp
  then have "olderFile p 0 = p @ ''.0''" by (simp add: olderFile_def)
  with assms show ?thesis by (simp add: newerFile_def)
qed

end
