(* ===== verification/Trace_IO.thy ===== *)
theory Trace_IO
  imports Prelude
begin

text \<open>
  Programs that only act on their surroundings, as functions on the list of the calls made so far.
  Every call is recorded, in order, whether it fails or not, and what the surroundings answer may
  depend on all the calls before it.  A fatal log message ends the process and is a \<^const>\<open>Panic\<close>.
\<close>

type_synonym ('c, 'a) tio = "'c list \<Rightarrow> 'c list \<times> 'a res"

definition io_ok :: "'a \<Rightarrow> ('c, 'a) tio" where
  "io_ok x = (\<lambda>tr. (tr, Ok x))"

definition io_err :: "string \<Rightarrow> ('c, 'a) tio" where
  "io_err e = (\<lambda>tr. (tr, Err e))"

definition io_fatal :: "('c, 'a) tio" where
  "io_fatal = (\<lambda>tr. (tr, Panic))"

definition io_bind :: "('c, 'a) tio \<Rightarrow> ('a \<Rightarrow> ('c, 'b) tio) \<Rightarrow> ('c, 'b) tio" where
  "io_bind m f =
     (\<lambda>tr. case m tr of
        (tr', Ok x) \<Rightarrow> f x tr'
      | (tr', Err e) \<Rightarrow> (tr', Err e)
      | (tr', Panic) \<Rightarrow> (tr', Panic))"

text \<open>A call, with its answer; a pure answer of the surroundings; a result computed without calls.\<close>

definition io_call :: "('c list \<Rightarrow> 'c \<Rightarrow> 'a res) \<Rightarrow> 'c \<Rightarrow> ('c, 'a) tio" where
  "io_call answer c = (\<lambda>tr. (tr @ [c], answer tr c))"

definition io_ask :: "('c list \<Rightarrow> 'a) \<Rightarrow> ('c, 'a) tio" where
  "io_ask f = (\<lambda>tr. (tr, Ok (f tr)))"

definition io_res :: "'a res \<Rightarrow> ('c, 'a) tio" where
  "io_res r = (\<lambda>tr. (tr, r))"

text \<open>A wrapped error, an ignored error, an error that ends the process, an error as a value.\<close>

definition io_wrap :: "string \<Rightarrow> ('c, 'a) tio \<Rightarrow> ('c, 'a) tio" where
  "io_wrap msg m = (\<lambda>tr. case m tr of (tr', r) \<Rightarrow> (tr', wrap_err msg r))"

definition io_ignore :: "('c, unit) tio \<Rightarrow> ('c, unit) tio" where
  "io_ignore m = (\<lambda>tr. case m tr of (tr', Err e) \<Rightarrow> (tr', Ok ()) | out \<Rightarrow> out)"

definition io_die :: "('c, 'a) tio \<Rightarrow> ('c, 'a) tio" where
  "io_die m = (\<lambda>tr. case m tr of (tr', Err e) \<Rightarrow> (tr', Panic) | out \<Rightarrow> out)"

definition io_error_as :: "string \<Rightarrow> ('c, 'a) tio \<Rightarrow> ('c, 'a) tio" where
  "io_error_as e m = (\<lambda>tr. case m tr of (tr', Err _) \<Rightarrow> (tr', Err e) | out \<Rightarrow> out)"

definition io_map_err :: "(string \<Rightarrow> string) \<Rightarrow> ('c, 'a) tio \<Rightarrow> ('c, 'a) tio" where
  "io_map_err f m = (\<lambda>tr. case m tr of (tr', Err e) \<Rightarrow> (tr', Err (f e)) | out \<Rightarrow> out)"

definition io_try :: "('c, 'a) tio \<Rightarrow> ('c, 'a option) tio" where
  "io_try m =
     (\<lambda>tr. case m tr of
        (tr', Ok x) \<Rightarrow> (tr', Ok (Some x))
      | (tr', Err e) \<Rightarrow> (tr', Ok None)
      | (tr', Panic) \<Rightarrow> (tr', Panic))"

fun io_loop :: "('a \<Rightarrow> ('c, unit) tio) \<Rightarrow> 'a list \<Rightarrow> ('c, unit) tio" where
  "io_loop f [] = io_ok ()"
| "io_loop f (x # xs) = io_bind (f x) (\<lambda>_. io_loop f xs)"

fun io_fold :: "('a \<Rightarrow> 's \<Rightarrow> ('c, 's) tio) \<Rightarrow> 'a list \<Rightarrow> 's \<Rightarrow> ('c, 's) tio" where
  "io_fold f [] s = io_ok s"
| "io_fold f (x # xs) s = io_bind (f x s) (io_fold f xs)"

section \<open>Which calls a program can make\<close>

text \<open>A program adds calls to the trace, and only calls of a given kind, whatever it is answered.\<close>

definition only :: "('c \<Rightarrow> bool) \<Rightarrow> ('c, 'a) tio \<Rightarrow> bool" where
  "only P m \<longleftrightarrow> (\<forall>tr. \<exists>cs. fst (m tr) = tr @ cs \<and> list_all P cs)"

named_theorems only_intros

lemma onlyI: "(\<And>tr. \<exists>cs. fst (m tr) = tr @ cs \<and> list_all P cs) \<Longrightarrow> only P m"
  by (simp add: only_def)

lemma onlyE:
  assumes "only P m"
  obtains cs r where "m tr = (tr @ cs, r)" "list_all P cs"
  using assms unfolding only_def by (metis prod.collapse)

lemma only_pure [only_intros]:
  "only P (io_ok x)" "only P (io_err e)" "only P io_fatal" "only P (io_ask f)" "only P (io_res r)"
  by (simp_all add: only_def io_ok_def io_err_def io_fatal_def io_ask_def io_res_def)

lemma only_call [only_intros]: "P c \<Longrightarrow> only P (io_call answer c)"
  by (simp add: only_def io_call_def)

lemma only_bind [only_intros]:
  assumes "only P m" and "\<And>x. only P (f x)"
  shows "only P (io_bind m f)"
proof (rule onlyI)
  fix tr
  obtain cs r where m: "m tr = (tr @ cs, r)" "list_all P cs" using onlyE [OF assms(1)] .
  show "\<exists>cs. fst (io_bind m f tr) = tr @ cs \<and> list_all P cs"
  proof (cases r)
    case (Ok x)
    obtain cs' r' where "f x (tr @ cs) = ((tr @ cs) @ cs', r')" "list_all P cs'" using onlyE [OF assms(2)] .
    with m Ok show ?thesis by (intro exI [of _ "cs @ cs'"]) (simp add: io_bind_def)
  qed (use m in \<open>auto simp: io_bind_def\<close>)
qed

text \<open>After a result that was computed without calls, its value is known.\<close>

lemma only_bind_res:
  "(\<And>x. r = Ok x \<Longrightarrow> only P (f x)) \<Longrightarrow> only P (io_bind (io_res r) f)"
  by (cases r) (auto simp: only_def io_bind_def io_res_def)

lemma only_result:
  assumes "only P m" and "\<And>tr. fst (g tr) = fst (m tr)"
  shows "only P g"
  using assms by (simp add: only_def)

lemma only_handlers [only_intros]:
  assumes "only P m"
  shows "only P (io_wrap msg m)" "only P (io_die m)" "only P (io_error_as e m)" "only P (io_try m)"
    "only P (io_map_err f m)"
  by (rule only_result [OF assms];
      simp add: io_wrap_def io_die_def io_error_as_def io_try_def io_map_err_def split: prod.splits res.splits)+

lemma only_ignore [only_intros]: "only P m \<Longrightarrow> only P (io_ignore m)"
  by (erule only_result) (simp add: io_ignore_def split: prod.splits res.splits)

lemma only_loop [only_intros]: "(\<And>x. x \<in> set xs \<Longrightarrow> only P (f x)) \<Longrightarrow> only P (io_loop f xs)"
  by (induction xs) (simp_all add: only_pure only_bind)

lemma only_fold [only_intros]: "(\<And>x s. x \<in> set xs \<Longrightarrow> only P (f x s)) \<Longrightarrow> only P (io_fold f xs s)"
  by (induction xs arbitrary: s) (simp_all add: only_pure only_bind)

lemma only_if [only_intros]:
  "(b \<Longrightarrow> only P m) \<Longrightarrow> (\<not> b \<Longrightarrow> only P n) \<Longrightarrow> only P (if b then m else n)"
  by simp

lemma only_option [only_intros]:
  "(x = None \<Longrightarrow> only P m) \<Longrightarrow> (\<And>y. x = Some y \<Longrightarrow> only P (f y)) \<Longrightarrow> only P (case x of None \<Rightarrow> m | Some y \<Rightarrow> f y)"
  by (cases x) simp_all

lemma only_res [only_intros]:
  "(\<And>y. x = Ok y \<Longrightarrow> only P (f y)) \<Longrightarrow> (\<And>e. x = Err e \<Longrightarrow> only P (g e)) \<Longrightarrow> (x = Panic \<Longrightarrow> only P m) \<Longrightarrow>
    only P (case x of Ok y \<Rightarrow> f y | Err e \<Rightarrow> g e | Panic \<Rightarrow> m)"
  by (cases x) simp_all

lemma only_prod [only_intros]:
  "(\<And>a b. x = (a, b) \<Longrightarrow> only P (f a b)) \<Longrightarrow> only P (case x of (a, b) \<Rightarrow> f a b)"
  by (cases x) simp

lemma only_extends: "only P m \<Longrightarrow> m tr = (tr', r) \<Longrightarrow> \<exists>cs. tr' = tr @ cs"
  by (metis fst_conv only_def)

section \<open>What a successful program has done\<close>

text \<open>The steps of a run that ends without an error.\<close>

lemma io_bind_Ok: "io_bind m f tr = (tr', Ok y) \<longleftrightarrow> (\<exists>t x. m tr = (t, Ok x) \<and> f x t = (tr', Ok y))"
  by (auto simp: io_bind_def split: prod.splits res.splits)

lemma io_pure_Ok:
  "io_ok x tr = (tr', Ok y) \<longleftrightarrow> tr' = tr \<and> y = x" "io_err e tr \<noteq> (tr', Ok y)" "io_fatal tr \<noteq> (tr', Ok y)"
  "io_res r tr = (tr', Ok y) \<longleftrightarrow> tr' = tr \<and> r = Ok y" "io_ask f tr = (tr', Ok y) \<longleftrightarrow> tr' = tr \<and> y = f tr"
  by (auto simp: io_ok_def io_err_def io_fatal_def io_res_def io_ask_def)

lemma io_wrap_Ok:
  "io_wrap msg m tr = (tr', Ok y) \<longleftrightarrow> m tr = (tr', Ok y)" "io_die m tr = (tr', Ok y) \<longleftrightarrow> m tr = (tr', Ok y)"
  "io_map_err f m tr = (tr', Ok y) \<longleftrightarrow> m tr = (tr', Ok y)"
  by (auto simp: io_wrap_def io_die_def io_map_err_def split: prod.splits res.splits)

lemma io_try_Some: "io_try m tr = (tr', Ok (Some x)) \<longleftrightarrow> m tr = (tr', Ok x)"
  by (auto simp: io_try_def split: prod.splits res.splits)

lemmas io_Ok = io_bind_Ok io_pure_Ok io_wrap_Ok io_try_Some

text \<open>What each step of a loop ensures, and later calls cannot undo, holds for all of them at the end.\<close>

lemma io_fold_each:
  assumes "io_fold f xs s tr = (tr', Ok y)"
    and "\<And>x s. only P (f x s)" and "\<And>x s t t' s'. f x s t = (t', Ok s') \<Longrightarrow> Q x t'"
    and "\<And>x t cs. Q x t \<Longrightarrow> Q x (t @ cs)"
  shows "\<forall>x\<in>set xs. Q x tr'"
  using assms(1)
proof (induction xs arbitrary: s tr)
  case (Cons x xs)
  then obtain t s' where one: "f x s tr = (t, Ok s')" and rest: "io_fold f xs s' t = (tr', Ok y)"
    unfolding io_fold.simps io_bind_Ok by blast
  obtain cs where "tr' = t @ cs" using only_extends [OF only_fold rest] assms(2) by blast
  with assms(4) [OF assms(3) [OF one]] Cons.IH [OF rest] show ?case by simp
qed simp

text \<open>A call was made and answered in a certain way.\<close>

definition answered :: "('c list \<Rightarrow> 'c \<Rightarrow> 'a res) \<Rightarrow> 'c \<Rightarrow> 'a \<Rightarrow> 'c list \<Rightarrow> bool" where
  "answered answer c x tr \<longleftrightarrow> (\<exists>before after. tr = before @ c # after \<and> answer before c = Ok x)"

lemma answered_mono: "answered answer c x tr \<Longrightarrow> answered answer c x (tr @ cs)"
  by (fastforce simp: answered_def)

lemma call_answered: "io_call answer c tr = (tr', Ok x) \<Longrightarrow> answered answer c x tr'"
  by (fastforce simp: answered_def io_call_def)

end
