(* ===== verification/Service.thy ===== *)
theory Service
  imports Moby_Types Go_Path Trace_IO
begin

text \<open>
  What runs the containers at boot: \<^verbatim>\<open>pkg/init/cmd/service\<close> (\<^verbatim>\<open>prepare.go\<close>, \<^verbatim>\<open>runc.go\<close>,
  \<^verbatim>\<open>volumeinit.go\<close>, \<^verbatim>\<open>logging.go\<close> and \<^verbatim>\<open>cmd.go\<close>).  A program that only talks to the system is a
  function on the list of the calls made so far.
\<close>

unbundle bit_operations_syntax

section \<open>System calls\<close>

datatype syscall =
    SMkdirAll string nat
  | SMkdir string nat
  | SMkdirTemp string
  | SMount string string string "64 word" string
  | SUnmount string
  | SCreate string
  | SClose string
  | SOpenWrite string
  | SRemove string
  | SRemoveAll string
  | SMkfifo string
  | SSymlink string string
  | SSocketpair
  | SSocket
  | SSendFd string
  | SSubreaper
  | SLinkAdd string string string "int option"
  | SLinkByName string
  | SLinkSetNsPid string int
  | SExec "string list" string string
  | SWait int
  | SDump string
  | SContainerd string string

datatype read_out = RdOk string | RdNotExist | RdErr string

text \<open>The answers of the system: an error for a call, the contents of files and directories.\<close>

record System =
  sy_err :: "syscall list \<Rightarrow> syscall \<Rightarrow> string option"
  sy_read :: "syscall list \<Rightarrow> string \<Rightarrow> read_out"
  sy_stat :: "syscall list \<Rightarrow> string \<Rightarrow> read_out"
  sy_dir :: "syscall list \<Rightarrow> string \<Rightarrow> (string \<times> bool) list res"
  sy_temp :: string

type_synonym 'a io = "(syscall, 'a) tio"

definition sys :: "System \<Rightarrow> syscall \<Rightarrow> unit io" where
  "sys sy = io_call (\<lambda>tr c. case sy_err sy tr c of None \<Rightarrow> Ok () | Some e \<Rightarrow> Err e)"

definition readFile :: "System \<Rightarrow> string \<Rightarrow> read_out io" where
  "readFile sy p = io_ask (\<lambda>tr. sy_read sy tr p)"

definition statFile :: "System \<Rightarrow> string \<Rightarrow> read_out io" where
  "statFile sy p = io_ask (\<lambda>tr. sy_stat sy tr p)"

definition readDir :: "System \<Rightarrow> string \<Rightarrow> (string \<times> bool) list io" where
  "readDir sy p = (\<lambda>tr. (tr, sy_dir sy tr p))"

section \<open>The runtime configuration\<close>

record BindNamespaces =
  bn_Cgroup :: string
  bn_Ipc :: string
  bn_Mnt :: string
  bn_Net :: string
  bn_Pid :: string
  bn_User :: string
  bn_Uts :: string

record RuntimeConfig =
  rc_Cgroups :: "string list"
  rc_Mounts :: "Mount list"
  rc_Mkdir :: "string list"
  rc_Interfaces :: "Interface list"
  rc_BindNS :: BindNamespaces
  rc_Namespace :: string

definition RuntimeConfig_zero :: RuntimeConfig where
  "RuntimeConfig_zero =
     \<lparr>rc_Cgroups = [], rc_Mounts = [], rc_Mkdir = [], rc_Interfaces = [],
      rc_BindNS = \<lparr>bn_Cgroup = [], bn_Ipc = [], bn_Mnt = [], bn_Net = [], bn_Pid = [], bn_User = [],
                    bn_Uts = []\<rparr>, rc_Namespace = []\<rparr>"

text \<open>The JSON decoder is a parameter.\<close>

definition getRuntimeConfig :: "System \<Rightarrow> (string \<Rightarrow> RuntimeConfig res) \<Rightarrow> string \<Rightarrow> RuntimeConfig io" where
  "getRuntimeConfig sy decode path =
     io_bind (readFile sy (path_join [path, ''runtime.json''])) (\<lambda>r.
       case r of
         RdNotExist \<Rightarrow> io_ok RuntimeConfig_zero
       | RdErr e \<Rightarrow> io_fatal
       | RdOk conf \<Rightarrow> (case decode conf of Ok rt \<Rightarrow> io_ok rt | _ \<Rightarrow> io_fatal))"

section \<open>Mount options\<close>

abbreviation (input) MS_RDONLY :: "64 word" where "MS_RDONLY \<equiv> 1"
abbreviation (input) MS_NOSUID :: "64 word" where "MS_NOSUID \<equiv> 2"
abbreviation (input) MS_NODEV :: "64 word" where "MS_NODEV \<equiv> 4"
abbreviation (input) MS_NOEXEC :: "64 word" where "MS_NOEXEC \<equiv> 8"
abbreviation (input) MS_SYNCHRONOUS :: "64 word" where "MS_SYNCHRONOUS \<equiv> 16"
abbreviation (input) MS_REMOUNT :: "64 word" where "MS_REMOUNT \<equiv> 32"
abbreviation (input) MS_MANDLOCK :: "64 word" where "MS_MANDLOCK \<equiv> 64"
abbreviation (input) MS_DIRSYNC :: "64 word" where "MS_DIRSYNC \<equiv> 128"
abbreviation (input) MS_NOATIME :: "64 word" where "MS_NOATIME \<equiv> 1024"
abbreviation (input) MS_NODIRATIME :: "64 word" where "MS_NODIRATIME \<equiv> 2048"
abbreviation (input) MS_BIND :: "64 word" where "MS_BIND \<equiv> 4096"
abbreviation (input) MS_REC :: "64 word" where "MS_REC \<equiv> 16384"
abbreviation (input) MS_UNBINDABLE :: "64 word" where "MS_UNBINDABLE \<equiv> 131072"
abbreviation (input) MS_PRIVATE :: "64 word" where "MS_PRIVATE \<equiv> 262144"
abbreviation (input) MS_SLAVE :: "64 word" where "MS_SLAVE \<equiv> 524288"
abbreviation (input) MS_SHARED :: "64 word" where "MS_SHARED \<equiv> 1048576"
abbreviation (input) MS_RELATIME :: "64 word" where "MS_RELATIME \<equiv> 2097152"
abbreviation (input) MS_STRICTATIME :: "64 word" where "MS_STRICTATIME \<equiv> 16777216"

definition mountFlags :: "(string \<times> bool \<times> 64 word) list" where
  "mountFlags =
     [(''async'', True, MS_SYNCHRONOUS), (''atime'', True, MS_NOATIME), (''bind'', False, MS_BIND),
      (''defaults'', False, 0), (''dev'', True, MS_NODEV), (''diratime'', True, MS_NODIRATIME),
      (''dirsync'', False, MS_DIRSYNC), (''exec'', True, MS_NOEXEC), (''mand'', False, MS_MANDLOCK),
      (''noatime'', False, MS_NOATIME), (''nodev'', False, MS_NODEV),
      (''nodiratime'', False, MS_NODIRATIME), (''noexec'', False, MS_NOEXEC),
      (''nomand'', True, MS_MANDLOCK), (''norelatime'', True, MS_RELATIME),
      (''nostrictatime'', True, MS_STRICTATIME), (''nosuid'', False, MS_NOSUID),
      (''private'', False, MS_PRIVATE), (''rbind'', False, MS_BIND OR MS_REC),
      (''relatime'', False, MS_RELATIME), (''remount'', False, MS_REMOUNT), (''ro'', False, MS_RDONLY),
      (''rw'', True, MS_RDONLY), (''shared'', False, MS_SHARED), (''slave'', False, MS_SLAVE),
      (''strictatime'', False, MS_STRICTATIME), (''suid'', True, MS_NOSUID),
      (''sync'', False, MS_SYNCHRONOUS), (''unbindable'', False, MS_UNBINDABLE)]"

definition mountOption :: "string \<Rightarrow> 64 word \<times> string list \<Rightarrow> 64 word \<times> string list" where
  "mountOption opt st =
     (case st of (flag, data) \<Rightarrow>
      case map_of mountFlags opt of
        Some (clear, f) \<Rightarrow>
          if f \<noteq> 0 then (if clear then flag AND NOT f else flag OR f, data) else (flag, data @ [opt])
      | None \<Rightarrow> (flag, data @ [opt]))"

definition parseMountOptions :: "string list \<Rightarrow> 64 word \<times> string" where
  "parseMountOptions options =
     (case fold mountOption options (0, []) of (flag, data) \<Rightarrow> (flag, join '','' data))"

section \<open>Preparing a container\<close>

definition isCgroupV2 :: "System \<Rightarrow> bool io" where
  "isCgroupV2 sy =
     io_bind (statFile sy ''/sys/fs/cgroup/cgroup.controllers'') (\<lambda>r.
       case r of RdOk _ \<Rightarrow> io_ok True | RdNotExist \<Rightarrow> io_ok False | RdErr e \<Rightarrow> io_err e)"

definition newCgroup :: "System \<Rightarrow> string \<Rightarrow> unit io" where
  "newCgroup sy cgroup =
     io_bind (isCgroupV2 sy) (\<lambda>v2.
       if v2 then io_ignore (sys sy (SMkdirAll (path_join [''/sys/fs/cgroup'', cgroup]) 493))
       else io_bind (readDir sy ''/sys/fs/cgroup'') (io_loop (\<lambda>(name, isDir).
              if isDir then io_ignore (sys sy (SMkdirAll (path_join [''/sys/fs/cgroup'', name, cgroup]) 493))
              else io_ok ())))"

definition makeAbsolute :: "string \<Rightarrow> string \<Rightarrow> string" where
  "makeAbsolute path dir = (if rooted dir then dir else path_join [path_join [path, ''rootfs''], dir])"

definition overlayDir :: "System \<Rightarrow> string \<Rightarrow> unit io" where
  "overlayDir sy opt =
     (case splitN 2 (CHR ''='') opt of
        [k, v] \<Rightarrow>
          if k = ''upperdir'' \<or> k = ''workdir''
          then io_wrap (''Cannot create directory for overlay '' @ k @ ''='' @ v @ '': '')
                 (sys sy (SMkdirAll v 493))
          else io_ok ()
      | _ \<Rightarrow> io_ok ())"

definition doMount :: "System \<Rightarrow> string \<Rightarrow> Mount \<Rightarrow> unit io" where
  "doMount sy path mnt =
     (let dir = makeAbsolute path (mnt_Destination mnt) in
      io_bind (io_wrap (''Cannot create directory for mount destination '' @ dir @ '': '')
                 (sys sy (SMkdirAll dir 493))) (\<lambda>_.
      io_bind (io_loop (overlayDir sy) (mnt_Options mnt)) (\<lambda>_.
        case parseMountOptions (mnt_Options mnt) of (opts, data) \<Rightarrow>
          io_wrap (''Failed to mount '' @ mnt_Source mnt @ '': '')
            (sys sy (SMount (mnt_Source mnt) dir (mnt_Type mnt) opts data)))))"

definition prepareFilesystem :: "System \<Rightarrow> string \<Rightarrow> RuntimeConfig \<Rightarrow> unit io" where
  "prepareFilesystem sy path rt =
     io_bind (io_loop (doMount sy path) (rc_Mounts rt)) (\<lambda>_.
     io_bind (io_loop (\<lambda>dir.
        let dir = makeAbsolute path dir in
        io_wrap (''Cannot create directory '' @ dir @ '': '') (sys sy (SMkdirAll dir 493))) (rc_Mkdir rt)) (\<lambda>_.
     io_loop (\<lambda>cgroup. io_wrap (''Cannot create cgroup '' @ cgroup @ '': '') (newCgroup sy cgroup))
       (rc_Cgroups rt)))"

text \<open>\<^verbatim>\<open>%d\<close> of a process number.\<close>

definition fmt_int :: "int \<Rightarrow> string" where
  "fmt_int i = (if i < 0 then ''-'' else []) @ dec_digits (nat \<bar>i\<bar>)"

definition bindNS :: "System \<Rightarrow> string \<Rightarrow> string \<Rightarrow> int \<Rightarrow> unit io" where
  "bindNS sy ns path pid =
     (if path = [] then io_ok ()
      else
        io_bind (io_wrap (''Cannot create leading directories '' @ path_dir path @
            '' for bind mount destination: '') (sys sy (SMkdirAll (path_dir path) 493))) (\<lambda>_.
        io_bind (io_wrap (''Cannot create a mount point for namespace bind at '' @ path @ '': '')
            (sys sy (SCreate path))) (\<lambda>_.
        io_bind (sys sy (SClose path)) (\<lambda>_.
        io_wrap (''Failed to bind '' @ ns @ '' namespace at '' @ path @ '': '')
            (sys sy (SMount (''/proc/'' @ fmt_int pid @ ''/ns/'' @ ns) path [] MS_BIND []))))))"

definition prepareInterface :: "System \<Rightarrow> int \<Rightarrow> Interface \<Rightarrow> unit io" where
  "prepareInterface sy pid ifc =
     (if ifc_Name ifc = [] then io_err ''Interface requires a name''
      else
        let add = (if ifc_Peer ifc \<noteq> [] \<and> ifc_Add ifc = [] then ''veth'' else ifc_Add ifc);
            inRoot = (ifc_CreateInRoot ifc \<or> add = ''veth'');
            ns = (if inRoot then None else Some pid) in
        io_bind
          (if add \<noteq> [] then
             if add = ''veth'' \<and> ifc_Peer ifc = []
             then io_err (''Creating a veth pair '' @ ifc_Name ifc @ '' requires a peer to be set'')
             else io_wrap (''Link add '' @ ifc_Name ifc @ '' of type '' @ add @ '' failed: '')
                    (sys sy (SLinkAdd (ifc_Name ifc) add (if add = ''veth'' then ifc_Peer ifc else []) ns))
           else io_wrap (''Cannot find interface '' @ ifc_Name ifc @ '': '')
                  (sys sy (SLinkByName (ifc_Name ifc))))
          (\<lambda>_. if inRoot \<or> add = []
               then io_wrap (''Cannot move interface '' @ ifc_Name ifc @ '' into namespace: '')
                      (sys sy (SLinkSetNsPid (ifc_Name ifc) pid))
               else io_ok ()))"

definition nsBinds :: "BindNamespaces \<Rightarrow> (string \<times> string) list" where
  "nsBinds b =
     [(''cgroup'', bn_Cgroup b), (''ipc'', bn_Ipc b), (''mnt'', bn_Mnt b), (''net'', bn_Net b),
      (''pid'', bn_Pid b), (''user'', bn_User b), (''uts'', bn_Uts b)]"

definition prepareProcess :: "System \<Rightarrow> int \<Rightarrow> RuntimeConfig \<Rightarrow> unit io" where
  "prepareProcess sy pid rt =
     io_bind (io_loop (prepareInterface sy pid) (rc_Interfaces rt)) (\<lambda>_.
       io_loop (\<lambda>(ns, path). bindNS sy ns path pid) (nsBinds (rc_BindNS rt)))"

definition cleanup :: "System \<Rightarrow> string \<Rightarrow> unit io" where
  "cleanup sy path = io_ignore (sys sy (SUnmount (path_join [path, ''rootfs''])))"

section \<open>Logs\<close>

datatype log = FileLog string | RemoteLog string

definition logWriteSocket :: string where
  "logWriteSocket = ''/var/run/linuxkit-external-logging.sock''"

definition GetLog :: "System \<Rightarrow> string \<Rightarrow> log io" where
  "GetLog sy logDir =
     io_bind (statFile sy logWriteSocket) (\<lambda>r.
       case r of RdNotExist \<Rightarrow> io_ok (FileLog logDir) | _ \<Rightarrow> io_ok (RemoteLog ''/var/run''))"

definition localPath :: "string \<Rightarrow> string \<Rightarrow> string" where
  "localPath dir n = path_join [dir, n @ ''.log'']"

definition sendToLogger :: "System \<Rightarrow> string \<Rightarrow> unit io" where
  "sendToLogger sy name =
     io_bind (sys sy SSocket) (\<lambda>_.
       io_error_as ''logging system not enabled'' (sys sy (SSendFd name)))"

text \<open>
  The path of a log for containerd.  For the remote log a FIFO is made; a goroutine then hands its
  other end to the logger, which happens once the container opens it.
\<close>

definition fileLog_Path :: "System \<Rightarrow> string \<Rightarrow> string \<Rightarrow> string io" where
  "fileLog_Path sy dir n =
     (\<lambda>tr. case sys sy (SCreate (localPath dir n)) tr of
        (tr', Ok _) \<Rightarrow> (tr', Ok (localPath dir n)) | (tr', _) \<Rightarrow> (tr', Ok ''/dev/null''))"

definition remoteLog_Path :: "System \<Rightarrow> string \<Rightarrow> string \<Rightarrow> string io" where
  "remoteLog_Path sy dir n =
     (let path = path_join [dir, n @ ''.log''] in
      io_bind (statFile sy path) (\<lambda>r.
      io_bind (case r of RdOk _ \<Rightarrow> io_ignore (sys sy (SRemove path)) | _ \<Rightarrow> io_ok ()) (\<lambda>_ tr.
        case sys sy (SMkfifo path) tr of
          (tr', Ok _) \<Rightarrow> (tr', Ok path)
        | (tr', _) \<Rightarrow> (tr', Ok ''/dev/null''))))"

definition log_Path :: "System \<Rightarrow> log \<Rightarrow> string \<Rightarrow> string io" where
  "log_Path sy lg n =
     (case lg of FileLog dir \<Rightarrow> fileLog_Path sy dir n | RemoteLog dir \<Rightarrow> remoteLog_Path sy dir n)"

definition fileLog_Open :: "System \<Rightarrow> string \<Rightarrow> string \<Rightarrow> unit io" where
  "fileLog_Open sy dir n = sys sy (SOpenWrite (localPath dir n))"

definition remoteLog_Open :: "System \<Rightarrow> string \<Rightarrow> unit io" where
  "remoteLog_Open sy n = io_bind (io_die (sys sy SSocketpair)) (\<lambda>_. sendToLogger sy n)"

definition log_Open :: "System \<Rightarrow> log \<Rightarrow> string \<Rightarrow> unit io" where
  "log_Open sy lg n =
     (case lg of FileLog dir \<Rightarrow> fileLog_Open sy dir n | RemoteLog _ \<Rightarrow> remoteLog_Open sy n)"

text \<open>A dump is one call: copying the file, or asking the logger and printing its answer.\<close>

definition log_Dump :: "System \<Rightarrow> log \<Rightarrow> string \<Rightarrow> unit io" where
  "log_Dump sy lg n =
     io_ignore (sys sy (SDump (case lg of FileLog dir \<Rightarrow> localPath dir n | RemoteLog _ \<Rightarrow> n)))"

text \<open>The lines of the logger's answer that the dump of a log prints.\<close>

definition remoteDump :: "string \<Rightarrow> string list \<Rightarrow> string list" where
  "remoteDump n lines =
     filter (\<lambda>line.
       let csv = split_on (CHR '','') (hd (splitN 2 (CHR '';'') line)) in
       \<not> length csv < 2 \<and> csv ! 1 = n) lines"

definition log_Symlink :: "System \<Rightarrow> log \<Rightarrow> string \<Rightarrow> unit io" where
  "log_Symlink sy lg path =
     (case lg of
        FileLog dir \<Rightarrow>
          io_ignore (io_bind (sys sy (SMkdirAll (path_dir path) 493)) (\<lambda>_. sys sy (SSymlink dir path)))
      | RemoteLog _ \<Rightarrow> io_ok ())"

section \<open>Running the containers of a section with runc\<close>

abbreviation runcBinary :: string where "runcBinary \<equiv> ''/usr/bin/runc''"

definition runc :: "bool \<Rightarrow> string list \<Rightarrow> string list" where
  "runc debug args = runcBinary # (if debug then [''--debug''] else []) @ args"

text \<open>\<^verbatim>\<open>strconv.Atoi\<close> of the contents of the pid file.\<close>

definition readPid :: "System \<Rightarrow> string \<Rightarrow> int io" where
  "readPid sy pidfile =
     io_bind (readFile sy pidfile) (\<lambda>r.
       case r of
         RdOk pf \<Rightarrow> (case ParseInt pf 10 64 of
                       Ok pid \<Rightarrow> io_ok pid | _ \<Rightarrow> io_err ''Cannot parse pid from pidfile'')
       | RdNotExist \<Rightarrow> io_err ''Cannot read pidfile''
       | RdErr e \<Rightarrow> io_err ''Cannot read pidfile'')"

record runcOpts =
  ro_debug :: bool
  ro_console :: bool
  ro_tmpdir :: string
  ro_log :: log

text \<open>
  The body of the loop for one container; an error makes the loop go on with the next one.  Waiting
  for the process is started before the container is, and ends after it.
\<close>

definition runContainer ::
  "System \<Rightarrow> (string \<Rightarrow> RuntimeConfig res) \<Rightarrow> runcOpts \<Rightarrow> string \<Rightarrow> string \<Rightarrow> string \<Rightarrow> unit io" where
  "runContainer sy decode opts rootPath serviceType name =
     (let path = path_join [rootPath, name];
          pidfile = path_join [ro_tmpdir opts, name];
          out = serviceType @ ''.'' @ name @ ''.out''; err = serviceType @ ''.'' @ name in
      io_bind (getRuntimeConfig sy decode path) (\<lambda>rt.
      io_bind (prepareFilesystem sy path rt) (\<lambda>_.
      io_bind (log_Open sy (ro_log opts) out) (\<lambda>_.
      io_bind (log_Open sy (ro_log opts) err) (\<lambda>_.
      io_bind (sys sy (SExec (runc (ro_debug opts)
                 [''create'', ''--bundle'', path, ''--pid-file'', pidfile, name])
                 (if ro_console opts then ''stdout'' else out) (if ro_console opts then ''stderr'' else err))) (\<lambda>_.
      io_bind (readPid sy pidfile) (\<lambda>pid.
      io_bind (prepareProcess sy pid rt) (\<lambda>_.
      io_bind (sys sy (SExec (runc (ro_debug opts) [''start'', name]) out err)) (\<lambda>_.
      io_bind (io_ignore (sys sy (SWait pid))) (\<lambda>_.
      io_bind (cleanup sy path) (\<lambda>_.
      io_bind (io_ignore (sys sy (SRemove pidfile))) (\<lambda>_.
      io_bind (log_Dump sy (ro_log opts) out) (\<lambda>_.
        log_Dump sy (ro_log opts) err)))))))))))))"

fun runcLoop :: "('a \<Rightarrow> unit io) \<Rightarrow> 'a list \<Rightarrow> nat \<Rightarrow> nat io" where
  "runcLoop f [] status = io_ok status"
| "runcLoop f (x # xs) status =
     (\<lambda>tr. case f x tr of
        (tr', Ok _) \<Rightarrow> runcLoop f xs status tr'
      | (tr', Err _) \<Rightarrow> runcLoop f xs 1 tr'
      | (tr', Panic) \<Rightarrow> (tr', Panic))"

definition runcInit ::
  "System \<Rightarrow> (string \<Rightarrow> RuntimeConfig res) \<Rightarrow> string \<Rightarrow> string \<Rightarrow> nat io" where
  "runcInit sy decode rootPath serviceType =
     io_bind (statFile sy rootPath) (\<lambda>r. if r = RdNotExist then io_ok 0 else
     io_bind (io_die (readDir sy rootPath)) (\<lambda>files.
     io_bind (io_die (sys sy (SMkdirTemp (path_base rootPath)))) (\<lambda>_.
     io_bind (io_die (sys sy SSubreaper)) (\<lambda>_.
     io_bind (io_die (sys sy (SMkdirAll (path_join [''/run/log/'', serviceType]) 493))) (\<lambda>_.
     io_bind (GetLog sy (path_join [''/run/log/'', serviceType])) (\<lambda>logger.
     io_bind (io_die (isCgroupV2 sy)) (\<lambda>v2.
     io_bind (readFile sy ''/proc/cmdline'') (\<lambda>dt. case dt of RdOk dt \<Rightarrow>
       (let opts = \<lparr>ro_debug = (''linuxkit.runc_debug=1'' \<in> set (Prelude.fields dt)),
                    ro_console = (''linuxkit.runc_console=1'' \<in> set (Prelude.fields dt)),
                    ro_tmpdir = sy_temp sy, ro_log = logger\<rparr> in
        io_bind (runcLoop (runContainer sy decode opts rootPath serviceType) (map fst files) 0) (\<lambda>status.
        io_bind (io_ignore (sys sy (SRemoveAll (sy_temp sy)))) (\<lambda>_.
        io_bind (log_Symlink sy logger (path_join [''/var/log'', serviceType])) (\<lambda>_.
          io_ok status))))
       | _ \<Rightarrow> io_fatal))))))))"

section \<open>Mounting volumes\<close>

text \<open>The exit code of the command for one volume, as an error when it is not zero.\<close>

definition volumeInit :: "System \<Rightarrow> string \<Rightarrow> string \<Rightarrow> unit io" where
  "volumeInit sy path vol =
     io_bind (readDir sy (path_join [path, vol])) (\<lambda>subs.
      let names = map fst subs; dir = \<lambda>d. path_join [path, vol, d];
          tmpDir = dir ''tmp''; workDir = path_join [tmpDir, ''work'']; upperDir = path_join [tmpDir, ''upper''] in
      if ''merged'' \<notin> set names then io_err (''Volume '' @ vol @ '' does not have a merged directory'')
      else if ''lower'' \<notin> set names then io_err (''Volume '' @ vol @ '' does not have a lower directory'')
      else
        io_bind (sys sy (SMount ''tmpfs'' tmpDir ''tmpfs'' MS_RELATIME [])) (\<lambda>_.
        io_bind (sys sy (SMkdir upperDir 493)) (\<lambda>_.
        io_bind (sys sy (SMkdir workDir 493)) (\<lambda>_.
          sys sy (SMount ''overlay'' (dir ''merged'') ''overlay'' MS_RELATIME
            (join '','' ([''lowerdir='' @ dir ''lower'', ''upperdir='' @ upperDir, ''workdir='' @ workDir] @
               (if ''tmp'' \<in> set names then [] else [''ro'']))))))))"

definition volumeInitCmd :: "System \<Rightarrow> string \<Rightarrow> nat io" where
  "volumeInitCmd sy path =
     (\<lambda>tr. case io_bind (readDir sy path) (\<lambda>vols. io_loop (\<lambda>(vol, _). volumeInit sy path vol) vols) tr of
        (tr', Ok _) \<Rightarrow> (tr', Ok 0) | (tr', Err _) \<Rightarrow> (tr', Ok 1) | (tr', Panic) \<Rightarrow> (tr', Panic))"

section \<open>Starting and stopping a service with containerd\<close>

text \<open>
  The calls of the containerd client are named after its methods; the message that goes with an
  error comes first.
\<close>

definition svc_stop :: "System \<Rightarrow> (string \<Rightarrow> RuntimeConfig res) \<Rightarrow> string \<Rightarrow> string \<Rightarrow> unit io" where
  "svc_stop sy decode service basePath =
     io_bind (getRuntimeConfig sy decode (path_join [basePath, service])) (\<lambda>rt.
     let ns = rc_Namespace rt; call = \<lambda>msg m. io_wrap (msg @ '': '') (sys sy (SContainerd ns (m @ '' '' @ service))) in
     io_bind (io_wrap ''creating containerd client: '' (sys sy (SContainerd [] ''New''))) (\<lambda>_.
     io_bind (call ''loading container'' ''LoadContainer'') (\<lambda>_.
     io_bind (call ''fetching task'' ''Task'') (\<lambda>_.
     io_bind (call ''killing task'' ''Kill 9'') (\<lambda>_.
     io_bind (call ''waiting for task to exit'' ''Wait'') (\<lambda>_.
     io_bind (call ''deleting task'' ''Task.Delete'') (\<lambda>_.
       call ''deleting container'' ''Delete'')))))))"

definition svc_start ::
  "System \<Rightarrow> (string \<Rightarrow> RuntimeConfig res) \<Rightarrow> (string \<Rightarrow> string \<Rightarrow> string res) \<Rightarrow> (syscall list \<Rightarrow> int) \<Rightarrow>
    string \<Rightarrow> string \<Rightarrow> string \<Rightarrow> unit io" where
  "svc_start sy decode setRoot taskPid service basePath dumpSpec =
     (let path = path_join [basePath, service] in
     io_bind (getRuntimeConfig sy decode path) (\<lambda>rt.
     let ns = rc_Namespace rt in
     io_bind (io_wrap ''preparing filesystem: '' (prepareFilesystem sy path rt)) (\<lambda>_.
     io_bind (io_wrap ''creating containerd client: '' (sys sy (SContainerd [] ''New''))) (\<lambda>_.
     io_bind (readFile sy (path_join [path, ''config.json''])) (\<lambda>specf. case specf of RdOk conf \<Rightarrow>
       (case setRoot (path_join [path, ''rootfs'']) conf of Ok spec \<Rightarrow>
         io_bind (if dumpSpec \<noteq> []
                  then io_bind (io_wrap ''failed to open file for spec dump: '' (sys sy (SCreate dumpSpec))) (\<lambda>_.
                         io_wrap ''failed to write spec dump: '' (sys sy (SOpenWrite dumpSpec)))
                  else io_ok ()) (\<lambda>_.
         io_bind (io_wrap ''failed to create container: ''
                    (sys sy (SContainerd ns (''NewContainer '' @ service @ '' '' @ spec)))) (\<lambda>_.
         io_bind (GetLog sy ''/var/log'') (\<lambda>logger.
         io_bind (log_Path sy logger (service @ ''.out'')) (\<lambda>stdoutFile.
         io_bind (log_Path sy logger service) (\<lambda>stderrFile.
         io_bind (io_wrap ''failed to create task: ''
                    (sys sy (SContainerd ns (''NewTask '' @ service @ '' '' @ stdoutFile @ '' '' @ stderrFile)))) (\<lambda>_ tr.
         io_bind (io_wrap ''preparing process: '' (prepareProcess sy (taskPid tr) rt)) (\<lambda>_.
           io_wrap ''failed to start task: '' (sys sy (SContainerd ns (''Start '' @ service)))) tr))))))
       | Err e \<Rightarrow> io_err (''failed to parse service spec: '' @ e)
       | Panic \<Rightarrow> io_fatal)
     | RdNotExist \<Rightarrow> io_err ''failed to read service spec: file does not exist''
     | RdErr e \<Rightarrow> io_err (''failed to read service spec: '' @ e))))))"

section \<open>Scripts of calls\<close>

text \<open>
  A program that makes a fixed list of calls and stops at the first one that fails.
\<close>

fun run_script :: "System \<Rightarrow> syscall list \<Rightarrow> syscall list \<Rightarrow> syscall list \<times> bool" where
  "run_script sy [] tr = (tr, True)"
| "run_script sy (c # cs) tr =
     (if sy_err sy tr c = None then run_script sy cs (tr @ [c]) else (tr @ [c], False))"

definition scripted :: "System \<Rightarrow> unit io \<Rightarrow> syscall list \<Rightarrow> bool" where
  "scripted sy m cs \<longleftrightarrow>
     (\<forall>tr. if snd (run_script sy cs tr) then m tr = (fst (run_script sy cs tr), Ok ())
           else \<exists>e. m tr = (fst (run_script sy cs tr), Err e))"

lemma run_script_append:
  "run_script sy (a @ b) tr = (case run_script sy a tr of (tr', ok) \<Rightarrow> if ok then run_script sy b tr' else (tr', False))"
  by (induction a arbitrary: tr) auto

lemma scripted_ok: "scripted sy (io_ok ()) []"
  by (simp add: scripted_def io_ok_def)

lemma scripted_sys: "scripted sy (sys sy c) [c]"
  by (auto simp: scripted_def sys_def io_call_def)

lemma scriptedE:
  assumes "scripted sy m cs"
  obtains (ok) tr' where "run_script sy cs tr = (tr', True)" "m tr = (tr', Ok ())"
    | (err) tr' e where "run_script sy cs tr = (tr', False)" "m tr = (tr', Err e)"
proof -
  obtain tr' b where r: "run_script sy cs tr = (tr', b)" by (cases "run_script sy cs tr")
  from assms have "if b then m tr = (tr', Ok ()) else \<exists>e. m tr = (tr', Err e)"
    unfolding scripted_def by (metis r fst_conv snd_conv)
  with r ok err show thesis by (cases b) auto
qed

lemma scriptedI:
  assumes "\<And>tr tr'. run_script sy cs tr = (tr', True) \<Longrightarrow> m tr = (tr', Ok ())"
    and "\<And>tr tr'. run_script sy cs tr = (tr', False) \<Longrightarrow> \<exists>e. m tr = (tr', Err e)"
  shows "scripted sy m cs"
  unfolding scripted_def
proof
  fix tr
  obtain tr' b where r: "run_script sy cs tr = (tr', b)" by (cases "run_script sy cs tr")
  then show "if snd (run_script sy cs tr) then m tr = (fst (run_script sy cs tr), Ok ())
      else \<exists>e. m tr = (fst (run_script sy cs tr), Err e)"
    using assms [of tr tr'] by (cases b) simp_all
qed

lemma scripted_bind:
  assumes "scripted sy a ca" and "scripted sy b cb"
  shows "scripted sy (io_bind a (\<lambda>_. b)) (ca @ cb)"
proof (rule scriptedI)
  fix tr tr'
  assume "run_script sy (ca @ cb) tr = (tr', True)"
  with assms(1) obtain t where "a tr = (t, Ok ())" "run_script sy cb t = (tr', True)"
    by (cases rule: scriptedE [of sy a ca tr]) (auto simp: run_script_append)
  with assms(2) show "io_bind a (\<lambda>_. b) tr = (tr', Ok ())"
    by (cases rule: scriptedE [of sy b cb t]) (auto simp: io_bind_def)
next
  fix tr tr'
  assume *: "run_script sy (ca @ cb) tr = (tr', False)"
  show "\<exists>e. io_bind a (\<lambda>_. b) tr = (tr', Err e)"
  proof (cases rule: scriptedE [OF assms(1), of tr])
    case (1 t)
    with * have "run_script sy cb t = (tr', False)" by (simp add: run_script_append)
    with assms(2) 1(2) show ?thesis
      by (cases rule: scriptedE [of sy b cb t]) (auto simp: io_bind_def)
  next
    case (2 t e)
    with * show ?thesis by (simp add: run_script_append io_bind_def)
  qed
qed

lemma scripted_wrap:
  assumes "scripted sy m cs"
  shows "scripted sy (io_wrap msg m) cs"
proof (rule scriptedI)
  fix tr tr'
  show "run_script sy cs tr = (tr', True) \<Longrightarrow> io_wrap msg m tr = (tr', Ok ())"
    by (cases rule: scriptedE [OF assms, of tr]) (auto simp: io_wrap_def)
  show "run_script sy cs tr = (tr', False) \<Longrightarrow> \<exists>e. io_wrap msg m tr = (tr', Err e)"
    by (cases rule: scriptedE [OF assms, of tr]) (auto simp: io_wrap_def)
qed

lemma scripted_loop:
  assumes "\<And>x. x \<in> set xs \<Longrightarrow> scripted sy (f x) (g x)"
  shows "scripted sy (io_loop f xs) (concat (map g xs))"
  using assms by (induction xs) (simp_all add: scripted_ok scripted_bind)

lemma run_script_True: "run_script sy cs tr = (t, True) \<Longrightarrow> t = tr @ cs"
proof (induction cs arbitrary: tr)
  case (Cons c cs)
  then have "run_script sy cs (tr @ [c]) = (t, True)" by (auto split: if_splits)
  from Cons.IH [OF this] show ?case by simp
qed simp

lemma scripted_calls:
  assumes "scripted sy m cs" and "m tr = (tr', Ok ())"
  shows "tr' = tr @ cs"
  using assms(2) run_script_True [of sy cs tr]
  by (cases rule: scriptedE [OF assms(1), of tr]) auto

text \<open>The calls that prepare the file system of a container.\<close>

definition overlayCalls :: "string \<Rightarrow> syscall list" where
  "overlayCalls opt =
     (case splitN 2 (CHR ''='') opt of
        [k, v] \<Rightarrow> if k = ''upperdir'' \<or> k = ''workdir'' then [SMkdirAll v 493] else []
      | _ \<Rightarrow> [])"

definition mountCalls :: "string \<Rightarrow> Mount \<Rightarrow> syscall list" where
  "mountCalls path m =
     (let dir = makeAbsolute path (mnt_Destination m) in
      SMkdirAll dir 493 # concat (map overlayCalls (mnt_Options m)) @
      [SMount (mnt_Source m) dir (mnt_Type m) (fst (parseMountOptions (mnt_Options m)))
         (snd (parseMountOptions (mnt_Options m)))])"

lemma scripted_overlay: "scripted sy (overlayDir sy opt) (overlayCalls opt)"
  by (auto simp: overlayDir_def overlayCalls_def scripted_ok intro!: scripted_wrap scripted_sys
      split: list.splits)

lemma scripted_mount: "scripted sy (doMount sy path m) (mountCalls path m)"
proof -
  let ?dir = "makeAbsolute path (mnt_Destination m)"
  have "scripted sy (doMount sy path m)
      ([SMkdirAll ?dir 493] @ concat (map overlayCalls (mnt_Options m)) @
       [SMount (mnt_Source m) ?dir (mnt_Type m) (fst (parseMountOptions (mnt_Options m)))
         (snd (parseMountOptions (mnt_Options m)))])"
    unfolding doMount_def Let_def case_prod_beta
    by (intro scripted_bind scripted_wrap scripted_sys scripted_loop scripted_overlay)
  then show ?thesis by (simp add: mountCalls_def Let_def)
qed

definition fsCalls :: "string \<Rightarrow> RuntimeConfig \<Rightarrow> syscall list" where
  "fsCalls path rt =
     concat (map (mountCalls path) (rc_Mounts rt)) @
     map (\<lambda>dir. SMkdirAll (makeAbsolute path dir) 493) (rc_Mkdir rt)"

lemma scripted_prepareFilesystem:
  assumes "rc_Cgroups rt = []"
  shows "scripted sy (prepareFilesystem sy path rt) (fsCalls path rt)"
proof -
  have mk: "scripted sy (io_loop (\<lambda>dir. let dir = makeAbsolute path dir in
        io_wrap (''Cannot create directory '' @ dir @ '': '') (sys sy (SMkdirAll dir 493))) (rc_Mkdir rt))
      (concat (map (\<lambda>dir. [SMkdirAll (makeAbsolute path dir) 493]) (rc_Mkdir rt)))"
    by (intro scripted_loop) (simp add: Let_def scripted_wrap scripted_sys)
  have "scripted sy (prepareFilesystem sy path rt)
      (concat (map (mountCalls path) (rc_Mounts rt)) @
       concat (map (\<lambda>dir. [SMkdirAll (makeAbsolute path dir) 493]) (rc_Mkdir rt)) @ [])"
    unfolding prepareFilesystem_def assms io_loop.simps(1)
    by (intro scripted_bind scripted_loop scripted_mount mk scripted_ok)
  moreover have "concat (map (\<lambda>dir. [h dir]) xs) = map h xs" for h :: "string \<Rightarrow> syscall" and xs
    by (induction xs) simp_all
  ultimately show ?thesis by (simp add: fsCalls_def)
qed

section \<open>Mount flags\<close>

text \<open>Whether an option changes a bit of the flags, and to what.\<close>

definition optBit :: "string \<Rightarrow> nat \<Rightarrow> bool option" where
  "optBit opt n =
     (case map_of mountFlags opt of
        Some (clear, f) \<Rightarrow> if bit f n then Some (\<not> clear) else None
      | None \<Rightarrow> None)"

definition isFlag :: "string \<Rightarrow> bool" where
  "isFlag opt = (case map_of mountFlags opt of Some (_, f) \<Rightarrow> f \<noteq> 0 | None \<Rightarrow> False)"

lemma mountOption_bit:
  "n < 64 \<Longrightarrow> bit (fst (mountOption opt (flag, data))) n =
     (case optBit opt n of Some b \<Rightarrow> b | None \<Rightarrow> bit flag n)"
  by (auto simp: mountOption_def optBit_def bit_simps split: option.splits prod.splits)

lemma mountOption_data:
  "snd (mountOption opt (flag, data)) = (if isFlag opt then data else data @ [opt])"
  by (auto simp: mountOption_def isFlag_def split: option.splits prod.splits)

lemma mountOptions_fold:
  "n < 64 \<Longrightarrow> bit (fst (fold mountOption opts (flag, data))) n =
     last (bit flag n # List.map_filter (\<lambda>opt. optBit opt n) opts) \<and>
   snd (fold mountOption opts (flag, data)) = data @ filter (\<lambda>opt. \<not> isFlag opt) opts"
proof (induction opts arbitrary: flag data)
  case Nil
  then show ?case by (simp add: map_filter_simps)
next
  case (Cons opt opts)
  obtain f d where fd: "mountOption opt (flag, data) = (f, d)" by (cases "mountOption opt (flag, data)")
  from mountOption_bit [OF Cons.prems, of opt flag data] mountOption_data [of opt flag data] Cons.IH [OF Cons.prems, of f d]
  show ?case by (auto simp: fd map_filter_simps split: option.splits)
qed

text \<open>
  C37.  Mount options are read as \<^verbatim>\<open>fstab\<close> means them: each bit of the flags is what the last option
  that touches it says, and is zero when none does, and every option that is not a flag is passed
  on to the file system, in order.
\<close>

theorem parseMountOptions_last_wins:
  assumes "parseMountOptions opts = (flag, data)"
  shows "(\<forall>n<64. bit flag n = last (False # List.map_filter (\<lambda>opt. optBit opt n) opts)) \<and>
    data = join '','' (filter (\<lambda>opt. \<not> isFlag opt) opts)"
proof -
  obtain f d where fd: "fold mountOption opts (0, []) = (f, d)" by (cases "fold mountOption opts (0, [])")
  have "d = filter (\<lambda>opt. \<not> isFlag opt) opts"
    using mountOptions_fold [of 0 opts 0 "[]"] by (simp add: fd)
  moreover have "bit f n = last (False # List.map_filter (\<lambda>opt. optBit opt n) opts)" if "n < 64" for n
    using mountOptions_fold [OF that, of opts 0 "[]"] by (simp add: fd)
  ultimately show ?thesis using assms by (auto simp: parseMountOptions_def fd)
qed

theorem parseMountOptions_last_wins_witness:
  "\<exists>flag data. parseMountOptions [''nosuid'', ''ro'', ''size=10%'', ''rw''] = (flag, data) \<and>
     bit flag 1 \<and> \<not> bit flag 0 \<and> data = ''size=10%''"
proof -
  obtain flag data where p: "parseMountOptions [''nosuid'', ''ro'', ''size=10%'', ''rw''] = (flag, data)"
    by (cases "parseMountOptions [''nosuid'', ''ro'', ''size=10%'', ''rw'']")
  have m: "map_of mountFlags ''nosuid'' = Some (False, 2)" "map_of mountFlags ''ro'' = Some (False, 1)"
    "map_of mountFlags ''rw'' = Some (True, 1)" "map_of mountFlags ''size=10%'' = None"
    by (simp_all add: mountFlags_def)
  have b: "bit (1 :: 64 word) 0" "\<not> bit (2 :: 64 word) 0" "bit (2 :: 64 word) 1" "\<not> bit (1 :: 64 word) 1"
    by (simp_all add: bit_simps)
  from parseMountOptions_last_wins [OF p] have
    "bit flag 1 = last (False # List.map_filter (\<lambda>opt. optBit opt 1) [''nosuid'', ''ro'', ''size=10%'', ''rw''])"
    "bit flag 0 = last (False # List.map_filter (\<lambda>opt. optBit opt 0) [''nosuid'', ''ro'', ''size=10%'', ''rw''])"
    "data = join '','' (filter (\<lambda>opt. \<not> isFlag opt) [''nosuid'', ''ro'', ''size=10%'', ''rw''])"
    by simp_all
  then have "bit flag 1" "\<not> bit flag 0" "data = ''size=10%''"
    using b by (simp_all add: optBit_def isFlag_def m map_filter_simps)
  with p show ?thesis by blast
qed

text \<open>
  The logger answers with JSON objects, which start with the time; the second field of such a line
  starts with a quote, so no log whose name does not is ever printed.
\<close>

lemma hd_splitN2: "hd (splitN 2 c s) = takeWhile (\<lambda>x. x \<noteq> c) s"
proof (cases "dropWhile (\<lambda>x. x \<noteq> c) s")
  case Nil
  then have "takeWhile (\<lambda>x. x \<noteq> c) s = s" by (simp add: takeWhile_eq_all_conv)
  moreover have "splitN 2 c s = [s]" by (simp only: numeral_2_eq_2 splitN.simps Nil list.case)
  ultimately show ?thesis by (simp only: list.sel)
qed (simp add: numeral_2_eq_2)

lemma remoteDump_json:
  assumes "CHR '','' \<notin> set t" and "CHR '';'' \<notin> set t" and "n = [] \<or> hd n \<noteq> CHR 0x22"
  shows "t @ CHR '','' # CHR 0x22 # rest \<notin> set (remoteDump n lines)"
proof -
  let ?p = "takeWhile (\<lambda>x. x \<noteq> CHR '';'') rest"
  have "takeWhile (\<lambda>x. x \<noteq> CHR '';'') (t @ CHR '','' # CHR 0x22 # rest) = t @ CHR '','' # CHR 0x22 # ?p"
    using assms(2) by (subst takeWhile_append2) auto
  moreover obtain q qs where "split_on (CHR '','') ?p = q # qs"
    using split_on_not_Nil by (cases "split_on (CHR '','') ?p") auto
  ultimately show ?thesis
    using assms by (auto simp: remoteDump_def Let_def hd_splitN2 split_on_append_sep split_on_free)
qed

text \<open>The option \<^verbatim>\<open>defaults\<close> is in the table but reaches the file system as data.\<close>

lemma defaults_is_data: "parseMountOptions [''defaults''] = (0, ''defaults'')"
  by (simp add: parseMountOptions_def mountOption_def mountFlags_def)

end
