(* ===== verification/Rc_Init.thy ===== *)
theory Rc_Init
  imports Go_Path
begin

text \<open>
  The first program of the system (\<^verbatim>\<open>pkg/init/cmd/rc.init/main.go\<close>): mounting the virtual file
  systems, devices, limits, host name and the scripts of \<^verbatim>\<open>/etc/init.d\<close>, and the shutdown.  Almost
  every error is only logged, so each function is the list of the calls it makes; what it reads
  from the system is a parameter.
\<close>

unbundle bit_operations_syntax

section \<open>Calls and environment\<close>

datatype rc_call =
    Mount string string string "64 word" string
  | Mkdir string nat
  | Mkchar string nat nat nat
  | Symlink string string
  | WriteFile string string
  | Run "string list"
  | Setrlimit string "64 word" "64 word"
  | Sethostname string
  | Subreaper
  | Unmount string bool
  | Kill string
  | Sleep nat
  | Sync
  | Reboot string

record RcEnv =
  rc_read :: "string \<Rightarrow> string res"
  rc_readdir :: "string \<Rightarrow> string list res"
  rc_glob :: "string \<Rightarrow> string list res"
  rc_exists :: "string \<Rightarrow> bool"
  rc_regular :: "string \<Rightarrow> bool res"
  rc_cgroups :: "string list list res"
  rc_hostname :: "string res"
  rc_readlink :: "string \<Rightarrow> string res"

abbreviation (input) rdonly :: "64 word" where "rdonly \<equiv> 1"
abbreviation (input) nosuid :: "64 word" where "nosuid \<equiv> 2"
abbreviation (input) nodev :: "64 word" where "nodev \<equiv> 4"
abbreviation (input) noexec :: "64 word" where "noexec \<equiv> 8"
abbreviation (input) remount :: "64 word" where "remount \<equiv> 32"
abbreviation (input) rec_flag :: "64 word" where "rec_flag \<equiv> 16384"
abbreviation (input) shared :: "64 word" where "shared \<equiv> 1048576"
abbreviation (input) relatime :: "64 word" where "relatime \<equiv> 2097152"

text \<open>\<^verbatim>\<open>read\<close>, \<^verbatim>\<open>readdir\<close> and \<^verbatim>\<open>glob\<close>: nothing when there is an error.\<close>

definition rcRead :: "RcEnv \<Rightarrow> string \<Rightarrow> string" where
  "rcRead env path = (case rc_read env path of Ok d \<Rightarrow> trim_space d | _ \<Rightarrow> [])"

definition readdir :: "RcEnv \<Rightarrow> string \<Rightarrow> string list" where
  "readdir env path = (case rc_readdir env path of Ok names \<Rightarrow> names | _ \<Rightarrow> [])"

definition glob :: "RcEnv \<Rightarrow> string \<Rightarrow> string list" where
  "glob env pattern = (case rc_glob env pattern of Ok files \<Rightarrow> files | _ \<Rightarrow> [])"

text \<open>The records of \<^verbatim>\<open>/proc/cgroups\<close> have four fields each, which the reader checks.\<close>

definition cgroupList :: "RcEnv \<Rightarrow> string list" where
  "cgroupList env =
     (case rc_cgroups env of
        Ok cgroups \<Rightarrow> map (\<lambda>cg. cg ! 0) (filter (\<lambda>cg. cg ! 3 = ''1'') cgroups)
      | _ \<Rightarrow> [])"

definition isCgroupV1 :: "RcEnv \<Rightarrow> bool" where
  "isCgroupV1 env =
     (case rc_read env ''/proc/cmdline'' of
        Ok dt \<Rightarrow> ''linuxkit.unified_cgroup_hierarchy=0'' \<in> set (Prelude.fields dt)
      | _ \<Rightarrow> False)"

section \<open>Boot\<close>

definition modalias :: "RcEnv \<Rightarrow> string \<Rightarrow> rc_call list" where
  "modalias env path = [Run [''/sbin/modprobe'', ''-abq'', rcRead env path]]"

text \<open>The mounts up to the control groups.\<close>

definition baseMounts :: "rc_call list" where
  "baseMounts =
     [Mount ''proc'' ''/proc'' ''proc'' (nodev OR nosuid OR noexec OR relatime) [],
      Mount [] ''/'' [] (remount OR rdonly) [],
      Mount ''tmpfs'' ''/run'' ''tmpfs'' (nodev OR nosuid OR noexec OR relatime) ''size=10%,mode=755'',
      Mount ''tmpfs'' ''/tmp'' ''tmpfs'' (nodev OR nosuid OR noexec OR relatime) ''size=10%,mode=1777'',
      Mount ''tmpfs'' ''/var'' ''tmpfs'' (nodev OR nosuid OR noexec OR relatime) ''size=50%,mode=755'',
      Mkdir ''/var/cache'' 493, Mkdir ''/var/empty'' 365, Mkdir ''/var/lib'' 493,
      Mkdir ''/var/local'' 493, Mkdir ''/var/lock'' 493, Mkdir ''/var/log'' 493, Mkdir ''/var/opt'' 493,
      Mkdir ''/var/spool'' 493, Mkdir ''/var/tmp'' 1023, Symlink ''/run'' ''/var/run'',
      Mount ''dev'' ''/dev'' ''devtmpfs'' (nosuid OR noexec OR relatime)
        ''size=10m,nr_inodes=248418,mode=755'',
      Mkchar ''/dev/console'' 384 5 1, Mkchar ''/dev/tty1'' 400 4 1, Mkchar ''/dev/tty'' 438 5 0,
      Mkchar ''/dev/null'' 438 1 3, Mkchar ''/dev/kmsg'' 432 1 11,
      Symlink ''/proc/self/fd'' ''/dev/fd'', Symlink ''/proc/self/fd/0'' ''/dev/stdin'',
      Symlink ''/proc/self/fd/1'' ''/dev/stdout'', Symlink ''/proc/self/fd/2'' ''/dev/stderr'',
      Symlink ''/proc/kcore'' ''/dev/kcore'',
      Mkdir ''/dev/mqueue'' 1023, Mkdir ''/dev/shm'' 1023, Mkdir ''/dev/pts'' 493,
      Mount ''mqueue'' ''/dev/mqueue'' ''mqueue'' (noexec OR nosuid OR nodev) [],
      Mount ''shm'' ''/dev/shm'' ''tmpfs'' (noexec OR nosuid OR nodev) ''mode=1777'',
      Mount ''devpts'' ''/dev/pts'' ''devpts'' (noexec OR nosuid) ''gid=5,mode=0620'',
      Mount ''sysfs'' ''/sys'' ''sysfs'' (noexec OR nosuid OR nodev) [],
      Mount ''securityfs'' ''/sys/kernel/security'' ''securityfs'' (noexec OR nosuid OR nodev) [],
      Mount ''debugfs'' ''/sys/kernel/debug'' ''debugfs'' (noexec OR nosuid OR nodev) [],
      Mount ''configfs'' ''/sys/kernel/config'' ''configfs'' (noexec OR nosuid OR nodev) [],
      Mount ''fusectl'' ''/sys/fs/fuse/connections'' ''fusectl'' (noexec OR nosuid OR nodev) [],
      Mount ''selinuxfs'' ''/sys/fs/selinux'' ''selinuxfs'' (noexec OR nosuid) [],
      Mount ''pstore'' ''/sys/fs/pstore'' ''pstore'' (noexec OR nosuid OR nodev) [],
      Mount ''bpffs'' ''/sys/fs/bpf'' ''bpf'' nodev [],
      Mount ''efivarfs'' ''/sys/firmware/efi/efivars'' ''efivarfs'' (noexec OR nosuid OR nodev) [],
      Mount ''binfmt_misc'' ''/proc/sys/fs/binfmt_misc'' ''binfmt_misc'' (noexec OR nosuid OR nodev) []]"

definition cgroupMounts :: "RcEnv \<Rightarrow> rc_call list" where
  "cgroupMounts env =
     (if isCgroupV1 env then
        [Mount ''cgroup_root'' ''/sys/fs/cgroup'' ''tmpfs'' (nodev OR noexec OR nosuid) ''mode=755,size=10m''] @
        concat (map (\<lambda>cg. let path = path_join [''/sys/fs/cgroup'', cg] in
                  [Mkdir path 365, Mount cg path ''cgroup'' (noexec OR nosuid OR nodev) cg]) (cgroupList env)) @
        [WriteFile ''/sys/fs/cgroup/memory/memory.use_hierarchy'' ''1'',
         Mkdir ''/sys/fs/cgroup/systemd'' 365,
         Mount ''cgroup'' ''/sys/fs/cgroup/systemd'' ''cgroup'' 0 ''none,name=systemd'']
      else [Mount ''cgroup2'' ''/sys/fs/cgroup'' ''cgroup2'' (noexec OR nosuid OR nodev) []])"

definition doMounts :: "RcEnv \<Rightarrow> rc_call list" where
  "doMounts env = baseMounts @ cgroupMounts env @ [Mount [] ''/'' [] (rec_flag OR shared) []]"

definition doHotplug :: "RcEnv \<Rightarrow> rc_call list" where
  "doHotplug env =
     [WriteFile ''/proc/sys/kernel/hotplug'' ''/sbin/mdev''] @
     concat (map (\<lambda>f. let uevent = path_join [''/sys/devices'', f, ''uevent''] in
       if has_prefix f ''usb'' \<and> rc_exists env uevent then [WriteFile uevent ''add''] else [])
       (readdir env ''/sys/devices'')) @
     [Run [''/sbin/mdev'', ''-s'']] @
     concat (map (modalias env) (glob env ''/sys/bus/*/devices/*/modalias''))"

definition doClock :: "rc_call list" where
  "doClock = [Run [''/sbin/hwclock'', ''--hctosys'', ''--utc'']]"

definition doLimits :: "rc_call list" where
  "doLimits = [Setrlimit ''NOFILE'' 1048576 1048576, Setrlimit ''NPROC'' (- 1) (- 1)]"

definition doHostname :: "RcEnv \<Rightarrow> rc_call list" where
  "doHostname env =
     (let hostname = rcRead env ''/etc/hostname'' in
      (if hostname \<noteq> [] then [Sethostname hostname] else []) @
      (case rc_hostname env of
         Ok hostname \<Rightarrow>
           if hostname \<noteq> ''(none)'' \<and> hostname \<noteq> [] then []
           else let mac = rcRead env ''/sys/class/net/eth0/address'' in
                if mac = [] then []
                else [Sethostname (''linuxkit-'' @ filter (\<lambda>c. c \<noteq> CHR '':'') mac)]
       | _ \<Rightarrow> []))"

definition doResolvConf :: "RcEnv \<Rightarrow> rc_call list" where
  "doResolvConf env =
     (case rc_readlink env ''/etc/resolv.conf'' of
        Ok link \<Rightarrow> [Mkdir (path_dir link) 493, WriteFile link []]
      | _ \<Rightarrow> [])"

definition doLoopback :: "rc_call list" where
  "doLoopback =
     [Run [''/sbin/ip'', ''addr'', ''add'', ''127.0.0.1/8'', ''dev'', ''lo'', ''brd'', ''+'', ''scope'', ''host''],
      Run [''/sbin/ip'', ''route'', ''add'', ''127.0.0.0/8'', ''dev'', ''lo'', ''scope'', ''host''],
      Run [''/sbin/ip'', ''link'', ''set'', ''lo'', ''up'']]"

definition runInit :: "RcEnv \<Rightarrow> string \<Rightarrow> rc_call list" where
  "runInit env path =
     concat (map (\<lambda>f. let file = path_join [path, f] in
       case rc_regular env file of Ok True \<Rightarrow> [Run [file]] | _ \<Rightarrow> []) (readdir env path))"

section \<open>Reaping children\<close>

text \<open>
  What \<^verbatim>\<open>unix.Wait4\<close> returns: a child, or an error number.  The loop asks for a pointer to
  \<^verbatim>\<open>os.SyscallError\<close>, a type of its own; the result is nothing when the fuel runs out.
\<close>

datatype wait_out = Reaped nat | WaitErrno string | WaitSyscallError string

fun doReap :: "(nat \<Rightarrow> wait_out) \<Rightarrow> nat \<Rightarrow> nat \<Rightarrow> unit option" where
  "doReap wait i 0 = None"
| "doReap wait i (Suc fuel) =
     (case wait i of
        WaitSyscallError e \<Rightarrow> if e = ''ECHILD'' then Some () else doReap wait (Suc i) fuel
      | _ \<Rightarrow> doReap wait (Suc i) fuel)"

section \<open>Shutdown\<close>

text \<open>The lines of \<^verbatim>\<open>/proc/mounts\<close>; the flag tells a lazy unmount.\<close>

definition unmountLine :: "string \<Rightarrow> rc_call list" where
  "unmountLine line =
     (let parts = split_on (CHR '' '') line in
      if length parts > 3 then
        if parts ! 2 \<in> {''ext2'', ''ext3'', ''ext4'', ''btrfs'', ''xfs'', ''vfat'', ''msdos'', ''overlay''}
        then [Unmount (parts ! 1) False]
        else if parts ! 2 \<in> {''nfs'', ''nfs4'', ''cifs''} then [Unmount (parts ! 1) True]
        else []
      else [])"

definition unmountAll :: "RcEnv \<Rightarrow> rc_call list" where
  "unmountAll env =
     (case rc_read env ''/proc/mounts'' of
        Ok d \<Rightarrow> concat (map unmountLine (fst (scanLines d)))
      | _ \<Rightarrow> [])"

definition doShutdown :: "RcEnv \<Rightarrow> string \<Rightarrow> rc_call list" where
  "doShutdown env action =
     runInit env ''/etc/shutdown.d'' @ [Kill ''TERM'', Sleep 5, Kill ''KILL'', Sync] @ unmountAll env @
     (if action = ''poweroff'' then [Reboot ''POWER_OFF'']
      else if action = ''reboot'' then [Reboot ''RESTART''] else [])"

text \<open>
  \<^verbatim>\<open>main\<close>: the calls, and whether the program goes on to reap children.  The shutdown exits.
\<close>

definition rc_main :: "RcEnv \<Rightarrow> string list \<Rightarrow> rc_call list \<times> bool" where
  "rc_main env args =
     (if path_base (args ! 0) = ''rc.shutdown''
      then (doShutdown env (if length args > 1 then args ! 1 else ''poweroff''), False)
      else let userspace = rc_exists env ''/proc/self'' in
        ((if userspace then [Subreaper]
          else doMounts env @ doHotplug env @ doClock @ doLoopback) @
         doLimits @ doHostname env @ doResolvConf env @ runInit env ''/etc/init.d'', userspace))"

section \<open>Lemmas\<close>

text \<open>Whatever is made below a mount point is made after the file system is mounted there.\<close>

fun creates :: "rc_call \<Rightarrow> string" where
  "creates (Mkdir p _) = p"
| "creates (Mkchar p _ _ _) = p"
| "creates (Symlink _ p) = p"
| "creates (WriteFile p _) = p"
| "creates (Mount _ p _ _ _) = p"
| "creates _ = []"

fun mountsAt :: "string \<Rightarrow> rc_call \<Rightarrow> bool" where
  "mountsAt mp (Mount _ p _ _ _) \<longleftrightarrow> p = mp"
| "mountsAt mp _ \<longleftrightarrow> False"

fun afterMount :: "string \<Rightarrow> rc_call list \<Rightarrow> bool" where
  "afterMount mp [] \<longleftrightarrow> True"
| "afterMount mp (c # cs) \<longleftrightarrow> mountsAt mp c \<or> \<not> has_prefix (creates c) (mp @ ''/'') \<and> afterMount mp cs"

lemma afterMount_append:
  "list_ex (mountsAt mp) cs \<Longrightarrow> afterMount mp cs \<Longrightarrow> afterMount mp (cs @ ds)"
  by (induction cs) auto

text \<open>
  The virtual file systems are in place before anything is made in them, whatever the control
  groups of the system are.
\<close>

lemma doMounts_order:
  assumes "mp \<in> {''/proc'', ''/run'', ''/tmp'', ''/var'', ''/dev'', ''/sys''}"
  shows "afterMount mp (doMounts env)"
proof -
  have "list_all (\<lambda>mp. list_ex (mountsAt mp) baseMounts \<and> afterMount mp baseMounts)
      [''/proc'', ''/run'', ''/tmp'', ''/var'', ''/dev'', ''/sys'']"
    by code_simp
  with assms have "list_ex (mountsAt mp) baseMounts" "afterMount mp baseMounts"
    by (auto simp: list_all_iff simp del: afterMount.simps)
  then show ?thesis unfolding doMounts_def by (rule afterMount_append)
qed

text \<open>
  The reaper never returns: an error number is not the type the loop asks for, so with the results
  the system call can give no fuel is enough.
\<close>

lemma doReap_never_returns:
  assumes "\<And>i. (\<exists>p. wait i = Reaped p) \<or> (\<exists>e. wait i = WaitErrno e)"
  shows "doReap wait i fuel = None"
proof (induction fuel arbitrary: i)
  case (Suc fuel)
  then show ?case using assms [of i] by auto
qed simp

text \<open>A shutdown unmounts only after every process has been told to end and the disks are synced.\<close>

lemma doShutdown_order:
  "\<exists>pre post. doShutdown env action = pre @ [Kill ''TERM'', Sleep 5, Kill ''KILL'', Sync] @ post \<and>
     (\<forall>c\<in>set pre. \<exists>args. c = Run args) \<and> (\<forall>d l. Unmount d l \<notin> set pre)"
proof -
  have "\<exists>args. c = Run args" if "c \<in> set (runInit env p)" for c p
    using that by (auto simp: runInit_def Let_def split: res.splits bool.splits)
  then show ?thesis
    unfolding doShutdown_def by (intro exI conjI) (rule refl, auto)
qed

end
