(* ===== verification/Metadata.thy ===== *)
theory Metadata
  imports Go_Path
begin

text \<open>
  The metadata container (\<^verbatim>\<open>pkg/metadata/main.go\<close>): it asks the configured providers for user
  data, in order, and unfolds the data into files and directories.  The providers themselves talk
  to the network or to a disk and are parameters, as is the JSON decoder; what is written is the
  list of calls, in order, and the system says which of them fail.
\<close>

section \<open>Entries\<close>

text \<open>The members of a JSON object come in the order in which the map is traversed.\<close>

datatype Entry =
  Entry (en_Perm: string) (en_Content: "string option") (en_Entries: "(string \<times> Entry) list option")

type_synonym ConfigFile = "(string \<times> Entry) list"

datatype md_call =
    MWrite string string nat
  | MMkdir string nat
  | MSethostname string

record MdEnv =
  md_err :: "md_call \<Rightarrow> string option"
  md_Unmarshal :: "string \<Rightarrow> ConfigFile option"
  md_hostname :: "md_call list \<Rightarrow> string option"

definition isFile :: "Entry \<Rightarrow> bool" where
  "isFile json \<longleftrightarrow> en_Content json \<noteq> None \<and> en_Entries json = None"

definition isDirectory :: "Entry \<Rightarrow> bool" where
  "isDirectory json \<longleftrightarrow> en_Content json = None \<and> en_Entries json \<noteq> None"

definition parseFileMode :: "string \<Rightarrow> nat \<Rightarrow> nat res" where
  "parseFileMode input defaultMode = (if input \<noteq> [] then ParseUint input 8 32 else Ok defaultMode)"

lemma size_entries [termination_simp]:
  "en_Entries current = Some es \<Longrightarrow> (d, e) \<in> set es \<Longrightarrow> size e < size current"
proof (cases current)
  case (Entry p c es')
  assume "en_Entries current = Some es" and de: "(d, e) \<in> set es"
  then have eq: "es' = Some es" using Entry by simp
  from de have "size e < size_list (size_prod (\<lambda>_. 0) size) es"
    by (induction es) auto
  then show ?thesis by (simp add: Entry eq)
qed

lemmas size_entries' [termination_simp] = size_entries [OF sym]

fun writeConfigFiles :: "MdEnv \<Rightarrow> string \<Rightarrow> Entry \<Rightarrow> md_call list" where
  "writeConfigFiles env target current =
     (if isFile current then
        (case (en_Content current, parseFileMode (en_Perm current) 420) of
           (Some content, Ok filemode) \<Rightarrow> [MWrite target content filemode]
         | _ \<Rightarrow> [])
      else if isDirectory current then
        (case (en_Entries current, parseFileMode (en_Perm current) 493) of
           (Some entries, Ok filemode) \<Rightarrow>
             MMkdir target filemode #
             (if md_err env (MMkdir target filemode) \<noteq> None then []
              else concat (map (\<lambda>(dir, entry). writeConfigFiles env (path_join [target, dir]) entry) entries))
         | _ \<Rightarrow> [])
      else [])"

declare writeConfigFiles.simps [simp del]

definition processUserData :: "MdEnv \<Rightarrow> string \<Rightarrow> string \<Rightarrow> md_call list \<times> unit res" where
  "processUserData env basePath data =
     (let raw = MWrite (path_join [basePath, ''userdata'']) data 420 in
      case md_err env raw of
        Some e \<Rightarrow> ([raw], Err e)
      | None \<Rightarrow>
          (case md_Unmarshal env data of
             Some root \<Rightarrow>
               (raw # concat (map (\<lambda>(dir, entry). writeConfigFiles env (path_join [basePath, dir]) entry) root), Ok ())
           | None \<Rightarrow> ([raw], Ok ())))"

section \<open>Providers\<close>

text \<open>
  What a provider found: the user data, nil when there is none, and an error that is only printed.
\<close>

record Provider =
  pv_String :: string
  pv_Probe :: bool
  pv_Extract :: "string option"

definition netNames :: "string list" where
  "netNames =
     [''aws'', ''gcp'', ''hetzner'', ''openstack'', ''equinixmetal'', ''scaleway'', ''vultr'',
      ''digitalocean'', ''metaldata'']"

type_synonym providers = "Provider list \<times> Provider list \<times> Provider list"

text \<open>The constructors of the providers are a parameter; an unknown name ends the program.\<close>

definition addProvider :: "(string \<Rightarrow> Provider list) \<Rightarrow> string \<Rightarrow> providers \<Rightarrow> providers res" where
  "addProvider mk p ps =
     (case ps of (net, cdrom, files) \<Rightarrow>
      if p \<in> set netNames then Ok (net @ mk p, cdrom, files)
      else if p = ''vmware'' \<or> p = ''cdrom'' then Ok (net, cdrom @ mk p, files)
      else if has_prefix p ''file='' then Ok (net, cdrom, files @ mk p)
      else Panic)"

definition selectProvider :: "providers \<Rightarrow> Provider option" where
  "selectProvider ps =
     (case ps of (net, cdrom, files) \<Rightarrow>
      case find pv_Probe net of
        Some p \<Rightarrow> Some p
      | None \<Rightarrow>
          (case find pv_Probe cdrom of
             Some p \<Rightarrow> Some p
           | None \<Rightarrow> find pv_Probe files))"

definition ConfigPath :: string where
  "ConfigPath = ''/run/config''"

definition defaultProviders :: "string list" where
  "defaultProviders =
     [''aws'', ''gcp'', ''hetzner'', ''openstack'', ''scaleway'', ''vultr'', ''digitalocean'',
      ''equinixmetal'', ''metaldata'', ''vmware'', ''cdrom'']"

definition md_main :: "MdEnv \<Rightarrow> (string \<Rightarrow> Provider list) \<Rightarrow> string list \<Rightarrow> md_call list \<times> unit res" where
  "md_main env mk args =
     (case loop_res (addProvider mk) (if args \<noteq> [] then args else defaultProviders) ([], [], []) of
        Ok ps \<Rightarrow>
          let mkdir = MMkdir ConfigPath 493 in
          if md_err env mkdir \<noteq> None then ([mkdir], Panic)
          else (case selectProvider ps of
                  None \<Rightarrow> ([mkdir], Ok ())
                | Some p \<Rightarrow>
                    let cs = [mkdir, MWrite (path_join [ConfigPath, ''provider'']) (pv_String p) 420] @
                          (case pv_Extract p of
                             None \<Rightarrow> []
                           | Some userdata \<Rightarrow> fst (processUserData env ConfigPath userdata)) in
                    (cs @ (case md_hostname env cs of None \<Rightarrow> [] | Some h \<Rightarrow> [MSethostname h]), Ok ()))
      | Err e \<Rightarrow> ([], Err e)
      | Panic \<Rightarrow> ([], Panic))"

section \<open>What is written\<close>

text \<open>The tree that an entry describes: its nodes from the top, with the path of each as a list of names.\<close>

fun modeOf :: "Entry \<Rightarrow> nat res" where
  "modeOf (Entry p (Some c) None) = parseFileMode p 420"
| "modeOf (Entry p None (Some es)) = parseFileMode p 493"
| "modeOf (Entry p _ _) = Err ''invalid''"

fun entry_ok :: "Entry \<Rightarrow> bool" where
  "entry_ok (Entry p c es) =
     (is_ok (modeOf (Entry p c es)) \<and>
      (case es of None \<Rightarrow> True | Some es \<Rightarrow> list_all (\<lambda>(d, e). plain d \<and> entry_ok e) es))"

definition okMode :: "nat res \<Rightarrow> nat" where
  "okMode r = (case r of Ok m \<Rightarrow> m | _ \<Rightarrow> 0)"

fun listing :: "string list \<Rightarrow> Entry \<Rightarrow> (string list \<times> string option \<times> nat) list" where
  "listing pos (Entry p c es) =
     (pos, c, okMode (modeOf (Entry p c es))) #
     (case es of None \<Rightarrow> [] | Some es \<Rightarrow> concat (map (\<lambda>(d, e). listing (pos @ [d]) e) es))"

fun placed_at :: "md_call \<Rightarrow> string list \<times> string option \<times> nat" where
  "placed_at (MWrite p c m) = (comps p, Some c, m)"
| "placed_at (MMkdir p m) = (comps p, None, m)"
| "placed_at (MSethostname h) = ([], None, 0)"

lemma concat_map_cong: "(\<And>x. x \<in> set xs \<Longrightarrow> map g (f x) = h x) \<Longrightarrow> map g (concat (map f xs)) = concat (map h xs)"
  by (induction xs) simp_all

lemma writeConfigFiles_listing:
  assumes "\<And>c. md_err env c = None" and "entry_ok e"
  shows "map placed_at (writeConfigFiles env target e) = listing (comps target) e"
  using assms(2)
proof (induction e arbitrary: target rule: entry_ok.induct)
  case (1 p c es)
  show ?case
  proof (cases "c = None")
    case True
    with 1(2) obtain ds m where es: "es = Some ds" and m: "parseFileMode p 493 = Ok m"
      by (cases es) (auto simp: is_ok_iff)
    have "map placed_at (concat (map (\<lambda>(dir, entry). writeConfigFiles env (path_join [target, dir]) entry) ds)) =
        concat (map (\<lambda>(d, e). listing (comps target @ [d]) e) ds)"
    proof (rule concat_map_cong)
      fix de assume de: "de \<in> set ds"
      obtain d e where "de = (d, e)" by (cases de)
      moreover from this de 1(2) have "plain d" "entry_ok e" by (auto simp: es list_all_iff)
      ultimately show "map placed_at ((\<lambda>(dir, entry). writeConfigFiles env (path_join [target, dir]) entry) de) =
          (\<lambda>(d, e). listing (comps target @ [d]) e) de"
        using 1(1) [OF es de, of d e] by (simp add: comps_join_plain)
    qed
    then show ?thesis
      by (simp add: True es m okMode_def assms(1) isFile_def isDirectory_def
          writeConfigFiles.simps [of env target "Entry p None (Some ds)"])
  next
    case False
    with 1(2) obtain x m where "c = Some x" "es = None" "parseFileMode p 420 = Ok m"
      by (cases es) (auto simp: is_ok_iff)
    then show ?thesis
      by (simp add: okMode_def isFile_def writeConfigFiles.simps [of env target "Entry p (Some x) None"])
  qed
qed

text \<open>A list of nodes in which every node comes after the directory that holds it.\<close>

fun parents_first :: "string list set \<Rightarrow> (string list \<times> string option \<times> nat) list \<Rightarrow> bool" where
  "parents_first dirs [] \<longleftrightarrow> True"
| "parents_first dirs ((pos, c, m) # xs) \<longleftrightarrow>
     pos \<noteq> [] \<and> butlast pos \<in> dirs \<and> parents_first (if c = None then insert pos dirs else dirs) xs"

lemma parents_first_mono: "parents_first dirs xs \<Longrightarrow> dirs \<subseteq> dirs' \<Longrightarrow> parents_first dirs' xs"
proof (induction dirs xs arbitrary: dirs' rule: parents_first.induct)
  case (2 dirs pos c m xs)
  have "parents_first (if c = None then insert pos dirs' else dirs') xs"
    using 2(2,3) by (intro 2(1) [of "if c = None then insert pos dirs' else dirs'"]) auto
  with 2(2,3) show ?case by auto
qed simp

lemma parents_first_append:
  "parents_first dirs xs \<Longrightarrow> parents_first dirs ys \<Longrightarrow> parents_first dirs (xs @ ys)"
proof (induction dirs xs rule: parents_first.induct)
  case (2 dirs pos c m xs)
  have "parents_first (if c = None then insert pos dirs else dirs) ys"
    by (rule parents_first_mono [OF 2(3)]) auto
  with 2(1,2) show ?case by simp
qed simp

lemma parents_first_concat:
  "(\<And>x. x \<in> set xs \<Longrightarrow> parents_first dirs (f x)) \<Longrightarrow> parents_first dirs (concat (map f xs))"
  by (induction xs) (simp_all add: parents_first_append)

lemma listing_parents:
  assumes "entry_ok e" and "pos \<noteq> []" and "butlast pos \<in> dirs"
  shows "parents_first dirs (listing pos e)"
  using assms
proof (induction e arbitrary: pos dirs rule: entry_ok.induct)
  case (1 p c es)
  show ?case
  proof (cases es)
    case None
    with 1(3,4) show ?thesis by simp
  next
    case (Some ds)
    have "parents_first (insert pos dirs) ((\<lambda>(d, e). listing (pos @ [d]) e) de)" if de: "de \<in> set ds" for de
    proof -
      obtain d e where "de = (d, e)" by (cases de)
      with 1(1) [OF Some de, of d e "pos @ [d]" "insert pos dirs"] 1(2) de show ?thesis
        by (auto simp: Some list_all_iff)
    qed
    then have "parents_first (insert pos dirs) (concat (map (\<lambda>(d, e). listing (pos @ [d]) e) ds))"
      by (rule parents_first_concat)
    moreover from 1(2) have "c = None" by (cases c) (auto simp: Some)
    ultimately show ?thesis using 1(3,4) by (simp add: Some)
  qed
qed

lemma listing_below: "entry_ok e \<Longrightarrow> x \<in> set (listing pos e) \<Longrightarrow> \<exists>q. fst x = pos @ q \<and> list_all plain q"
proof (induction e arbitrary: pos rule: entry_ok.induct)
  case (1 p c es)
  show ?case
  proof (cases "x = (pos, c, okMode (modeOf (Entry p c es)))")
    case True
    then show ?thesis by simp
  next
    case False
    with 1(3) obtain ds d e where es: "es = Some ds" and de: "(d, e) \<in> set ds"
      and x: "x \<in> set (listing (pos @ [d]) e)"
      by (cases es) auto
    from 1(2) de have ok: "plain d" "entry_ok e" by (auto simp: es list_all_iff)
    from 1(1) [OF es de refl ok(2) x] obtain q where "fst x = (pos @ [d]) @ q" "list_all plain q" by blast
    with ok(1) show ?thesis by (intro exI [of _ "d # q"]) simp
  qed
qed

text \<open>
  C38.  User data that describes a tree of files is unfolded into exactly that tree, below the base
  directory and nowhere else: after the raw data, the calls are the nodes of the tree, each with its
  contents and the mode it asks for, or the default, and every directory is made before what it
  holds.  The hypotheses are that the names of the tree are plain, that its modes can be read and
  that the system does not refuse a call.
\<close>

theorem processUserData_tree:
  assumes "md_Unmarshal env data = Some root" and "list_all (\<lambda>(d, e). plain d \<and> entry_ok e) root"
    and "\<And>c. md_err env c = None"
  shows "\<exists>cs. processUserData env base data = (MWrite (path_join [base, ''userdata'']) data 420 # cs, Ok ()) \<and>
    map placed_at cs = concat (map (\<lambda>(d, e). listing (comps base @ [d]) e) root) \<and>
    parents_first {comps base} (map placed_at cs) \<and>
    list_all (\<lambda>c. \<exists>q. fst (placed_at c) = comps base @ q \<and> q \<noteq> [] \<and> list_all plain q) cs"
proof -
  let ?f = "\<lambda>(dir, entry). writeConfigFiles env (path_join [base, dir]) entry"
  let ?g = "\<lambda>(d, e). listing (comps base @ [d]) e"
  define cs where "cs = concat (map ?f root)"
  have each: "plain d \<and> entry_ok e" if "(d, e) \<in> set root" for d e
    using assms(2) that by (auto simp: list_all_iff)
  have tree: "map placed_at cs = concat (map ?g root)"
    unfolding cs_def
  proof (rule concat_map_cong)
    fix de assume de: "de \<in> set root"
    obtain d e where "de = (d, e)" by (cases de)
    with each de show "map placed_at (?f de) = ?g de"
      using writeConfigFiles_listing [OF assms(3), of e "path_join [base, d]"] by (simp add: comps_join_plain)
  qed
  have "parents_first {comps base} (concat (map ?g root))"
    using each by (intro parents_first_concat) (auto intro!: listing_parents)
  moreover have "\<exists>q. fst x = comps base @ q \<and> q \<noteq> [] \<and> list_all plain q" if "x \<in> set (concat (map ?g root))" for x
  proof -
    from that obtain d e where de: "(d, e) \<in> set root" "x \<in> set (listing (comps base @ [d]) e)" by auto
    from listing_below [of e x "comps base @ [d]"] each [OF de(1)] de(2) obtain q where
      "fst x = (comps base @ [d]) @ q" "list_all plain q" by blast
    with each [OF de(1)] show ?thesis by (intro exI [of _ "d # q"]) simp
  qed
  ultimately have "parents_first {comps base} (map placed_at cs)"
    "list_all (\<lambda>c. \<exists>q. fst (placed_at c) = comps base @ q \<and> q \<noteq> [] \<and> list_all plain q) cs"
    unfolding tree [symmetric] by (auto simp: list_all_iff)
  moreover have "processUserData env base data = (MWrite (path_join [base, ''userdata'']) data 420 # cs, Ok ())"
    by (simp add: processUserData_def assms(1,3) cs_def)
  ultimately show ?thesis using tree by blast
qed

definition demoTree :: ConfigFile where
  "demoTree = [(''ssh'', Entry ''0700'' None (Some [(''authorized_keys'', Entry [] (Some ''key'') None)]))]"

definition demoMd :: MdEnv where
  "demoMd = \<lparr>md_err = (\<lambda>_. None), md_Unmarshal = (\<lambda>_. Some demoTree), md_hostname = (\<lambda>_. None)\<rparr>"

theorem processUserData_tree_witness:
  "\<exists>cs. processUserData demoMd ''/run/config'' ''{}'' = (MWrite (path_join [''/run/config'', ''userdata'']) ''{}'' 420 # cs, Ok ()) \<and>
     map placed_at cs = [([''run'', ''config'', ''ssh''], None, 448), ([''run'', ''config'', ''ssh'', ''authorized_keys''], Some ''key'', 420)]"
proof -
  have base: "comps ''/run/config'' = [''run'', ''config'']" by code_simp
  have mode: "parseFileMode ''0700'' 493 = Ok 448" by (simp add: parseFileMode_def ParseUint_def digit_val_def)
  have "list_all (\<lambda>(d, e). plain d \<and> entry_ok e) demoTree"
    by (simp add: demoTree_def mode parseFileMode_def [of "[]"] plain_def)
  from processUserData_tree [of demoMd "''{}''" demoTree "''/run/config''", OF _ this] show ?thesis
    by (auto simp: demoMd_def demoTree_def base mode parseFileMode_def [of "[]"] okMode_def)
qed

text \<open>Nothing keeps a name from leaving the base directory.\<close>

lemma userdata_escapes:
  "writeConfigFiles demoMd (path_join [''/run/config'', ''../../etc/motd'']) (Entry [] (Some ''hi'') None) =
    [MWrite ''/etc/motd'' ''hi'' 420]"
proof -
  have "path_join [''/run/config'', ''../../etc/motd''] = ''/etc/motd''" by code_simp
  then show ?thesis
    by (simp add: writeConfigFiles.simps [of demoMd _ "Entry [] (Some ''hi'') None"] isFile_def parseFileMode_def)
qed

lemma selectProvider_first:
  "selectProvider (net, cdrom, files) = find pv_Probe (net @ cdrom @ files)"
proof -
  have "find P (xs @ ys) = (case find P xs of None \<Rightarrow> find P ys | Some x \<Rightarrow> Some x)" for P :: "Provider \<Rightarrow> bool" and xs ys
    by (induction xs) auto
  then show ?thesis by (simp add: selectProvider_def split: option.splits)
qed

end
