(* ===== verification/Pkglib.thy ===== *)
theory Pkglib
  imports Util_Reference Moby_Types
begin

text \<open>
  Packages (\<^verbatim>\<open>pkglib/pkglib.go\<close>, \<^verbatim>\<open>pkglib/git.go\<close>, \<^verbatim>\<open>pkglib/depends.go\<close> and
  \<^verbatim>\<open>pkglib/buildarg.go\<close>): what a package is built from, the hash and the tag it gets, and the
  build arguments that refer to other packages.  The git program, the YAML decoder, the templates,
  the hash functions and the reference parser are parameters.
\<close>

section \<open>Git\<close>

text \<open>The outcome of a command: its output, a non-zero exit, or a failure to run it at all.\<close>

datatype cmd_out = Output string | ExitError | RunError string

record PkgEnv =
  pe_git :: "string \<Rightarrow> string list \<Rightarrow> cmd_out"
  pe_Getwd :: "string res"
  pe_ReadFile :: "string \<Rightarrow> string res"
  pe_Lstat :: "string \<Rightarrow> (bool \<times> bool) res"
  pe_Open :: "string \<Rightarrow> string res res"
  pe_Glob :: "string \<Rightarrow> string list res"
  pe_StatDir :: "string \<Rightarrow> (bool \<times> string) res"
  pe_User :: string
  pe_sha1 :: "string \<Rightarrow> string"
  pe_sha256 :: "string \<Rightarrow> string"
  pe_tagTemplate :: "string \<Rightarrow> (string \<Rightarrow> string res) res"
  pe_refParse :: "string \<Rightarrow> refspec res"
  pe_Digest :: "refspec \<Rightarrow> string"
  pe_digestValidate :: "string \<Rightarrow> unit res"

text \<open>\<^verbatim>\<open>Output\<close> and \<^verbatim>\<open>Run\<close> of a command, without telling the two kinds of error apart.\<close>

definition commandStdout :: "PkgEnv \<Rightarrow> string \<Rightarrow> string list \<Rightarrow> string res" where
  "commandStdout env dir args =
     (case pe_git env dir ([''-C'', dir] @ args) of
        Output out \<Rightarrow> Ok out
      | ExitError \<Rightarrow> Err ''exit status''
      | RunError e \<Rightarrow> Err e)"

definition isWorkTree :: "PkgEnv \<Rightarrow> string \<Rightarrow> bool res" where
  "isWorkTree env dir =
     (case pe_git env dir [''-C'', dir, ''rev-parse'', ''--is-inside-work-tree''] of
        ExitError \<Rightarrow> Ok False
      | RunError e \<Rightarrow> Err e
      | Output tf \<Rightarrow>
          if trim_space tf = ''true'' then Ok True
          else Err (''unexpected output from git rev-parse --is-inside-work-tree: '' @ trim_space tf))"

definition newGit :: "PkgEnv \<Rightarrow> string \<Rightarrow> string option res" where
  "newGit env dir = bind_res (isWorkTree env dir) (\<lambda>ok. Ok (if ok then Some dir else None))"

text \<open>
  The file contents that are hashed for a dirty tree: what cannot be opened, directories and links
  are skipped, but a file that cannot be read is an error.
\<close>

definition hashFile :: "PkgEnv \<Rightarrow> string \<Rightarrow> string \<Rightarrow> string \<Rightarrow> string res" where
  "hashFile env dir name sofar =
     (let filename = path_join [dir, name] in
      case pe_Lstat env filename of
        Ok (isDir, isSymlink) \<Rightarrow>
          if isDir \<or> isSymlink then Ok sofar
          else (case pe_Open env filename of
                  Ok data \<Rightarrow> bind_res data (\<lambda>d. Ok (sofar @ d))
                | _ \<Rightarrow> Ok sofar)
      | _ \<Rightarrow> Ok sofar)"

definition contentHash :: "PkgEnv \<Rightarrow> string \<Rightarrow> string res" where
  "contentHash env dir =
     bind_res (commandStdout env dir [''ls-files'']) (\<lambda>trackedFiles.
     bind_res (commandStdout env dir [''ls-files'', ''--exclude-standard'', ''--others'']) (\<lambda>untrackedFiles.
       case scanLines (trim_space (join [CHR 0x0A] [trackedFiles, untrackedFiles])) of
         (names, err) \<Rightarrow>
           bind_res (loop_res (hashFile env dir) names []) (\<lambda>contents.
           bind_res err (\<lambda>_. Ok (pe_sha256 env contents)))))"

definition octal :: "char \<Rightarrow> bool" where
  "octal c \<longleftrightarrow> c \<in> set ''01234567''"

definition hexadecimal :: "char \<Rightarrow> bool" where
  "hexadecimal c \<longleftrightarrow> c \<in> set ''0123456789abcdef''"

text \<open>
  The submatch of \<^verbatim>\<open>^[0-7]{6} [^ ]+ ([0-9a-f]{40})\t.+\n$\<close>: the second field ends at the first space,
  and the name is a single line.
\<close>

definition treeHashRe :: "string \<Rightarrow> string option" where
  "treeHashRe out =
     (case drop 6 out of
        c1 # r1 \<Rightarrow>
          (case dropWhile (\<lambda>c. c \<noteq> CHR '' '') r1 of
             c2 # r2 \<Rightarrow>
               (case drop 40 r2 of
                  c3 # name \<Rightarrow>
                    if list_all octal (take 6 out) \<and> c1 = CHR '' '' \<and> takeWhile (\<lambda>c. c \<noteq> CHR '' '') r1 \<noteq> [] \<and>
                       list_all hexadecimal (take 40 r2) \<and> c3 = CHR 0x09 \<and>
                       length name > 1 \<and> last name = CHR 0x0A \<and> CHR 0x0A \<notin> set (butlast name)
                    then Some (take 40 r2) else None
                | [] \<Rightarrow> None)
           | [] \<Rightarrow> None)
      | [] \<Rightarrow> None)"

definition treeHash :: "PkgEnv \<Rightarrow> string \<Rightarrow> string \<Rightarrow> string \<Rightarrow> string res" where
  "treeHash env dir pkg commit =
     bind_res (commandStdout env dir [''rev-parse'', ''--prefix'', pkg, ''--show-toplevel'']) (\<lambda>out.
       if trim_space out = pkg
       then bind_res (commandStdout env dir [''show'', ''--format=%T'', ''-s'', commit]) (\<lambda>out. Ok (trim_space out))
       else bind_res (commandStdout env dir [''ls-tree'', ''--full-tree'', commit, ''--'', pkg]) (\<lambda>out.
         if out = [] then Err (''package '' @ pkg @ '' is not in git'')
         else case treeHashRe out of
                None \<Rightarrow> Err (''unable to parse ls-tree output: '' @ out)
              | Some h \<Rightarrow> Ok h))"

definition commitHash :: "PkgEnv \<Rightarrow> string \<Rightarrow> string \<Rightarrow> string res" where
  "commitHash env dir commit =
     bind_res (commandStdout env dir [''rev-parse'', commit]) (\<lambda>out. Ok (trim_space out))"

definition commitTag :: "PkgEnv \<Rightarrow> string \<Rightarrow> string \<Rightarrow> string res" where
  "commitTag env dir commit =
     bind_res (commandStdout env dir [''tag'', ''-l'', ''--points-at'', commit]) (\<lambda>out. Ok (trim_space out))"

definition isDirty :: "PkgEnv \<Rightarrow> string \<Rightarrow> string \<Rightarrow> string \<Rightarrow> bool res" where
  "isDirty env dir pkg commit =
     (if commit \<noteq> ''HEAD'' then Ok False
      else case pe_git env dir
              [''-C'', dir, ''diff'', ''--no-ext-diff'', ''--exit-code'', ''--quiet'', commit, ''--'', pkg] of
             ExitError \<Rightarrow> Ok True
           | RunError e \<Rightarrow> Err e
           | Output _ \<Rightarrow>
               (case pe_git env dir [''-C'', dir, ''ls-files'', ''--exclude-standard'', ''--others'',
                       ''--error-unmatch'', ''--'', pkg] of
                  Output _ \<Rightarrow> Ok True
                | ExitError \<Rightarrow> Ok False
                | RunError e \<Rightarrow> Err e))"

text \<open>The version after a given tag.\<close>

definition versionSince :: "PkgEnv \<Rightarrow> string \<Rightarrow> string \<Rightarrow> string res" where
  "versionSince env dir lastSemver =
     (let commitList = (if lastSemver \<noteq> ''v0.0.0'' then lastSemver @ ''..HEAD'' else ''HEAD'') in
      bind_res (commandStdout env dir [''rev-list'', commitList, ''--count'']) (\<lambda>count.
        if count = ''0'' then Ok (trim_space lastSemver)
        else bind_res (commandStdout env dir [''--no-pager'', ''show'', ''--quiet'', ''--abbrev=12'',
                ''--date=format-local:%Y%m%d%H%M%S'', ''--format=%cd-%h''])
               (\<lambda>dateCommit. Ok (trim_space (lastSemver @ ''-'' @ dateCommit)))))"

definition goPkgVersion :: "PkgEnv \<Rightarrow> string \<Rightarrow> string res" where
  "goPkgVersion env dir =
     (let lastSemver = (case commandStdout env dir [''--no-pager'', ''describe'',
                                ''--match='' @ [CHR 0x27] @ ''v[0-9].[0-9].[0-9]*'' @ [CHR 0x27],
                                ''--abbrev=0'', ''--tags''] of
                          Ok s \<Rightarrow> s | _ \<Rightarrow> [])
      in versionSince env dir (if lastSemver = [] then ''v0.0.0'' else lastSemver))"

section \<open>Packages\<close>

record pkgInfo =
  pi_Image :: string
  pi_Org :: string
  pi_Tag :: string
  pi_Dockerfile :: string
  pi_Arches :: "string list"
  pi_ExtraSources :: "string list"
  pi_GitRepo :: string
  pi_Network :: bool
  pi_DisableCache :: bool
  pi_Config :: "ImageConfig option"
  pi_BuildArgs :: "string list option"
  pi_TargetDir :: string
  pi_Target :: string
  pi_FromFile :: string
  pi_List :: "string list"

record PkglibConfig =
  pc_DisableCache :: "bool option"
  pc_Network :: "bool option"
  pc_Org :: "string option"
  pc_BuildYML :: string
  pc_Hash :: string
  pc_HashCommit :: string
  pc_HashPath :: string
  pc_Dirty :: bool
  pc_Dev :: bool
  pc_Tag :: string

definition NewPkgInfo :: pkgInfo where
  "NewPkgInfo =
     \<lparr>pi_Image = [], pi_Org = ''linuxkit'', pi_Tag = ''{{.Hash}}'', pi_Dockerfile = ''Dockerfile'',
      pi_Arches = [''amd64'', ''arm64'', ''riscv64''], pi_ExtraSources = [],
      pi_GitRepo = ''https://github.com/linuxkit/linuxkit'', pi_Network = False, pi_DisableCache = False,
      pi_Config = None, pi_BuildArgs = None, pi_TargetDir = [], pi_Target = [], pi_FromFile = [],
      pi_List = []\<rparr>"

record pkgSource =
  ps_src :: string
  ps_dst :: string

record dockerDepends =
  dd_images :: "refspec list"
  dd_path :: string
  dd_dir :: bool

record Pkg =
  pk_image :: string
  pk_org :: string
  pk_arches :: "string list"
  pk_sources :: "pkgSource list"
  pk_gitRepo :: string
  pk_network :: bool
  pk_trust :: bool
  pk_cache :: bool
  pk_config :: "ImageConfig option"
  pk_buildArgs :: "string list option"
  pk_dockerDepends :: dockerDepends
  pk_path :: string
  pk_buildYML :: string
  pk_dockerfile :: string
  pk_hash :: string
  pk_tag :: string
  pk_dirty :: bool
  pk_commitHash :: string
  pk_git :: "string option"

text \<open>\<^verbatim>\<open>filepath.Abs\<close>.\<close>

definition path_abs :: "PkgEnv \<Rightarrow> string \<Rightarrow> string res" where
  "path_abs env p =
     (if rooted p then Ok (path_clean p) else bind_res (pe_Getwd env) (\<lambda>wd. Ok (path_join [wd, p])))"

definition makeAbsSubpath :: "PkgEnv \<Rightarrow> string \<Rightarrow> string \<Rightarrow> string \<Rightarrow> string res" where
  "makeAbsSubpath env field base path =
     (if path = [] then Ok []
      else if rooted path then Err (field @ '' must be relative to package directory'')
      else bind_res (path_abs env (path_join [base, path])) (\<lambda>p.
        if p = base then Err (field @ '' must not be exactly the package directory'')
        else if \<not> has_prefix p base then Err (field @ '' must be within package directory'')
        else Ok p))"

section \<open>Images a package depends on\<close>

definition dependsList :: "PkgEnv \<Rightarrow> string \<Rightarrow> pkgInfo \<Rightarrow> string list res" where
  "dependsList env pkgPath pi =
     (if pi_FromFile pi \<noteq> [] then
        bind_res (makeAbsSubpath env ''depends.image.from-file'' pkgPath (pi_FromFile pi)) (\<lambda>p.
        bind_res (pe_ReadFile env p) (\<lambda>f.
          case scanLines f of
            (ls, err) \<Rightarrow>
              bind_res err (\<lambda>_. Ok (pi_List pi @ filter (\<lambda>t. t \<noteq> [] \<and> hd t \<noteq> CHR ''#'') ls))))
      else Ok (pi_List pi))"

definition dependsImage :: "PkgEnv \<Rightarrow> string \<Rightarrow> refspec res" where
  "dependsImage env i =
     bind_res (pe_refParse env i) (\<lambda>s.
       let dgst = pe_Digest env s in
       if dgst = [] then Err (''image '' @ i @ '' lacks a digest'')
       else bind_res (wrap_err (''unable to validate digest in '' @ i @ '': '') (pe_digestValidate env dgst))
              (\<lambda>_. Ok s))"

definition newDockerDepends :: "PkgEnv \<Rightarrow> string \<Rightarrow> pkgInfo \<Rightarrow> dockerDepends res" where
  "newDockerDepends env pkgPath pi =
     (if pi_TargetDir pi \<noteq> [] \<and> pi_Target pi \<noteq> []
      then Err ''depends.images.target and depends.images.target-dir are mutually exclusive''
      else if pi_FromFile pi \<noteq> [] \<and> pi_List pi \<noteq> []
      then Err ''depends.images.list and depends.images.from-file are mutually exclusive''
      else
        bind_res (makeAbsSubpath env ''depends.image.target'' pkgPath (pi_Target pi)) (\<lambda>target.
        bind_res (makeAbsSubpath env ''depends.image.target-dir'' pkgPath (pi_TargetDir pi)) (\<lambda>targetDir.
        bind_res (dependsList env pkgPath pi) (\<lambda>images.
        bind_res (map_res (dependsImage env) images) (\<lambda>specs.
          Ok \<lparr>dd_images = specs, dd_path = (if targetDir \<noteq> [] then targetDir else target),
              dd_dir = (targetDir \<noteq> [])\<rparr>)))))"

section \<open>Hashes and tags\<close>

definition pkgHashPath :: "PkgEnv \<Rightarrow> PkglibConfig \<Rightarrow> string \<Rightarrow> string res" where
  "pkgHashPath env cfg pkgPath =
     (if pc_HashPath cfg = [] then Ok pkgPath
      else bind_res (path_abs env (pc_HashPath cfg)) (\<lambda>hp.
        if has_prefix pkgPath hp then Ok hp else Err ''Hash path is not a prefix of the package path''))"

text \<open>The configuration overrides what \<^verbatim>\<open>build.yml\<close> says.\<close>

definition overridePkgInfo :: "PkgEnv \<Rightarrow> PkglibConfig \<Rightarrow> pkgInfo \<Rightarrow> pkgInfo" where
  "overridePkgInfo env cfg pi =
     (let pi = (if pc_Dev cfg then pi\<lparr>pi_Org := pe_User env\<rparr> else pi);
          pi = (case pc_DisableCache cfg of None \<Rightarrow> pi | Some b \<Rightarrow> pi\<lparr>pi_DisableCache := b\<rparr>);
          pi = (case pc_Network cfg of None \<Rightarrow> pi | Some b \<Rightarrow> pi\<lparr>pi_Network := b\<rparr>)
      in case pc_Org cfg of None \<Rightarrow> pi | Some org \<Rightarrow> pi\<lparr>pi_Org := org\<rparr>)"

definition extraSource ::
  "PkgEnv \<Rightarrow> PkglibConfig \<Rightarrow> string \<Rightarrow> string \<Rightarrow> string \<times> pkgSource list \<Rightarrow> (string \<times> pkgSource list) res" where
  "extraSource env cfg pkgPath source st =
     (case st of (srcHashes, sources) \<Rightarrow>
      case split_on (CHR '':'') source of
        [src, dst] \<Rightarrow>
          let srcPath = path_clean src; dstPath = path_clean dst;
              srcPath = (if rooted srcPath then srcPath else path_join [pkgPath, srcPath]) in
          bind_res (newGit env srcPath) (\<lambda>g.
            case g of
              None \<Rightarrow> Err (''source '' @ srcPath @ '' not in a git repository'')
            | Some dir \<Rightarrow>
                bind_res (treeHash env dir srcPath (pc_HashCommit cfg)) (\<lambda>h.
                  Ok (srcHashes @ h, sources @ [\<lparr>ps_src = srcPath, ps_dst = dstPath\<rparr>])))
      | _ \<Rightarrow> Err (''bad source format in '' @ source))"

definition dirtyMark :: "PkgEnv \<Rightarrow> string \<Rightarrow> string res" where
  "dirtyMark env dir =
     bind_res (contentHash env dir) (\<lambda>h.
       if length h < 7 then Err (''unexpected hash len: '' @ dec_digits (length h))
       else Ok (''-dirty-'' @ take 7 h))"

text \<open>The hash of a package and whether it is dirty; outside of git it is what was given.\<close>

definition gitHash :: "PkgEnv \<Rightarrow> PkglibConfig \<Rightarrow> string option \<Rightarrow> string \<Rightarrow> string \<Rightarrow> string \<Rightarrow> (string \<times> bool) res" where
  "gitHash env cfg git hashPath srcHashes given =
     (case git of
        None \<Rightarrow> Ok (given, False)
      | Some dir \<Rightarrow>
          bind_res (isDirty env dir hashPath (pc_HashCommit cfg)) (\<lambda>gitDirty.
            let dirty = (pc_Dirty cfg \<or> gitDirty) in
            if given \<noteq> [] then Ok (given, dirty)
            else
              bind_res (treeHash env dir hashPath (pc_HashCommit cfg)) (\<lambda>h.
                let h = (if srcHashes \<noteq> [] then pe_sha1 env (h @ srcHashes) else h) in
                if dirty then bind_res (dirtyMark env dir) (\<lambda>mark. Ok (h @ mark, dirty))
                else Ok (h, dirty))))"

definition pkgTag :: "PkgEnv \<Rightarrow> PkglibConfig \<Rightarrow> pkgInfo \<Rightarrow> string \<Rightarrow> string res" where
  "pkgTag env cfg pi hash =
     (let tagTmpl = (if pc_Tag cfg \<noteq> [] then pc_Tag cfg else pi_Tag pi);
          tagTmpl = (if tagTmpl = [] then ''{{.Hash}}'' else tagTmpl) in
      bind_res (wrap_err ''invalid tag template: '' (pe_tagTemplate env tagTmpl)) (\<lambda>tmpl.
        wrap_err ''failed to execute tag template: '' (tmpl hash)))"

text \<open>
  One package.  The decoder of \<^verbatim>\<open>build.yml\<close> overwrites the defaults it is given.
\<close>

definition newPkg ::
  "PkgEnv \<Rightarrow> (pkgInfo \<Rightarrow> string \<Rightarrow> pkgInfo res) \<Rightarrow> PkglibConfig \<Rightarrow> string \<Rightarrow> Pkg res" where
  "newPkg env decode cfg pkg =
     bind_res (path_abs env pkg) (\<lambda>pkgPath.
     bind_res (pkgHashPath env cfg pkgPath) (\<lambda>hashPath.
     let buildYmlFile = path_join [pkgPath, pc_BuildYML cfg] in
     bind_res (pe_ReadFile env buildYmlFile) (\<lambda>b.
     bind_res (decode NewPkgInfo b) (\<lambda>pi.
       if pi_Image pi = [] then Err ''Image field is required''
       else
         bind_res (newDockerDepends env pkgPath pi) (\<lambda>depends.
         let given = (if pc_Dev cfg \<and> pc_Hash cfg = [] then ''dev'' else pc_Hash cfg);
             pi = overridePkgInfo env cfg pi in
         bind_res (loop_res (extraSource env cfg pkgPath) (pi_ExtraSources pi)
                     ([], [\<lparr>ps_src = pkgPath, ps_dst = ''/''\<rparr>])) (\<lambda>(srcHashes, sources).
         bind_res (newGit env pkgPath) (\<lambda>git.
         bind_res (gitHash env cfg git hashPath srcHashes given) (\<lambda>(hash, dirty).
         bind_res (pkgTag env cfg pi hash) (\<lambda>tag.
           Ok \<lparr>pk_image = pi_Image pi, pk_org = pi_Org pi, pk_arches = pi_Arches pi, pk_sources = sources,
               pk_gitRepo = pi_GitRepo pi, pk_network = pi_Network pi, pk_trust = False,
               pk_cache = (\<not> pi_DisableCache pi), pk_config = pi_Config pi, pk_buildArgs = pi_BuildArgs pi,
               pk_dockerDepends = depends, pk_path = pkgPath, pk_buildYML = buildYmlFile,
               pk_dockerfile = pi_Dockerfile pi, pk_hash = hash, pk_tag = tag, pk_dirty = dirty,
               pk_commitHash = pc_HashCommit cfg, pk_git = git\<rparr>)))))))))"

definition NewFromConfig ::
  "PkgEnv \<Rightarrow> (pkgInfo \<Rightarrow> string \<Rightarrow> pkgInfo res) \<Rightarrow> PkglibConfig \<Rightarrow> string list \<Rightarrow> Pkg list res" where
  "NewFromConfig env decode cfg args = map_res (newPkg env decode cfg) args"

definition ReleaseTag :: "Pkg \<Rightarrow> string \<Rightarrow> string res" where
  "ReleaseTag p release =
     (if release = [] then Err ''a release tag is required''
      else if pk_dirty p then Err ''cannot release a dirty package''
      else Ok (pk_org p @ ''/'' @ pk_image p @ '':'' @ release))"

definition pk_Tag :: "Pkg \<Rightarrow> string" where
  "pk_Tag p = pk_org p @ ''/'' @ pk_image p @ '':'' @ (if pk_tag p = [] then ''latest'' else pk_tag p)"

definition pk_Image :: "Pkg \<Rightarrow> string" where
  "pk_Image p = pk_org p @ ''/'' @ pk_image p"

definition FullTag :: "Pkg \<Rightarrow> string" where
  "FullTag p = ReferenceExpand (pk_Tag p) []"

definition archSupported :: "Pkg \<Rightarrow> string \<Rightarrow> bool" where
  "archSupported p want = (want \<in> set (pk_arches p))"

definition cleanForBuild :: "Pkg \<Rightarrow> unit res" where
  "cleanForBuild p =
     (if pk_commitHash p \<noteq> ''HEAD'' then Err ''cannot build from commit hash != HEAD'' else Ok ())"

section \<open>Build arguments\<close>

definition defaultPkgConfig :: PkglibConfig where
  "defaultPkgConfig =
     \<lparr>pc_DisableCache = None, pc_Network = None, pc_Org = None, pc_BuildYML = ''build.yml'', pc_Hash = [],
      pc_HashCommit = ''HEAD'', pc_HashPath = [], pc_Dirty = False, pc_Dev = False, pc_Tag = []\<rparr>"

definition anchoredPath :: "PkgEnv \<Rightarrow> string \<Rightarrow> string \<Rightarrow> string res" where
  "anchoredPath env anchorFile pkgPath =
     (if has_prefix pkgPath ''/'' then Ok pkgPath
      else bind_res (wrap_err (''error getting absolute path for anchor file '' @ anchorFile @ '': '')
                       (path_abs env (path_dir anchorFile)))
             (\<lambda>anchorDir. Ok (path_clean (path_join [anchorDir, pkgPath]))))"

text \<open>The directories of a pattern; a name that starts with a dot is passed over.\<close>

definition matchDirs :: "PkgEnv \<Rightarrow> string list \<Rightarrow> string list res" where
  "matchDirs env ms =
     bind_res (map_res (\<lambda>m. bind_res (wrap_err (''error stating package path '' @ m @ '': '') (pe_StatDir env m))
         (\<lambda>(isDir, name). Ok (if isDir \<and> \<not> has_prefix name ''.'' then [m] else []))) ms)
       (\<lambda>mss. Ok (concat mss))"

definition stemKey :: "string \<Rightarrow> Pkg \<Rightarrow> string" where
  "stemKey key p =
     replace_char (CHR ''%'')
       (to_upper (replace_char (CHR ''-'') ''_'' (replace_char (CHR ''/'') ''_'' (pk_Image p)))) key"

definition TransformBuildArgValue ::
  "PkgEnv \<Rightarrow> (pkgInfo \<Rightarrow> string \<Rightarrow> pkgInfo res) \<Rightarrow> string \<Rightarrow> string \<Rightarrow> string list res" where
  "TransformBuildArgValue env decode line anchorFile =
     (case splitN 2 (CHR ''='') line of
        [key, val] \<Rightarrow>
          if \<not> has_prefix val ''@lkt:'' then Ok [line]
          else
            let stripped = trim_prefix val ''@lkt:'' in
            if has_prefix stripped ''pkg:'' then
              bind_res (anchoredPath env anchorFile (trim_prefix stripped ''pkg:'')) (\<lambda>pkgPath.
              bind_res (NewFromConfig env decode defaultPkgConfig [pkgPath]) (\<lambda>pkgs.
                case pkgs of
                  [] \<Rightarrow> Err (''no package found at path '' @ pkgPath)
                | p # _ \<Rightarrow> Ok [key @ ''='' @ pk_Tag p]))
            else if has_prefix stripped ''pkgs:'' then
              if \<not> contains_char key (CHR ''%'') then Err (''invalid build arg key '' @ key)
              else
                bind_res (anchoredPath env anchorFile (trim_prefix stripped ''pkgs:'')) (\<lambda>pkgPath.
                bind_res (wrap_err (''error globbing package path '' @ pkgPath @ '': '') (pe_Glob env pkgPath)) (\<lambda>ms.
                  if ms = [] then Err (''no packages found matching path '' @ pkgPath)
                  else
                    bind_res (matchDirs env ms) (\<lambda>finalMatches.
                    bind_res (wrap_err (''error loading packages from paths '' @ pkgPath @ '': '')
                                (NewFromConfig env decode defaultPkgConfig finalMatches)) (\<lambda>pkgs.
                      if pkgs = [] then Err (''no packages found at path '' @ pkgPath)
                      else Ok (map (\<lambda>p. stemKey key p @ ''='' @ pk_Tag p) pkgs)))))
            else Err (''unknown linuxkit build arg value '' @ val)
      | _ \<Rightarrow> Err (''invalid build-arg, must be in format arg=value: '' @ line))"

definition ProcessBuildArgs ::
  "PkgEnv \<Rightarrow> (pkgInfo \<Rightarrow> string \<Rightarrow> pkgInfo res) \<Rightarrow> Pkg \<Rightarrow> Pkg res" where
  "ProcessBuildArgs env decode p =
     (case pk_buildArgs p of
        None \<Rightarrow> Ok p
      | Some args \<Rightarrow>
          bind_res (map_res (\<lambda>arg. wrap_err (''error processing build arg '' @ arg @ '': '')
              (TransformBuildArgValue env decode arg (pk_buildYML p))) args)
            (\<lambda>lss. Ok (if concat lss \<noteq> [] then p\<lparr>pk_buildArgs := Some (concat lss)\<rparr> else p)))"

section \<open>Properties\<close>

text \<open>
  The extra sources add their tree hashes, in order, and become sources of the build after the
  package itself.
\<close>

definition hashedSource :: "PkgEnv \<Rightarrow> string \<Rightarrow> string \<times> pkgSource \<Rightarrow> bool" where
  "hashedSource env commit d =
    (\<exists>dir. newGit env (ps_src (snd d)) = Ok (Some dir) \<and> treeHash env dir (ps_src (snd d)) commit = Ok (fst d))"

lemma extraSource_Ok:
  assumes "extraSource env cfg pkgPath x st = Ok st'"
  shows "\<exists>d. hashedSource env (pc_HashCommit cfg) d \<and> st' = (fst st @ fst d, snd st @ [snd d])"
  using assms
  by (force simp: extraSource_def hashedSource_def Let_def split: list.splits option.splits prod.splits)

lemma extraSources_Ok:
  assumes "loop_res (extraSource env cfg pkgPath) xs st = Ok st'"
  shows "\<exists>ds. length ds = length xs \<and> (\<forall>d\<in>set ds. hashedSource env (pc_HashCommit cfg) d) \<and>
    st' = (fst st @ concat (map fst ds), snd st @ map snd ds)"
  using assms
proof (induction xs arbitrary: st)
  case Nil
  then show ?case by (auto intro!: exI [of _ "[]"])
next
  case (Cons x xs)
  then obtain st1 where x: "extraSource env cfg pkgPath x st = Ok st1" and
    xs: "loop_res (extraSource env cfg pkgPath) xs st1 = Ok st'" by auto
  from extraSource_Ok [OF x] obtain d where d: "hashedSource env (pc_HashCommit cfg) d" and
    "st1 = (fst st @ fst d, snd st @ [snd d])" by blast
  with xs have rest: "loop_res (extraSource env cfg pkgPath) xs (fst st @ fst d, snd st @ [snd d]) = Ok st'" by simp
  from Cons.IH [OF rest] obtain ds where "length ds = length xs"
    "\<forall>d\<in>set ds. hashedSource env (pc_HashCommit cfg) d"
    "st' = ((fst st @ fst d) @ concat (map fst ds), (snd st @ [snd d]) @ map snd ds)" by auto
  with d show ?case by (intro exI [of _ "d # ds"]) auto
qed

text \<open>
  What git says of a directory: something in it differs from the head commit, or something in it is not
  tracked.
\<close>

definition gitDiffers :: "PkgEnv \<Rightarrow> string \<Rightarrow> string \<Rightarrow> bool" where
  "gitDiffers env dir path \<longleftrightarrow>
     pe_git env dir [''-C'', dir, ''diff'', ''--no-ext-diff'', ''--exit-code'', ''--quiet'', ''HEAD'', ''--'', path] = ExitError"

definition gitUntracked :: "PkgEnv \<Rightarrow> string \<Rightarrow> string \<Rightarrow> bool" where
  "gitUntracked env dir path \<longleftrightarrow>
     (\<exists>out. pe_git env dir [''-C'', dir, ''ls-files'', ''--exclude-standard'', ''--others'', ''--error-unmatch'', ''--'', path] =
        Output out)"

lemma isDirty_Ok:
  "isDirty env dir path commit = Ok b \<Longrightarrow>
     b \<longleftrightarrow> commit = ''HEAD'' \<and> (gitDiffers env dir path \<or> gitUntracked env dir path)"
  by (auto simp: isDirty_def gitDiffers_def gitUntracked_def split: if_splits cmd_out.splits)

lemma gitHash_dirty:
  assumes "gitHash env cfg (Some dir) hashPath srcHashes given = Ok (hash, dirty)"
  shows "dirty \<longleftrightarrow> pc_Dirty cfg \<or>
    pc_HashCommit cfg = ''HEAD'' \<and> (gitDiffers env dir hashPath \<or> gitUntracked env dir hashPath)"
  using assms by (auto simp: gitHash_def Let_def split: if_splits dest!: isDirty_Ok)

lemma gitHash_Ok:
  assumes "gitHash env cfg (Some dir) hashPath srcHashes [] = Ok (hash, dirty)"
  shows "\<exists>tree mark. treeHash env dir hashPath (pc_HashCommit cfg) = Ok tree \<and>
    (if dirty then \<exists>h. contentHash env dir = Ok h \<and> mark = ''-dirty-'' @ take 7 h else mark = []) \<and>
    hash = (if srcHashes = [] then tree else pe_sha1 env (tree @ srcHashes)) @ mark"
  using assms by (auto simp: gitHash_def dirtyMark_def Let_def split: if_splits)

text \<open>
  C16.  What the hash of a package stands for, when none is given: the git tree of its directory, combined
  with the git trees of every extra source, in the order of the sources of the build.  A package is
  dirty exactly when it is said to be or, at the head commit, git finds a difference or an untracked file in its
  directory; a clean package has nothing else in its hash, and a dirty one
  is marked as such with the start of the hash of its contents.  Extra sources count by their committed tree only: changes in them that are
  not committed show neither in the hash nor as dirt.
\<close>

theorem newPkg_hash:
  assumes "newPkg env decode cfg pkg = Ok p" and "pk_git p = Some dir" and "pc_Hash cfg = []" and "\<not> pc_Dev cfg"
  shows "\<exists>hashPath tree ds mark.
    pkgHashPath env cfg (pk_path p) = Ok hashPath \<and>
    treeHash env dir hashPath (pc_HashCommit cfg) = Ok tree \<and>
    pk_sources p = \<lparr>ps_src = pk_path p, ps_dst = ''/''\<rparr> # map snd ds \<and>
    (\<forall>d\<in>set ds. hashedSource env (pc_HashCommit cfg) d) \<and>
    (pk_dirty p \<longleftrightarrow> pc_Dirty cfg \<or>
      pc_HashCommit cfg = ''HEAD'' \<and> (gitDiffers env dir hashPath \<or> gitUntracked env dir hashPath)) \<and>
    (if pk_dirty p then \<exists>h. contentHash env dir = Ok h \<and> mark = ''-dirty-'' @ take 7 h else mark = []) \<and>
    pk_hash p = (if concat (map fst ds) = [] then tree else pe_sha1 env (tree @ concat (map fst ds))) @ mark"
proof -
  from assms obtain hashPath extra srcHashes sources where
    hp: "pkgHashPath env cfg (pk_path p) = Ok hashPath" and
    ex: "loop_res (extraSource env cfg (pk_path p)) extra
           ([], [\<lparr>ps_src = pk_path p, ps_dst = ''/''\<rparr>]) = Ok (srcHashes, sources)" and
    gh: "gitHash env cfg (Some dir) hashPath srcHashes [] = Ok (pk_hash p, pk_dirty p)" and
    so: "pk_sources p = sources"
    by (auto simp: newPkg_def Let_def split: if_splits)
  from extraSources_Ok [OF ex] obtain ds where ds: "\<forall>d\<in>set ds. hashedSource env (pc_HashCommit cfg) d"
    "srcHashes = concat (map fst ds)" "sources = \<lparr>ps_src = pk_path p, ps_dst = ''/''\<rparr> # map snd ds" by auto
  from gitHash_Ok [OF gh] obtain tree mark where tm: "treeHash env dir hashPath (pc_HashCommit cfg) = Ok tree"
    "if pk_dirty p then \<exists>h. contentHash env dir = Ok h \<and> mark = ''-dirty-'' @ take 7 h else mark = []"
    "pk_hash p = (if srcHashes = [] then tree else pe_sha1 env (tree @ srcHashes)) @ mark" by blast
  note parts = hp tm(1) so [unfolded ds(3)] ds(1) gitHash_dirty [OF gh] tm(2) tm(3) [unfolded ds(2)]
  show ?thesis by (rule exI, rule exI, rule exI, rule exI) (intro conjI; fact parts)
qed

text \<open>A git tree that is clean, with one more source.\<close>

definition demoGit :: "string \<Rightarrow> string list \<Rightarrow> cmd_out" where
  "demoGit dir args =
     (if args ! 3 = ''--is-inside-work-tree'' then Output ''true''
      else if args ! 2 = ''diff'' then Output []
      else if args ! 2 = ''ls-files'' then ExitError
      else if args ! 2 = ''rev-parse'' then Output dir
      else Output (dir @ ''-tree''))"

definition demoGitEnv :: PkgEnv where
  "demoGitEnv =
     \<lparr>pe_git = demoGit, pe_Getwd = Ok ''/'', pe_ReadFile = (\<lambda>_. Ok []), pe_Lstat = (\<lambda>_. Ok (False, False)),
      pe_Open = (\<lambda>_. Ok (Ok [])), pe_Glob = (\<lambda>_. Ok []), pe_StatDir = (\<lambda>_. Ok (False, [])), pe_User = [],
      pe_sha1 = (\<lambda>s. ''sha1:'' @ s), pe_sha256 = (\<lambda>s. s), pe_tagTemplate = (\<lambda>_. Ok Ok),
      pe_refParse = (\<lambda>_. Err []), pe_Digest = (\<lambda>_. []), pe_digestValidate = (\<lambda>_. Ok ())\<rparr>"

definition demoDecode :: "pkgInfo \<Rightarrow> string \<Rightarrow> pkgInfo res" where
  "demoDecode pi b = Ok (pi\<lparr>pi_Image := ''img'', pi_ExtraSources := [''/q:/x'']\<rparr>)"

lemma demo_newPkg:
  "\<exists>p. newPkg demoGitEnv demoDecode defaultPkgConfig ''/p'' = Ok p \<and> pk_git p = Some ''/p'' \<and>
     pk_hash p = ''sha1:/p-tree/q-tree'' \<and> pk_path p = ''/p''"
proof -
  have paths: "path_clean ''/p'' = ''/p''" "path_clean ''/q'' = ''/q''" "path_clean ''/x'' = ''/x''" by code_simp+
  have roots: "rooted ''/p''" "rooted ''/q''" by code_simp+
  have splits: "split_on (CHR '':'') ''/q:/x'' = [''/q'', ''/x'']" by code_simp
  have trims: "trim_space ''true'' = ''true''" "trim_space ''/p'' = ''/p''" "trim_space ''/q'' = ''/q''"
    "trim_space ''/p-tree'' = ''/p-tree''" "trim_space ''/q-tree'' = ''/q-tree''" by code_simp+
  show ?thesis
    by (simp add: newPkg_def path_abs_def paths roots splits trims pkgHashPath_def defaultPkgConfig_def demoGitEnv_def
        demoDecode_def NewPkgInfo_def newDockerDepends_def makeAbsSubpath_def dependsList_def overridePkgInfo_def
        extraSource_def newGit_def isWorkTree_def treeHash_def commandStdout_def demoGit_def gitHash_def isDirty_def
        pkgTag_def Let_def)
qed

theorem newPkg_hash_witness:
  "\<exists>p. newPkg demoGitEnv demoDecode defaultPkgConfig ''/p'' = Ok p \<and> pk_hash p = ''sha1:/p-tree/q-tree'' \<and>
    (\<exists>hashPath tree ds mark. pkgHashPath demoGitEnv defaultPkgConfig (pk_path p) = Ok hashPath \<and>
      treeHash demoGitEnv ''/p'' hashPath ''HEAD'' = Ok tree \<and>
      pk_sources p = \<lparr>ps_src = pk_path p, ps_dst = ''/''\<rparr> # map snd ds \<and>
      (if pk_dirty p then \<exists>h. contentHash demoGitEnv ''/p'' = Ok h \<and> mark = ''-dirty-'' @ take 7 h else mark = []) \<and>
      pk_hash p = (if concat (map fst ds) = [] then tree else pe_sha1 demoGitEnv (tree @ concat (map fst ds))) @ mark)"
proof -
  obtain p where p: "newPkg demoGitEnv demoDecode defaultPkgConfig ''/p'' = Ok p" "pk_git p = Some ''/p''"
    "pk_hash p = ''sha1:/p-tree/q-tree''" using demo_newPkg by (elim exE conjE)
  have c: "pc_Hash defaultPkgConfig = []" "\<not> pc_Dev defaultPkgConfig" "pc_HashCommit defaultPkgConfig = ''HEAD''"
    by (simp_all add: defaultPkgConfig_def)
  show ?thesis using newPkg_hash [OF p(1,2) c(1,2)] p(1,3) unfolding c(3)
    by (elim exE conjE) (intro exI conjI; assumption)
qed

text \<open>The package directory is told by its name: a sibling whose name starts with it is taken to be inside.\<close>

lemma makeAbsSubpath_sibling: "makeAbsSubpath env field ''/src/pkg'' ''../pkg2/x'' = Ok ''/src/pkg2/x''"
proof -
  have j: "path_join [''/src/pkg'', ''../pkg2/x''] = ''/src/pkg2/x''" "path_clean ''/src/pkg2/x'' = ''/src/pkg2/x''"
    by code_simp+
  have r: "\<not> rooted ''../pkg2/x''" "rooted ''/src/pkg2/x''" "has_prefix ''/src/pkg2/x'' ''/src/pkg''"
    by code_simp+
  show ?thesis unfolding makeAbsSubpath_def path_abs_def j by (simp add: r j)
qed

lemma makeAbsSubpath_prefix:
  "makeAbsSubpath env field base path = Ok p \<Longrightarrow> p = [] \<or> (has_prefix p base \<and> p \<noteq> base)"
  by (auto simp: makeAbsSubpath_def split: if_splits)

text \<open>
  The count that \<^verbatim>\<open>git rev-list\<close> prints ends in a newline, so it is never just a zero: the
  version is a pseudo version even on the commit that carries the tag.
\<close>

lemma goPkgVersion_never_tag:
  assumes "goPkgVersion env dir = Ok v" and
    nl: "\<And>commits count. commandStdout env dir [''rev-list'', commits, ''--count''] = Ok count \<Longrightarrow> \<exists>n. count = n @ [CHR 0x0A]"
  shows "\<exists>semver dateCommit. v = trim_space (semver @ ''-'' @ dateCommit)"
proof -
  obtain semver where v: "versionSince env dir semver = Ok v"
    using assms(1) unfolding goPkgVersion_def Let_def by blast
  then obtain commits count where c: "commandStdout env dir [''rev-list'', commits, ''--count''] = Ok count"
    and r: "(if count = ''0'' then Ok (trim_space semver)
      else bind_res (commandStdout env dir [''--no-pager'', ''show'', ''--quiet'', ''--abbrev=12'',
                ''--date=format-local:%Y%m%d%H%M%S'', ''--format=%cd-%h''])
               (\<lambda>dateCommit. Ok (trim_space (semver @ ''-'' @ dateCommit)))) = Ok v"
    unfolding versionSince_def Let_def bind_res_Ok_iff by (elim exE conjE)
  have "count \<noteq> ''0''" using nl [OF c] by auto
  then obtain dateCommit where "Ok (trim_space (semver @ ''-'' @ dateCommit)) = Ok v"
    using r unfolding if_not_P [OF \<open>count \<noteq> ''0''\<close>] bind_res_Ok_iff by (elim exE conjE)
  then show ?thesis by (metis res.inject(1))
qed

text \<open>Moving a file within a dirty tree does not change its hash: only contents are hashed.\<close>

lemma contentHash_rename:
  assumes "pe_Lstat env (path_join [dir, a]) = pe_Lstat env (path_join [dir, b])"
    and "pe_Open env (path_join [dir, a]) = pe_Open env (path_join [dir, b])"
  shows "loop_res (hashFile env dir) (xs @ a # ys) s = loop_res (hashFile env dir) (xs @ b # ys) s"
proof (induction xs arbitrary: s)
  case Nil
  have "hashFile env dir a = hashFile env dir b"
    by (rule ext) (auto simp: hashFile_def Let_def assms split: res.splits)
  then show ?case by simp
next
  case (Cons x xs)
  then show ?case by (cases "hashFile env dir x s") auto
qed

end
