(* ===== verification/Pkglib_Build.thy ===== *)
theory Pkglib_Build
  imports Pkglib Trace_IO "HOL-Library.Sublist"
begin

text \<open>
  Building, pushing and releasing a package (\<^verbatim>\<open>pkglib/build.go\<close>, \<^verbatim>\<open>Do\<close> of \<^verbatim>\<open>pkglib/depends.go\<close>),
  as a program over the calls to the cache provider and the docker runner, which are interfaces of
  the code and parameters here.
\<close>

section \<open>Options\<close>

record buildOpts =
  bp_skipBuild :: bool
  bp_force :: bool
  bp_pull :: bool
  bp_ignoreCache :: bool
  bp_push :: bool
  bp_dryRun :: bool
  bp_preCacheImages :: bool
  bp_release :: string
  bp_manifest :: bool
  bp_targetDocker :: bool
  bp_cacheDir :: string
  bp_platforms :: "string list"
  bp_builders :: "string \<rightharpoonup> string"
  bp_sbomScan :: bool
  bp_sbomScannerImage :: string
  bp_dockerfile :: string
  bp_buildArgs :: "string list"
  bp_progress :: string
  bp_ssh :: "string list"

text \<open>
  A platform is its architecture.  The runner, the cache provider, the writer and the credentials
  that options can set are parameters of the build.
\<close>

definition buildOpts_zero :: buildOpts where
  "buildOpts_zero =
     \<lparr>bp_skipBuild = False, bp_force = False, bp_pull = False, bp_ignoreCache = False, bp_push = False,
      bp_dryRun = False, bp_preCacheImages = False, bp_release = [], bp_manifest = False,
      bp_targetDocker = False, bp_cacheDir = [], bp_platforms = [], bp_builders = Map.empty,
      bp_sbomScan = False, bp_sbomScannerImage = [], bp_dockerfile = [], bp_buildArgs = [],
      bp_progress = [], bp_ssh = []\<rparr>"

type_synonym BuildOpt = "buildOpts \<Rightarrow> buildOpts"

definition WithBuildSkip :: BuildOpt where "WithBuildSkip bo = bo\<lparr>bp_skipBuild := True\<rparr>"
definition WithBuildForce :: BuildOpt where "WithBuildForce bo = bo\<lparr>bp_force := True\<rparr>"
definition WithBuildPull :: BuildOpt where "WithBuildPull bo = bo\<lparr>bp_pull := True\<rparr>"
definition WithBuildPush :: BuildOpt where "WithBuildPush bo = bo\<lparr>bp_push := True\<rparr>"
definition WithBuildManifest :: BuildOpt where "WithBuildManifest bo = bo\<lparr>bp_manifest := True\<rparr>"
definition WithRelease :: "string \<Rightarrow> BuildOpt" where "WithRelease r bo = bo\<lparr>bp_release := r\<rparr>"
definition WithBuildTargetDockerCache :: BuildOpt where
  "WithBuildTargetDockerCache bo = bo\<lparr>bp_targetDocker := True, bp_pull := True\<rparr>"
definition WithBuildCacheDir :: "string \<Rightarrow> BuildOpt" where "WithBuildCacheDir dir bo = bo\<lparr>bp_cacheDir := dir\<rparr>"
definition WithBuildPlatforms :: "string list \<Rightarrow> BuildOpt" where
  "WithBuildPlatforms platforms bo = bo\<lparr>bp_platforms := platforms\<rparr>"
definition WithBuildBuilders :: "(string \<rightharpoonup> string) \<Rightarrow> BuildOpt" where
  "WithBuildBuilders builders bo = bo\<lparr>bp_builders := builders\<rparr>"
definition WithBuildIgnoreCache :: BuildOpt where "WithBuildIgnoreCache bo = bo\<lparr>bp_ignoreCache := True\<rparr>"
definition WithPreCacheImages :: BuildOpt where "WithPreCacheImages bo = bo\<lparr>bp_preCacheImages := True\<rparr>"
definition WithBuildSbomScanner :: "string \<Rightarrow> BuildOpt" where
  "WithBuildSbomScanner scanner bo = bo\<lparr>bp_sbomScan := True, bp_sbomScannerImage := scanner\<rparr>"
definition WithDockerfile :: "string \<Rightarrow> BuildOpt" where
  "WithDockerfile dockerfile bo = bo\<lparr>bp_dockerfile := dockerfile\<rparr>"
definition WithBuildArgs :: "string list \<Rightarrow> BuildOpt" where "WithBuildArgs args bo = bo\<lparr>bp_buildArgs := args\<rparr>"
definition WithProgress :: "string \<Rightarrow> BuildOpt" where "WithProgress progress bo = bo\<lparr>bp_progress := progress\<rparr>"
definition WithSSH :: "string list \<Rightarrow> BuildOpt" where "WithSSH ssh bo = bo\<lparr>bp_ssh := ssh\<rparr>"
definition WithDryRun :: BuildOpt where "WithDryRun bo = bo\<lparr>bp_dryRun := True\<rparr>"

section \<open>Calls\<close>

text \<open>A descriptor is opaque here; the empty one is the zero value.\<close>

type_synonym descriptor = string

record ImageBuildOptions =
  ib_Labels :: "string \<rightharpoonup> string"
  ib_BuildArgs :: "string \<rightharpoonup> string"
  ib_NetworkMode :: string
  ib_Dockerfile :: string
  ib_SSH :: "string list"

datatype pk_call =
    ContextSupportCheck
  | ImageInCache refspec string
  | ImageInRegistry refspec string
  | ImagePull refspec "string list"
  | IndexWrite refspec "descriptor list"
  | FindDescriptor refspec
  | TarReader refspec string string
  | Load string
  | DockerTag string string
  | Push string bool bool
  | DescriptorWrite string descriptor
  | RemoveAll string
  | MkdirAll string
  | DockerPull string
  | Save string "string list"
  | DockerBuild string string string string bool ImageBuildOptions
  | ImageLoad string
  | GetContent descriptor

record PkgWorld =
  pw_do :: "pk_call list \<Rightarrow> pk_call \<Rightarrow> unit res"
  pw_test :: "pk_call list \<Rightarrow> pk_call \<Rightarrow> bool res"
  pw_desc :: "pk_call list \<Rightarrow> pk_call \<Rightarrow> descriptor option res"
  pw_descs :: "pk_call list \<Rightarrow> pk_call \<Rightarrow> descriptor list res"
  pw_newProvider :: "unit res"
  pw_exists :: "string \<Rightarrow> bool"
  pw_goarch :: string
  pw_marshalConfig :: "ImageConfig \<Rightarrow> string res"
  pw_version :: string
  pw_revision :: string

type_synonym 'a pio = "(pk_call, 'a) tio"

section \<open>Dependencies\<close>

definition dependImage :: "PkgEnv \<Rightarrow> PkgWorld \<Rightarrow> dockerDepends \<Rightarrow> refspec \<Rightarrow> unit pio" where
  "dependImage env w dd s =
     io_bind (io_call (pw_test w) (DockerPull (ref_String s))) (\<lambda>ok.
       if \<not> ok then io_err (''failed to pull '' @ ref_String s)
       else if dd_dir dd
       then io_call (pw_do w) (Save (path_join [dd_path dd,
              path_base (Locator s) @ ''@'' @ pe_Digest env s @ ''.tar'']) [ref_String s])
       else io_ok ())"

definition dd_Do :: "PkgEnv \<Rightarrow> PkgWorld \<Rightarrow> dockerDepends \<Rightarrow> unit pio" where
  "dd_Do env w dd =
     (if dd_images dd = [] then io_ok ()
      else
        io_bind (if dd_dir dd
          then io_bind (io_wrap (''failed to remove '' @ dd_path dd @ '': '') (io_call (pw_do w) (RemoveAll (dd_path dd))))
                 (\<lambda>_. io_wrap (''failed to create '' @ dd_path dd @ '': '') (io_call (pw_do w) (MkdirAll (dd_path dd))))
          else io_ok ()) (\<lambda>_.
        io_bind (io_loop (dependImage env w dd) (dd_images dd)) (\<lambda>_.
          if dd_dir dd then io_ok ()
          else io_call (pw_do w) (Save (dd_path dd) (map Locator (dd_images dd))))))"

section \<open>What is passed to the builder\<close>

definition buildLabels :: "PkgWorld \<Rightarrow> Pkg \<Rightarrow> string \<Rightarrow> string \<Rightarrow> (string \<rightharpoonup> string)" where
  "buildLabels w p gitCommit config =
     (let ls = Map.empty;
          ls = (if pk_git p \<noteq> None \<and> pk_gitRepo p \<noteq> []
                then ls(''org.opencontainers.image.source'' \<mapsto> pk_gitRepo p) else ls);
          ls = (if pk_git p \<noteq> None \<and> \<not> pk_dirty p
                then ls(''org.opencontainers.image.revision'' \<mapsto> gitCommit) else ls);
          ls = (if pk_config p \<noteq> None then ls(''org.mobyproject.config'' \<mapsto> config) else ls)
      in ls(''org.mobyproject.linuxkit.version'' \<mapsto> pw_version w,
            ''org.mobyproject.linuxkit.revision'' \<mapsto> pw_revision w))"

definition addArg :: "(string \<Rightarrow> string) \<Rightarrow> string \<Rightarrow> (string \<rightharpoonup> string) \<Rightarrow> (string \<rightharpoonup> string) res" where
  "addArg trim buildArg args =
     (case splitN 2 (CHR ''='') buildArg of
        [k, v] \<Rightarrow> Ok (args(trim k \<mapsto> trim v))
      | _ \<Rightarrow> Err (''invalid build-arg, must be in format arg=value: '' @ buildArg))"

definition addDefault :: "string \<times> string \<Rightarrow> (string \<rightharpoonup> string) \<Rightarrow> (string \<rightharpoonup> string)" where
  "addDefault kv args = (case kv of (k, v) \<Rightarrow> if args k = None \<and> v \<noteq> [] then args(k \<mapsto> v) else args)"

definition defaultArgs :: "Pkg \<Rightarrow> string \<Rightarrow> string \<Rightarrow> (string \<times> string) list" where
  "defaultArgs p gitCommit version =
     [(''SOURCE'', pk_gitRepo p), (''REVISION'', gitCommit), (''GOPKGVERSION'', version),
      (''PKG_HASH'', pk_hash p), (''PKG_IMAGE'', pk_Image p)]"

definition buildArguments :: "Pkg \<Rightarrow> buildOpts \<Rightarrow> string \<Rightarrow> string \<Rightarrow> (string \<rightharpoonup> string) res" where
  "buildArguments p bo gitCommit version =
     bind_res (loop_res (addArg (\<lambda>s. s)) (case pk_buildArgs p of None \<Rightarrow> [] | Some args \<Rightarrow> args) Map.empty) (\<lambda>args.
     bind_res (loop_res (addArg trim_space) (bp_buildArgs bo) args) (\<lambda>args.
       Ok (fold addDefault (defaultArgs p gitCommit version) args)))"

text \<open>The commit of a clean package and its version; both are empty outside of git.\<close>

definition gitInfo :: "PkgEnv \<Rightarrow> Pkg \<Rightarrow> (string \<times> string) res" where
  "gitInfo env p =
     (case pk_git p of
        None \<Rightarrow> Ok ([], [])
      | Some dir \<Rightarrow>
          bind_res (if pk_dirty p then Ok [] else commitHash env dir ''HEAD'') (\<lambda>gitCommit.
          bind_res (goPkgVersion env dir) (\<lambda>version. Ok (gitCommit, version))))"

definition imageBuildOptions :: "PkgEnv \<Rightarrow> PkgWorld \<Rightarrow> Pkg \<Rightarrow> buildOpts \<Rightarrow> ImageBuildOptions res" where
  "imageBuildOptions env w p bo =
     bind_res (gitInfo env p) (\<lambda>(gitCommit, version).
     bind_res (case pk_config p of None \<Rightarrow> Ok [] | Some c \<Rightarrow> pw_marshalConfig w c) (\<lambda>config.
     bind_res (buildArguments p bo gitCommit version) (\<lambda>args.
       Ok \<lparr>ib_Labels = buildLabels w p gitCommit config, ib_BuildArgs = args,
           ib_NetworkMode = (if pk_network p then ''default'' else ''none''), ib_Dockerfile = [],
           ib_SSH = bp_ssh bo\<rparr>)))"

definition getBuilderForPlatform :: "string \<Rightarrow> (string \<rightharpoonup> string) \<Rightarrow> string" where
  "getBuilderForPlatform arch builders = (case builders (''linux/'' @ arch) of None \<Rightarrow> [] | Some b \<Rightarrow> b)"

section \<open>Building for one architecture\<close>

text \<open>
  The builder writes the image into a pipe that the cache reads at the same time: the result of the
  load is known when the build has ended.  The substring of an error that tells that an emulator
  is missing only changes its message.
\<close>

definition contains_str :: "string \<Rightarrow> string \<Rightarrow> bool" where
  "contains_str s sub = sublist sub s"

definition emulationError :: "string \<Rightarrow> string \<Rightarrow> string" where
  "emulationError platform e =
     (if contains_str e ''executor failed running [/dev/.buildkit_qemu_emulator''
      then ''buildkit was unable to emulate '' @ platform @
           ''. check binfmt has been set up and works for this platform: '' @ e
      else e)"

definition buildImage ::
  "PkgEnv \<Rightarrow> PkgWorld \<Rightarrow> Pkg \<Rightarrow> buildOpts \<Rightarrow> ImageBuildOptions \<Rightarrow> string \<Rightarrow> descriptor list pio" where
  "buildImage env w p bo opts arch =
     (let tagArch = FullTag p @ ''-'' @ arch; platform = ''linux/'' @ arch in
      io_bind (dd_Do env w (pk_dockerDepends p)) (\<lambda>_.
      io_bind (io_map_err (emulationError platform) (io_call (pw_do w)
          (DockerBuild tagArch (pk_path p) (getBuilderForPlatform arch (bp_builders bo)) platform
             (bp_ignoreCache bo) (opts\<lparr>ib_Dockerfile := bp_dockerfile bo\<rparr>)))) (\<lambda>_.
      io_bind (io_call (pw_descs w) (ImageLoad tagArch)) (\<lambda>indexDesc.
        if bp_dryRun bo then io_ok [[]]
        else if length indexDesc = 0 then io_err ''no index descriptor returned from load''
        else if length indexDesc > 1 then io_err ''more than one index descriptor returned from load''
        else io_wrap ''could not get content for index descriptor: ''
               (io_call (pw_descs w) (GetContent (hd indexDesc)))))))"

text \<open>Without force, an image that can be pulled is not built; a nil descriptor is dereferenced.\<close>

definition buildArch ::
  "PkgEnv \<Rightarrow> PkgWorld \<Rightarrow> Pkg \<Rightarrow> buildOpts \<Rightarrow> ImageBuildOptions \<Rightarrow> string \<Rightarrow> descriptor list pio" where
  "buildArch env w p bo opts arch =
     (if bp_force bo then buildImage env w p bo opts arch
      else
        io_bind (io_wrap (''could not resolve references for image '' @ pk_Tag p @ '': '')
                   (io_res (pe_refParse env (FullTag p)))) (\<lambda>ref.
        io_bind (io_try (io_call (pw_do w) (ImagePull ref [arch]))) (\<lambda>pulled.
          if pulled = None then buildImage env w p bo opts arch
          else
            io_bind (io_wrap (''could not find root descriptor for '' @ ref_String ref @ '': '')
                       (io_call (pw_desc w) (FindDescriptor ref))) (\<lambda>desc.
              case desc of None \<Rightarrow> io_fatal | Some d \<Rightarrow> io_ok [d]))))"

section \<open>The build\<close>

text \<open>
  Which architectures have to be built, and whether one was found in the cache, when neither force
  nor skip is asked for.
\<close>

definition checkPlatform ::
  "PkgWorld \<Rightarrow> buildOpts \<Rightarrow> refspec \<Rightarrow> string \<Rightarrow> string list \<times> bool \<Rightarrow> (string list \<times> bool) pio" where
  "checkPlatform w bo ref arch st =
     (case st of (build, inCache) \<Rightarrow>
      io_bind (io_try (io_call (pw_test w) (ImageInCache ref arch))) (\<lambda>exists.
        if exists = Some True then io_ok (build, True)
        else if bp_pull bo then
          io_bind (io_try (io_call (pw_do w) (ImagePull ref [arch]))) (\<lambda>pulled.
            io_ok (if pulled \<noteq> None then (build, inCache) else (build @ [arch], inCache)))
        else
          io_bind (io_wrap (''error checking remote registry for '' @ ref_String ref @ '': '')
                     (io_call (pw_test w) (ImageInRegistry ref arch))) (\<lambda>exists.
            io_ok (if exists then (build, inCache) else (build @ [arch], inCache)))))"

definition platformsToBuild :: "PkgWorld \<Rightarrow> buildOpts \<Rightarrow> refspec \<Rightarrow> (string list \<times> bool) pio" where
  "platformsToBuild w bo ref =
     (if bp_force bo \<and> bp_skipBuild bo then io_err ''cannot force build and skip build''
      else if bp_force bo then io_ok (bp_platforms bo, False)
      else if bp_skipBuild bo then io_ok ([], False)
      else io_fold (checkPlatform w bo ref) (bp_platforms bo) ([], False))"

definition buildArches ::
  "PkgEnv \<Rightarrow> PkgWorld \<Rightarrow> Pkg \<Rightarrow> buildOpts \<Rightarrow> ImageBuildOptions \<Rightarrow> string list \<Rightarrow> descriptor list pio" where
  "buildArches env w p bo opts arches =
     io_fold (\<lambda>arch descs.
       io_bind (io_wrap (''error building for arch '' @ arch @ '': '') (buildArch env w p bo opts arch)) (\<lambda>built.
         if built = [] then io_err (''no valid descriptor returned for image for arch '' @ arch)
         else io_ok (descs @ built))) arches []"

definition loadDocker :: "PkgEnv \<Rightarrow> PkgWorld \<Rightarrow> Pkg \<Rightarrow> string \<Rightarrow> unit pio" where
  "loadDocker env w p arch =
     io_bind (io_res (pe_refParse env (FullTag p))) (\<lambda>ref.
     io_bind (io_wrap ''unable to get reader from cache: ''
                (io_call (pw_do w) (TarReader ref arch (FullTag p @ ''-'' @ arch)))) (\<lambda>_.
     io_bind (io_call (pw_do w) (Load (FullTag p @ ''-'' @ arch))) (\<lambda>_.
       if arch = pw_goarch w then io_call (pw_do w) (DockerTag (FullTag p @ ''-'' @ arch) (FullTag p))
       else io_ok ())))"

definition tagRelease :: "PkgWorld \<Rightarrow> Pkg \<Rightarrow> string \<Rightarrow> string \<Rightarrow> unit pio" where
  "tagRelease w p fullRelTag arch =
     io_bind (io_call (pw_do w) (DockerTag (FullTag p @ ''-'' @ arch) (fullRelTag @ ''-'' @ arch))) (\<lambda>_.
       if arch = pw_goarch w then io_call (pw_do w) (DockerTag (FullTag p @ ''-'' @ arch) fullRelTag)
       else io_ok ())"

text \<open>The release: the image is brought into the cache if it is only in the registry.\<close>

definition releasePkg ::
  "PkgEnv \<Rightarrow> PkgWorld \<Rightarrow> Pkg \<Rightarrow> buildOpts \<Rightarrow> refspec \<Rightarrow> descriptor option \<Rightarrow> unit pio" where
  "releasePkg env w p bo ref desc =
     io_bind (case desc of
         Some d \<Rightarrow> io_ok d
       | None \<Rightarrow>
           io_bind (io_wrap ''unable to pull image for release: ''
                      (io_call (pw_do w) (ImagePull ref (bp_platforms bo)))) (\<lambda>_.
           io_bind (io_call (pw_desc w) (FindDescriptor ref)) (\<lambda>desc.
             case desc of
               Some d \<Rightarrow> io_ok d
             | None \<Rightarrow> io_err (''unable to find image descriptor in local cache for '' @ FullTag p @
                              '' after pull, cannot release'')))) (\<lambda>d.
     io_bind (io_res (ReleaseTag p (bp_release bo))) (\<lambda>relTag.
     let fullRelTag = ReferenceExpand relTag [] in
     io_bind (io_res (pe_refParse env fullRelTag)) (\<lambda>_.
     io_bind (io_call (pw_do w) (DescriptorWrite fullRelTag d)) (\<lambda>_.
     io_bind (io_call (pw_do w) (Push fullRelTag (bp_manifest bo) False)) (\<lambda>_.
       if bp_targetDocker bo then io_loop (tagRelease w p fullRelTag) (bp_platforms bo) else io_ok ())))))"

text \<open>Looking again for an image in the cache, up to the first one.\<close>

fun recheckCache :: "PkgWorld \<Rightarrow> refspec \<Rightarrow> string list \<Rightarrow> bool pio" where
  "recheckCache w ref [] = io_ok False"
| "recheckCache w ref (arch # arches) =
     io_bind (io_try (io_call (pw_test w) (ImageInCache ref arch))) (\<lambda>exists.
       if exists = Some True then io_ok True else recheckCache w ref arches)"

definition pushPkg ::
  "PkgEnv \<Rightarrow> PkgWorld \<Rightarrow> Pkg \<Rightarrow> buildOpts \<Rightarrow> refspec \<Rightarrow> string list \<Rightarrow> bool \<Rightarrow> descriptor option \<Rightarrow> unit pio" where
  "pushPkg env w p bo ref built inCache desc =
     io_bind (if built = [] \<and> \<not> inCache then recheckCache w ref (bp_platforms bo) else io_ok inCache) (\<lambda>inCache.
       let skipDefaultPush = (built = [] \<and> \<not> inCache) in
       if skipDefaultPush \<and> bp_release bo = [] then io_ok ()
       else if pk_dirty p then io_err ''build complete, refusing to push dirty package''
       else
         io_bind (if skipDefaultPush then io_ok ()
                  else io_call (pw_do w) (Push (FullTag p) (bp_manifest bo) True)) (\<lambda>_.
           if bp_release bo = [] then io_ok () else releasePkg env w p bo ref desc))"

text \<open>The checks before anything is done; they may set the Dockerfile and the release.\<close>

definition checkBuild :: "PkgEnv \<Rightarrow> PkgWorld \<Rightarrow> Pkg \<Rightarrow> buildOpts \<Rightarrow> (refspec \<times> buildOpts) res" where
  "checkBuild env w p bo =
     bind_res (wrap_err (''could not resolve references for image '' @ pk_Tag p @ '': '')
                 (pe_refParse env (FullTag p))) (\<lambda>ref.
     bind_res (cleanForBuild p) (\<lambda>_.
       let bo = (if bp_dockerfile bo = [] then bo\<lparr>bp_dockerfile := pk_dockerfile p\<rparr> else bo) in
       if contains_str (bp_dockerfile bo) ''..''
       then Err (''cannot expand beyond root of context for dockerfile '' @ bp_dockerfile bo)
       else if \<not> pw_exists w (path_join [pk_path p, bp_dockerfile bo])
       then Err (''dockerfile '' @ bp_dockerfile bo @ '' does not exist or cannot be read in context '' @ pk_path p)
       else if bp_cacheDir bo = [] then Err ''must provide linuxkit build cache directory''
       else
         bind_res (case pk_git p of
             Some dir \<Rightarrow> if bp_push bo \<and> bp_release bo = [] then commitTag env dir ''HEAD'' else Ok (bp_release bo)
           | None \<Rightarrow> Ok (bp_release bo)) (\<lambda>release.
           let bo = bo\<lparr>bp_release := release\<rparr> in
           if bp_release bo \<noteq> [] \<and> \<not> bp_push bo
           then Err (''cannot release '' @ bp_release bo @ '' if not pushing'')
           else bind_res (pw_newProvider w) (\<lambda>_. Ok (ref, bo)))))"

text \<open>Building what is missing; true when that was the end of a dry run.\<close>

definition buildMissing :: "PkgEnv \<Rightarrow> PkgWorld \<Rightarrow> Pkg \<Rightarrow> refspec \<Rightarrow> buildOpts \<Rightarrow> string list \<Rightarrow> bool pio" where
  "buildMissing env w p ref bo built =
     (if built = [] then io_ok False
      else
        io_bind (io_res (imageBuildOptions env w p bo)) (\<lambda>opts.
        io_bind (buildArches env w p bo opts built) (\<lambda>descs.
          if bp_dryRun bo then io_ok True
          else io_bind (io_call (pw_do w) (IndexWrite ref descs)) (\<lambda>_. io_ok False))))"

definition finishBuild ::
  "PkgEnv \<Rightarrow> PkgWorld \<Rightarrow> Pkg \<Rightarrow> refspec \<Rightarrow> buildOpts \<Rightarrow> string list \<Rightarrow> bool \<Rightarrow> unit pio" where
  "finishBuild env w p ref bo built inCache =
     io_bind (io_call (pw_desc w) (FindDescriptor ref)) (\<lambda>desc.
     io_bind (if bp_targetDocker bo \<and> desc \<noteq> None then io_loop (loadDocker env w p) (bp_platforms bo)
              else io_ok ()) (\<lambda>_.
       if \<not> bp_push bo then io_ok () else pushPkg env w p bo ref built inCache desc))"

definition runBuild :: "PkgEnv \<Rightarrow> PkgWorld \<Rightarrow> Pkg \<Rightarrow> refspec \<Rightarrow> buildOpts \<Rightarrow> unit pio" where
  "runBuild env w p ref bo =
     io_bind (io_wrap ''contexts not supported, check docker version: ''
                (io_call (pw_do w) ContextSupportCheck)) (\<lambda>_.
     io_bind (platformsToBuild w bo ref) (\<lambda>(built, inCache).
     io_bind (buildMissing env w p ref bo built) (\<lambda>finished.
       if finished then io_ok () else finishBuild env w p ref bo built inCache)))"

definition pkg_Build :: "PkgEnv \<Rightarrow> PkgWorld \<Rightarrow> Pkg \<Rightarrow> BuildOpt list \<Rightarrow> unit pio" where
  "pkg_Build env w p bos =
     io_bind (io_res (checkBuild env w p (fold (\<lambda>fn bo. fn bo) bos buildOpts_zero)))
       (\<lambda>(ref, bo). runBuild env w p ref bo)"

section \<open>What is published\<close>

text \<open>
  The release of a build: the version that was asked for or, when none was, the tag of the head
  commit; and its name.
\<close>

definition releaseOf :: "PkgEnv \<Rightarrow> Pkg \<Rightarrow> buildOpts \<Rightarrow> string \<Rightarrow> bool" where
  "releaseOf env p bo r \<longleftrightarrow>
     r \<noteq> [] \<and> (if bp_release bo \<noteq> [] then r = bp_release bo
              else (\<exists>dir. pk_git p = Some dir \<and> commitTag env dir ''HEAD'' = Ok r))"

definition releaseName :: "PkgEnv \<Rightarrow> Pkg \<Rightarrow> buildOpts \<Rightarrow> string \<Rightarrow> bool" where
  "releaseName env p bo name \<longleftrightarrow>
     (\<exists>r. releaseOf env p bo r \<and> name = ReferenceExpand (pk_org p @ ''/'' @ pk_image p @ '':'' @ r) [])"

text \<open>
  A call that publishes may only happen for a clean package built from the head commit, when a push
  was asked for; the default tag may be overwritten, a release may not.  A tag in the local docker names an
  image of this package for one of the architectures that were asked for: after the package itself, for the architecture of
  the host, or, under the conditions of a push, after the release.
\<close>

definition pushable :: "Pkg \<Rightarrow> buildOpts \<Rightarrow> bool" where
  "pushable p bo \<longleftrightarrow> \<not> pk_dirty p \<and> bp_push bo \<and> pk_commitHash p = ''HEAD''"

fun publishable :: "PkgEnv \<Rightarrow> PkgWorld \<Rightarrow> Pkg \<Rightarrow> buildOpts \<Rightarrow> pk_call \<Rightarrow> bool" where
  "publishable env w p bo (Push name manifest override) \<longleftrightarrow>
     pushable p bo \<and> manifest = bp_manifest bo \<and> (if override then name = FullTag p else releaseName env p bo name)"
| "publishable env w p bo (DescriptorWrite name d) \<longleftrightarrow> pushable p bo \<and> releaseName env p bo name"
| "publishable env w p bo (DockerTag src dst) \<longleftrightarrow>
     bp_targetDocker bo \<and>
     (\<exists>arch\<in>set (bp_platforms bo). src = FullTag p @ ''-'' @ arch \<and>
        (arch = pw_goarch w \<and> dst = FullTag p \<or>
         pushable p bo \<and> (\<exists>rel. releaseName env p bo rel \<and>
           (dst = rel @ ''-'' @ arch \<or> arch = pw_goarch w \<and> dst = rel))))"
| "publishable env w p bo _ \<longleftrightarrow> True"

text \<open>What the checks keep of the options.\<close>

definition checkedOpts :: "PkgEnv \<Rightarrow> Pkg \<Rightarrow> buildOpts \<Rightarrow> buildOpts \<Rightarrow> bool" where
  "checkedOpts env p bo bo' \<longleftrightarrow>
     bp_push bo' = bp_push bo \<and> bp_platforms bo' = bp_platforms bo \<and> bp_manifest bo' = bp_manifest bo \<and>
     bp_targetDocker bo' = bp_targetDocker bo \<and> bp_skipBuild bo' = bp_skipBuild bo \<and> bp_force bo' = bp_force bo \<and>
     bp_dryRun bo' = bp_dryRun bo \<and> (bp_release bo' = [] \<or> releaseOf env p bo (bp_release bo'))"

lemma checkBuild_Ok:
  "checkBuild env w p bo = Ok (ref, bo') \<Longrightarrow>
     pe_refParse env (FullTag p) = Ok ref \<and> pk_commitHash p = ''HEAD'' \<and> checkedOpts env p bo bo'"
  by (auto simp: checkBuild_def cleanForBuild_def checkedOpts_def releaseOf_def Let_def split: if_splits option.splits)

lemma ReleaseTag_Ok:
  assumes "ReleaseTag p (bp_release bo') = Ok t" and "checkedOpts env p bo bo'"
  shows "\<not> pk_dirty p \<and> releaseName env p bo (ReferenceExpand t [])"
  using assms by (auto simp: ReleaseTag_def releaseName_def checkedOpts_def split: if_splits)

lemma only_dependImage: "only (publishable env w p bo) (dependImage env w dd s)"
  unfolding dependImage_def by (intro only_intros) simp_all

lemma only_dd_Do: "only (publishable env w p bo) (dd_Do env w dd)"
  unfolding dd_Do_def by (intro only_intros only_dependImage) simp_all

lemma only_buildImage: "only (publishable env w p bo) (buildImage env w p' bo' opts arch)"
  unfolding buildImage_def Let_def by (intro only_intros only_dd_Do) simp_all

lemma only_buildArch: "only (publishable env w p bo) (buildArch env w p' bo' opts arch)"
  unfolding buildArch_def by (intro only_intros only_buildImage) simp_all

lemma only_buildArches: "only (publishable env w p bo) (buildArches env w p' bo' opts arches)"
  unfolding buildArches_def by (intro only_intros only_buildArch)


lemma only_loadDocker:
  assumes "bp_targetDocker bo" and "arch \<in> set (bp_platforms bo)"
  shows "only (publishable env w p bo) (loadDocker env w p arch)"
  unfolding loadDocker_def using assms by (intro only_intros) auto

lemma only_recheckCache: "only (publishable env w p bo) (recheckCache w ref arches)"
  by (induction arches) (auto intro!: only_intros)

lemma only_tagRelease:
  assumes "bp_targetDocker bo" and "pushable p bo" and "releaseName env p bo rel" and "arch \<in> set (bp_platforms bo)"
  shows "only (publishable env w p bo) (tagRelease w p rel arch)"
  unfolding tagRelease_def using assms by (intro only_intros) auto

lemma only_releasePkg:
  assumes "pushable p bo" and "checkedOpts env p bo bo'"
  shows "only (publishable env w p bo) (releasePkg env w p bo' ref desc)"
proof -
  have opts: "bp_manifest bo' = bp_manifest bo" "bp_targetDocker bo' = bp_targetDocker bo"
    "bp_platforms bo' = bp_platforms bo"
    using assms(2) by (simp_all add: checkedOpts_def)
  have rel: "releaseName env p bo (ReferenceExpand t [])" if "ReleaseTag p (bp_release bo') = Ok t" for t
    using ReleaseTag_Ok [OF that assms(2)] by blast
  show ?thesis
    unfolding releasePkg_def Let_def opts
    using assms(1) rel
    by (intro only_bind only_bind_res) (auto intro!: only_intros only_tagRelease)
qed

lemma only_pushPkg:
  assumes "bp_push bo" and "pk_commitHash p = ''HEAD''" and "checkedOpts env p bo bo'"
  shows "only (publishable env w p bo) (pushPkg env w p bo' ref built inCache desc)"
proof -
  have "only (publishable env w p bo) (releasePkg env w p bo' ref desc)" if "\<not> pk_dirty p"
    using that assms by (intro only_releasePkg) (simp_all add: pushable_def)
  moreover have "publishable env w p bo (Push (FullTag p) (bp_manifest bo') True)" if "\<not> pk_dirty p"
    using that assms by (simp add: pushable_def checkedOpts_def)
  ultimately show ?thesis
    unfolding pushPkg_def Let_def by (intro only_if only_bind only_pure only_call only_recheckCache)
qed

lemma only_buildMissing: "only (publishable env w p bo) (buildMissing env w p' ref bo' built)"
  unfolding buildMissing_def by (intro only_if only_bind only_pure only_call only_buildArches) simp_all

lemma only_finishBuild:
  assumes "checkedOpts env p bo bo'" and "pk_commitHash p = ''HEAD''"
  shows "only (publishable env w p bo) (finishBuild env w p ref bo' built inCache)"
proof -
  have "only (publishable env w p bo) (if \<not> bp_push bo' then io_ok () else pushPkg env w p bo' ref built inCache desc)"
    for desc
    using assms by (auto simp: checkedOpts_def intro!: only_intros only_pushPkg)
  moreover have "only (publishable env w p bo) (if bp_targetDocker bo' \<and> desc \<noteq> None
      then io_loop (loadDocker env w p) (bp_platforms bo') else io_ok ())" for desc :: "descriptor option"
    using assms(1) by (auto simp: checkedOpts_def intro!: only_intros only_loadDocker)
  ultimately show ?thesis
    unfolding finishBuild_def by (intro only_bind only_call) simp_all
qed


section \<open>What a build achieves\<close>

text \<open>An architecture is in the cache, in the registry, was pulled, or was built and loaded into the cache.\<close>

definition available :: "PkgWorld \<Rightarrow> Pkg \<Rightarrow> refspec \<Rightarrow> string \<Rightarrow> pk_call list \<Rightarrow> bool" where
  "available w p ref arch tr \<longleftrightarrow>
     answered (pw_test w) (ImageInCache ref arch) True tr \<or>
     answered (pw_test w) (ImageInRegistry ref arch) True tr \<or>
     answered (pw_do w) (ImagePull ref [arch]) () tr \<or>
     (\<exists>builder ignoreCache opts d.
        answered (pw_do w) (DockerBuild (FullTag p @ ''-'' @ arch) (pk_path p) builder (''linux/'' @ arch)
          ignoreCache opts) () tr \<and>
        answered (pw_descs w) (ImageLoad (FullTag p @ ''-'' @ arch)) [d] tr)"

lemma available_mono: "available w p ref arch tr \<Longrightarrow> available w p ref arch (tr @ cs)"
  unfolding available_def using answered_mono by metis

lemma available_extends:
  "available w p ref arch tr \<Longrightarrow> only P m \<Longrightarrow> m tr = (tr', r) \<Longrightarrow> available w p ref arch tr'"
  using only_extends available_mono by metis

lemma checkPlatform_available:
  assumes "checkPlatform w bo ref arch (b, i) tr = (tr', Ok (b', i'))"
  shows "set b \<subseteq> set b' \<and> (arch \<in> set b' \<or> available w p ref arch tr')"
  using assms
  by (auto simp: checkPlatform_def io_Ok available_def split: if_splits dest!: call_answered)

lemma platforms_available:
  assumes "io_fold (checkPlatform w bo ref) archs (b, i) tr = (tr', Ok (b', i'))"
  shows "set b \<subseteq> set b' \<and> (\<forall>arch\<in>set archs. arch \<in> set b' \<or> available w p ref arch tr')"
  using assms
proof (induction archs arbitrary: b i tr)
  case Nil
  then show ?case by (simp add: io_Ok)
next
  case (Cons arch archs)
  then obtain t b1 i1 where one: "checkPlatform w bo ref arch (b, i) tr = (t, Ok (b1, i1))"
    and rest: "io_fold (checkPlatform w bo ref) archs (b1, i1) t = (tr', Ok (b', i'))"
    by (auto simp: io_Ok)
  have "only (\<lambda>_. True) (io_fold (checkPlatform w bo ref) archs (b1, i1))"
    unfolding checkPlatform_def by (intro only_intros) simp_all
  with checkPlatform_available [OF one, of p] Cons.IH [OF rest] rest show ?case
    using available_extends by fastforce
qed

lemma only_any: "only (publishable env w p bo) m \<Longrightarrow> only (\<lambda>_. True) m"
  by (auto simp: only_def list_all_iff)

lemma buildImage_available:
  assumes "buildImage env w p bo opts arch tr = (tr', Ok ds)" and "\<not> bp_dryRun bo"
  shows "available w p ref arch tr'"
proof -
  let ?c = "DockerBuild (FullTag p @ ''-'' @ arch) (pk_path p) (getBuilderForPlatform arch (bp_builders bo))
      (''linux/'' @ arch) (bp_ignoreCache bo) (opts\<lparr>ib_Dockerfile := bp_dockerfile bo\<rparr>)"
  let ?l = "ImageLoad (FullTag p @ ''-'' @ arch)"
  from assms obtain t t1 t2 descs where b: "io_call (pw_do w) ?c t = (t1, Ok ())"
    and l: "io_call (pw_descs w) ?l t1 = (t2, Ok descs)"
    and r: "(if length descs = 0 then io_err ''no index descriptor returned from load''
        else if length descs > 1 then io_err ''more than one index descriptor returned from load''
        else io_wrap ''could not get content for index descriptor: ''
               (io_call (pw_descs w) (GetContent (hd descs)))) t2 = (tr', Ok ds)"
    unfolding buildImage_def Let_def io_bind_Ok io_wrap_Ok if_not_P [OF assms(2)] by auto
  from r have "length descs \<noteq> 0" "\<not> length descs > 1" by (auto simp: io_Ok split: if_splits)
  then obtain d where d: "descs = [d]" by (cases descs; cases "tl descs") auto
  from b l obtain cs where cs: "t2 = t1 @ cs" by (auto simp: io_call_def)
  from answered_mono [OF call_answered [OF b], of cs] call_answered [OF l] have "available w p ref arch t2"
    unfolding available_def cs d by blast
  moreover have "only (\<lambda>_. True) (if length descs = 0 then io_err ''no index descriptor returned from load''
        else if length descs > 1 then io_err ''more than one index descriptor returned from load''
        else io_wrap ''could not get content for index descriptor: ''
               (io_call (pw_descs w) (GetContent (hd descs))))"
    by (intro only_intros) simp_all
  ultimately show ?thesis using r available_extends by blast
qed

lemma buildArch_available:
  assumes "buildArch env w p bo opts arch tr = (tr', Ok ds)" and "pe_refParse env (FullTag p) = Ok ref"
    and dry: "\<not> bp_dryRun bo"
  shows "available w p ref arch tr'"
proof (cases "bp_force bo")
  case True
  with assms(1) dry show ?thesis by (simp add: buildArch_def buildImage_available)
next
  case False
  with assms obtain t pulled where t: "io_try (io_call (pw_do w) (ImagePull ref [arch])) tr = (t, Ok pulled)"
    and rest: "(if pulled = None then buildImage env w p bo opts arch
       else io_bind (io_wrap (''could not find root descriptor for '' @ ref_String ref @ '': '')
               (io_call (pw_desc w) (FindDescriptor ref)))
             (\<lambda>desc. case desc of None \<Rightarrow> io_fatal | Some d \<Rightarrow> io_ok [d])) t = (tr', Ok ds)"
    by (auto simp: buildArch_def io_bind_Ok io_pure_Ok io_wrap_Ok)
  show ?thesis
  proof (cases pulled)
    case None
    with rest dry show ?thesis using buildImage_available by auto
  next
    case (Some u)
    with t have "available w p ref arch t"
      by (auto simp: io_try_Some available_def dest!: call_answered)
    moreover have "only (\<lambda>_. True) (if pulled = None then buildImage env w p bo opts arch
       else io_bind (io_wrap (''could not find root descriptor for '' @ ref_String ref @ '': '')
               (io_call (pw_desc w) (FindDescriptor ref)))
             (\<lambda>desc. case desc of None \<Rightarrow> io_fatal | Some d \<Rightarrow> io_ok [d]))"
      by (intro only_if only_any [OF only_buildImage] only_intros) simp_all
    ultimately show ?thesis using rest available_extends by blast
  qed
qed

lemma buildArches_available:
  assumes "buildArches env w p bo opts archs tr = (tr', Ok ds)" and "pe_refParse env (FullTag p) = Ok ref"
    and "\<not> bp_dryRun bo"
  shows "\<forall>arch\<in>set archs. available w p ref arch tr'"
  using assms(1) unfolding buildArches_def
proof (rule io_fold_each)
  fix arch descs t t' ds'
  show "only (\<lambda>_. True) (io_bind (io_wrap (''error building for arch '' @ arch @ '': '')
         (buildArch env w p bo opts arch)) (\<lambda>built.
         if built = [] then io_err (''no valid descriptor returned for image for arch '' @ arch)
         else io_ok (descs @ built)))"
    by (intro only_intros only_any [OF only_buildArch])
  assume "io_bind (io_wrap (''error building for arch '' @ arch @ '': '')
         (buildArch env w p bo opts arch)) (\<lambda>built.
         if built = [] then io_err (''no valid descriptor returned for image for arch '' @ arch)
         else io_ok (descs @ built)) t = (t', Ok ds')"
  then obtain b where "buildArch env w p bo opts arch t = (t', Ok b)"
    by (auto simp: io_Ok split: if_splits)
  then show "available w p ref arch t'" by (rule buildArch_available [OF _ assms(2,3)])
qed (rule available_mono)

lemma buildMissing_available:
  assumes "buildMissing env w p ref bo built tr = (tr', Ok finished)" and "pe_refParse env (FullTag p) = Ok ref"
    and "arch \<in> set built" and "\<not> bp_dryRun bo"
  shows "available w p ref arch tr'"
proof -
  let ?index = "\<lambda>descs. if bp_dryRun bo then io_ok True
      else io_bind (io_call (pw_do w) (IndexWrite ref descs)) (\<lambda>_. io_ok False)"
  from assms(3) have "built \<noteq> []" by auto
  with assms(1) obtain opts t descs where b: "buildArches env w p bo opts built tr = (t, Ok descs)"
    and l: "?index descs t = (tr', Ok finished)"
    unfolding buildMissing_def if_not_P [OF \<open>built \<noteq> []\<close>] io_bind_Ok io_pure_Ok by blast
  have "only (\<lambda>_. True) (?index descs)" by (intro only_intros) simp_all
  with buildArches_available [OF b assms(2,4)] assms(3) l show ?thesis using available_extends by blast
qed

lemma runBuild_available:
  assumes "runBuild env w p ref bo tr = (tr', Ok ())" and "\<not> bp_skipBuild bo" and "pk_commitHash p = ''HEAD''"
    and "pe_refParse env (FullTag p) = Ok ref" and "\<not> bp_dryRun bo"
  shows "\<forall>arch\<in>set (bp_platforms bo). available w p ref arch tr'"
proof
  fix arch assume arch: "arch \<in> set (bp_platforms bo)"
  from assms(1) obtain t1 t2 built inCache t3 finished where
    choose: "platformsToBuild w bo ref t1 = (t2, Ok (built, inCache))" and
    build: "buildMissing env w p ref bo built t2 = (t3, Ok finished)" and
    rest: "(if finished then io_ok () else finishBuild env w p ref bo built inCache) t3 = (tr', Ok ())"
    unfolding runBuild_def io_bind_Ok by (force simp: io_bind_Ok)
  from choose arch assms(2) have "arch \<in> set built \<or> available w p ref arch t2"
    using platforms_available [of w bo ref "bp_platforms bo" "[]" False t1 t2]
    by (auto simp: platformsToBuild_def io_Ok split: if_splits)
  then have "available w p ref arch t3"
    using buildMissing_available [OF build assms(4) _ assms(5)] available_extends [OF _ only_buildMissing build] by blast
  moreover have "only (publishable env w p bo) (if finished then io_ok () else finishBuild env w p ref bo built inCache)"
    by (intro only_if only_pure only_finishBuild assms(3)) (simp add: checkedOpts_def releaseOf_def)
  ultimately show "available w p ref arch tr'" using available_extends rest by blast
qed

section \<open>Build arguments\<close>

definition argPair :: "(string \<Rightarrow> string) \<Rightarrow> string \<Rightarrow> (string \<times> string) option" where
  "argPair trim arg = (case splitN 2 (CHR ''='') arg of [k, v] \<Rightarrow> Some (trim k, trim v) | _ \<Rightarrow> None)"

lemma addArg_Ok: "addArg trim arg m = Ok m' \<longleftrightarrow> (\<exists>k v. argPair trim arg = Some (k, v) \<and> m' = m(k \<mapsto> v))"
  by (auto simp: addArg_def argPair_def split: list.splits)

text \<open>The arguments that win: the last of each name.\<close>

definition lastArgs :: "(string \<Rightarrow> string) \<Rightarrow> string list \<Rightarrow> (string \<rightharpoonup> string)" where
  "lastArgs trim xs = map_of (rev (List.map_filter (argPair trim) xs))"

lemma lastArgs_Nil [simp]: "lastArgs trim [] = Map.empty"
  by (simp add: lastArgs_def map_filter_simps)

lemma addArgs_last: "loop_res (addArg trim) xs m = Ok m' \<Longrightarrow> m' = m ++ lastArgs trim xs"
proof (induction xs arbitrary: m)
  case Nil
  then show ?case by (simp add: lastArgs_def map_filter_simps)
next
  case (Cons x xs)
  then obtain k v where "argPair trim x = Some (k, v)" and "m' = m(k \<mapsto> v) ++ lastArgs trim xs"
    by (auto simp: addArg_Ok)
  then show ?case by (simp add: lastArgs_def map_filter_simps map_add_def fun_eq_iff split: option.splits)
qed

lemma fold_addDefault:
  "fold addDefault ds m k = (case m k of Some v \<Rightarrow> Some v | None \<Rightarrow> map_of (filter (\<lambda>(k, v). v \<noteq> []) ds) k)"
  by (induction ds arbitrary: m) (auto simp: addDefault_def split: option.splits if_splits)


text \<open>
  C15.  A build that succeeds, was not told to skip and is not a dry run leaves no architecture behind: each one that
  was asked for was found in the cache or in the registry, was pulled, or was built and loaded
  into the cache as one image.
\<close>

theorem Build_covers_platforms:
  assumes "pkg_Build env w p bos tr = (tr', Ok ())"
    and "bo = fold (\<lambda>fn bo. fn bo) bos buildOpts_zero" and "\<not> bp_skipBuild bo" and "\<not> bp_dryRun bo"
  shows "\<exists>ref. pe_refParse env (FullTag p) = Ok ref \<and>
    list_all (\<lambda>arch. available w p ref arch tr') (bp_platforms bo)"
proof -
  from assms(1,2) obtain ref bo' where c: "checkBuild env w p bo = Ok (ref, bo')"
    and r: "runBuild env w p ref bo' tr = (tr', Ok ())"
    by (auto simp: pkg_Build_def io_bind_Ok io_pure_Ok)
  note b = checkBuild_Ok [OF c, unfolded checkedOpts_def]
  with runBuild_available [OF r] assms(3,4) show ?thesis by (auto simp: list_all_iff)
qed

text \<open>
  C17.  Which value a build argument has: the last one given on the command line, with blanks removed;
  else the last one of the package's own file; else, when it is not empty, what is known about the
  package.
\<close>

theorem buildArguments_precedence:
  assumes "buildArguments p bo gitCommit version = Ok args"
  shows "args name =
    (case lastArgs trim_space (bp_buildArgs bo) name of
       Some v \<Rightarrow> Some v
     | None \<Rightarrow>
         (case lastArgs (\<lambda>s. s) (case pk_buildArgs p of None \<Rightarrow> [] | Some xs \<Rightarrow> xs) name of
            Some v \<Rightarrow> Some v
          | None \<Rightarrow> map_of (filter (\<lambda>(k, v). v \<noteq> []) (defaultArgs p gitCommit version)) name))"
  using assms
  by (auto simp: buildArguments_def fold_addDefault map_add_def dest!: addArgs_last split: option.splits)

definition demoPkg :: Pkg where
  "demoPkg =
     \<lparr>pk_image = ''init'', pk_org = ''linuxkit'', pk_arches = [''amd64''], pk_sources = [], pk_gitRepo = [],
      pk_network = False, pk_trust = False, pk_cache = True, pk_config = None, pk_buildArgs = None,
      pk_dockerDepends = \<lparr>dd_images = [], dd_path = [], dd_dir = False\<rparr>, pk_path = ''/src/init'',
      pk_buildYML = ''/src/init/build.yml'', pk_dockerfile = ''Dockerfile'', pk_hash = ''abc'', pk_tag = ''abc'',
      pk_dirty = False, pk_commitHash = ''HEAD'', pk_git = None\<rparr>"

definition demoPkgEnv :: PkgEnv where
  "demoPkgEnv =
     \<lparr>pe_git = (\<lambda>_ _. ExitError), pe_Getwd = Ok ''/src'', pe_ReadFile = (\<lambda>_. Ok []), pe_Lstat = (\<lambda>_. Ok (False, False)),
      pe_Open = (\<lambda>_. Ok (Ok [])), pe_Glob = (\<lambda>_. Ok []), pe_StatDir = (\<lambda>_. Ok (True, [])), pe_User = ''me'',
      pe_sha1 = (\<lambda>s. s), pe_sha256 = (\<lambda>s. s), pe_tagTemplate = (\<lambda>_. Ok Ok),
      pe_refParse = (\<lambda>s. Ok \<lparr>Locator = s, Object = []\<rparr>), pe_Digest = Object, pe_digestValidate = (\<lambda>_. Ok ())\<rparr>"

text \<open>A world in which nothing is cached and every call succeeds.\<close>

definition demoWorld :: PkgWorld where
  "demoWorld =
     \<lparr>pw_do = (\<lambda>_ c. case c of ImagePull _ _ \<Rightarrow> Err ''not found'' | _ \<Rightarrow> Ok ()), pw_test = (\<lambda>_ _. Ok False),
      pw_desc = (\<lambda>_ _. Ok (Some ''index'')), pw_descs = (\<lambda>_ _. Ok [''image'']), pw_newProvider = Ok (),
      pw_exists = (\<lambda>_. True), pw_goarch = ''amd64'', pw_marshalConfig = (\<lambda>_. Ok []), pw_version = [],
      pw_revision = []\<rparr>"

abbreviation (input) demoOptions :: "BuildOpt list" where
  "demoOptions \<equiv> [WithBuildCacheDir ''/cache'', WithBuildPlatforms [''amd64''], WithBuildPush]"

lemma demo_opts:
  "fold (\<lambda>fn bo. fn bo) demoOptions buildOpts_zero =
     buildOpts_zero\<lparr>bp_cacheDir := ''/cache'', bp_platforms := [''amd64''], bp_push := True\<rparr>"
  by (simp add: WithBuildCacheDir_def WithBuildPlatforms_def WithBuildPush_def)

lemma demo_pkg_Build:
  "\<exists>tr. pkg_Build demoPkgEnv demoWorld demoPkg demoOptions [] = (tr, Ok ()) \<and> Push (FullTag demoPkg) False True \<in> set tr"
proof -
  have dots: "\<not> contains_str ''Dockerfile'' ''..''"
    by (simp add: contains_str_def sublist_Cons_right)
  have "checkBuild demoPkgEnv demoWorld demoPkg (fold (\<lambda>fn bo. fn bo) demoOptions buildOpts_zero) =
      Ok (\<lparr>Locator = FullTag demoPkg, Object = []\<rparr>,
          buildOpts_zero\<lparr>bp_cacheDir := ''/cache'', bp_platforms := [''amd64''], bp_push := True,
            bp_dockerfile := ''Dockerfile''\<rparr>)"
    unfolding demo_opts using dots
    by (simp add: checkBuild_def demoPkgEnv_def demoWorld_def demoPkg_def cleanForBuild_def buildOpts_zero_def)
  then show ?thesis
    unfolding pkg_Build_def
    by (simp add: runBuild_def Let_def io_bind_def io_res_def io_wrap_def io_call_def io_ok_def io_try_def
        demoWorld_def platformsToBuild_def checkPlatform_def buildOpts_zero_def buildMissing_def buildArches_def
        imageBuildOptions_def gitInfo_def demoPkg_def buildArguments_def buildArch_def buildImage_def
        dd_Do_def io_map_err_def finishBuild_def pushPkg_def demoPkgEnv_def)
qed

lemma demo_bools:
  "\<not> bp_skipBuild (buildOpts_zero\<lparr>bp_cacheDir := ''/cache'', bp_platforms := [''amd64''], bp_push := True\<rparr>)"
  "\<not> bp_dryRun (buildOpts_zero\<lparr>bp_cacheDir := ''/cache'', bp_platforms := [''amd64''], bp_push := True\<rparr>)"
  by (simp_all add: buildOpts_zero_def)

theorem Build_covers_platforms_witness:
  "\<exists>tr ref. pkg_Build demoPkgEnv demoWorld demoPkg demoOptions [] = (tr, Ok ()) \<and>
     available demoWorld demoPkg ref ''amd64'' tr"
proof -
  obtain tr where tr: "pkg_Build demoPkgEnv demoWorld demoPkg demoOptions [] = (tr, Ok ())"
    using demo_pkg_Build by blast
  from Build_covers_platforms [OF tr demo_opts [symmetric] demo_bools] tr show ?thesis by auto
qed


text \<open>A dry run pushes after all when every architecture is in the cache already.\<close>

lemma dryRun_pushes:
  "\<exists>tr. pkg_Build demoPkgEnv (demoWorld\<lparr>pw_test := \<lambda>_ _. Ok True\<rparr>) demoPkg (demoOptions @ [WithDryRun]) [] = (tr, Ok ()) \<and>
     Push (FullTag demoPkg) False True \<in> set tr"
proof -
  let ?w = "demoWorld\<lparr>pw_test := \<lambda>_ _. Ok True\<rparr>"
  have dots: "\<not> contains_str ''Dockerfile'' ''..''"
    by (simp add: contains_str_def sublist_Cons_right)
  have opts: "fold (\<lambda>fn bo. fn bo) (demoOptions @ [WithDryRun]) buildOpts_zero =
      buildOpts_zero\<lparr>bp_cacheDir := ''/cache'', bp_platforms := [''amd64''], bp_push := True, bp_dryRun := True\<rparr>"
    by (simp add: WithBuildCacheDir_def WithBuildPlatforms_def WithBuildPush_def WithDryRun_def)
  have "checkBuild demoPkgEnv ?w demoPkg (fold (\<lambda>fn bo. fn bo) (demoOptions @ [WithDryRun]) buildOpts_zero) =
      Ok (\<lparr>Locator = FullTag demoPkg, Object = []\<rparr>,
          buildOpts_zero\<lparr>bp_cacheDir := ''/cache'', bp_platforms := [''amd64''], bp_push := True, bp_dryRun := True,
            bp_dockerfile := ''Dockerfile''\<rparr>)"
    unfolding opts using dots
    by (simp add: checkBuild_def demoPkgEnv_def demoWorld_def demoPkg_def cleanForBuild_def buildOpts_zero_def)
  then show ?thesis
    unfolding pkg_Build_def
    by (simp add: runBuild_def Let_def io_bind_def io_res_def io_wrap_def io_call_def io_ok_def io_try_def
        demoWorld_def platformsToBuild_def checkPlatform_def buildOpts_zero_def buildMissing_def
        demoPkg_def finishBuild_def pushPkg_def demoPkgEnv_def)
qed

theorem buildArguments_precedence_witness:
  "\<exists>args. buildArguments (demoPkg\<lparr>pk_buildArgs := Some [''A=1'', ''B=2'']\<rparr>) (buildOpts_zero\<lparr>bp_buildArgs := [''A= 3 '']\<rparr>)
      ''c0ffee'' [] = Ok args \<and>
     args ''A'' = Some ''3'' \<and> args ''B'' = Some ''2'' \<and> args ''PKG_HASH'' = Some ''abc'' \<and> args ''GOPKGVERSION'' = None"
proof -
  let ?p = "demoPkg\<lparr>pk_buildArgs := Some [''A=1'', ''B=2'']\<rparr>"
  let ?bo = "buildOpts_zero\<lparr>bp_buildArgs := [''A= 3 '']\<rparr>"
  have trim: "trim_space '' 3 '' = ''3''" "trim_space ''A'' = ''A''" by (simp_all add: trim_space_def is_space_def)
  have pairs: "argPair trim_space ''A= 3 '' = Some (''A'', ''3'')" "argPair (\<lambda>s. s) ''A=1'' = Some (''A'', ''1'')"
    "argPair (\<lambda>s. s) ''B=2'' = Some (''B'', ''2'')"
    by (simp_all add: argPair_def numeral_2_eq_2 trim)
  have "\<exists>args. buildArguments ?p ?bo ''c0ffee'' [] = Ok args"
    by (simp add: buildArguments_def addArg_def numeral_2_eq_2)
  then obtain args where a: "buildArguments ?p ?bo ''c0ffee'' [] = Ok args" by blast
  have "args name = (case lastArgs trim_space [''A= 3 ''] name of Some v \<Rightarrow> Some v
     | None \<Rightarrow> (case lastArgs (\<lambda>s. s) [''A=1'', ''B=2''] name of Some v \<Rightarrow> Some v
          | None \<Rightarrow> map_of (filter (\<lambda>(k, v). v \<noteq> []) (defaultArgs ?p ''c0ffee'' [])) name))" for name
    using buildArguments_precedence [OF a, of name] by (simp cong: option.case_cong)
  then show ?thesis
    using a by (simp add: lastArgs_def map_filter_simps pairs defaultArgs_def demoPkg_def)
qed

end
