(* ===== verification/Spec2Isabelle.thy ===== *)
theory Spec2Isabelle
  imports Image_Index Output Memlogd Logwrite Service Rc_Init Metadata Pkglib_Build
begin

text \<open>
  A verification of LinuxKit: of the tool that builds an image out of a configuration, of the package
  tool beside it, and of the programs that start the image when it boots.  Paths of the builder below
  are relative to \<^verbatim>\<open>src/cmd/linuxkit\<close>, those of the booted system to \<^verbatim>\<open>pkg\<close>.

  \<^bold>\<open>The program.\<close>  \<^verbatim>\<open>linuxkit build\<close> reads YAML files, combines them (\<^verbatim>\<open>moby/config.go\<close>), turns
  every image into an OCI runtime specification and a root file system (\<^verbatim>\<open>moby/build/image.go\<close>), and
  writes one tar stream (\<^verbatim>\<open>moby/build/build.go\<close>), from which \<^verbatim>\<open>moby/build/output.go\<close> makes kernels,
  initial ram disks and disk images.  \<^verbatim>\<open>linuxkit pkg build\<close> (\<^verbatim>\<open>pkglib\<close>) decides the hash and tag of
  a package, builds it for the platforms that are missing and pushes it.  In the image \<^verbatim>\<open>init\<close>,
  \<^verbatim>\<open>rc.init\<close> and \<^verbatim>\<open>service\<close> mount what the specifications ask for and run the containers;
  \<^verbatim>\<open>memlogd\<close> keeps their logs in memory, \<^verbatim>\<open>logwrite\<close> puts them into files, and \<^verbatim>\<open>metadata\<close> unfolds
  the data of a cloud provider.

  \<^bold>\<open>Conventions.\<close>  A Go function is a function of the same name; a method carries the prefix of
  its receiver.  Results are \<open>Ok\<close>, \<open>Err\<close> with the message, or \<open>Panic\<close>, which is also what a
  fatal log message is.  A pointer that may be nil is an option, a Go slice is a list and a
  string a list of bytes.  What the code asks of the kernel, of other programs and of third-party packages is a
  field of a record of parameters (\<open>BuildEnv\<close>, \<open>OutEnv\<close>, \<open>LogwriteEnv\<close>, \<open>System\<close>, \<open>RcEnv\<close>,
  \<open>MdEnv\<close>, \<open>PkgEnv\<close>, \<open>PkgWorld\<close>); programs whose order of calls matters append to a trace
  (\<open>Trace_IO\<close>), and an answer may depend on everything done before.

  \<^bold>\<open>Theories.\<close>
  \<^item> \<open>Prelude\<close>, \<open>Go_Path\<close>, \<open>Trace_IO\<close>: results, loops, strings, the \<^verbatim>\<open>path\<close> package, traces of calls.
  \<^item> \<open>Util_Reference\<close> (\<^verbatim>\<open>util/reference.go\<close>, \<^verbatim>\<open>util/arch.go\<close>), \<open>Moby_Types\<close>, \<open>Moby_Config\<close>,
    \<open>Moby_Assign\<close>, \<open>Moby_OCI\<close> (\<^verbatim>\<open>moby/config.go\<close>): reading, combining and converting
    configurations.  A configuration that is read is well formed;
    which setting wins for mounts, capabilities and devices; exactly when a conversion succeeds.
  \<^item> \<open>Tar\<close>, \<open>Apk_Tar\<close> (\<^verbatim>\<open>moby/apk_tarwriter.go\<close>), \<open>Image_Tar\<close>, \<open>Image_Bundle\<close>
    (\<^verbatim>\<open>moby/build/image.go\<close>), \<open>Volumes\<close>, \<open>Kernel_Filter\<close>, \<open>Filesystem\<close>, \<open>Build\<close>
    (\<^verbatim>\<open>moby/build/build.go\<close>): the stream that is written.  Every container has its root and its
    specification at the place where the boot looks for it; an image that is used twice shares its lower directory; the
    writer that collects package databases refines a plain tar writer; the kernel filter keeps
    exactly the kernel; reuse from an earlier build gives back the section that was written.
  \<^item> \<open>Image_Index\<close> (\<^verbatim>\<open>util/index.go\<close>): merging two image indexes.
  \<^item> \<open>Cpio\<close>, \<open>Initrd\<close> (\<^verbatim>\<open>initrd/initrd.go\<close>), \<open>Output\<close> (\<^verbatim>\<open>moby/build/output.go\<close>): the formats.
    Reading the archive of the initial ram disk gives back the entries of the tar stream.
  \<^item> \<open>Memlogd\<close> (\<^verbatim>\<open>memlogd/cmd/memlogd\<close>), \<open>Logwrite\<close>: the log daemon as a step relation over
    its ring, queries and clients.  Queries are delivered in order and dumps complete; rotation
    keeps a suffix of the log.
  \<^item> \<open>Service\<close> (\<^verbatim>\<open>init/cmd/service\<close>), \<open>Rc_Init\<close> (\<^verbatim>\<open>init/cmd/rc.init\<close>), \<open>Metadata\<close>: the boot.
  \<^item> \<open>Pkglib\<close>, \<open>Pkglib_Build\<close> (\<^verbatim>\<open>pkglib\<close>): packages.  What a hash stands for, that, unless it is a dry run,
    only clean packages are published, and that a build that succeeds covers all platforms.

  This theory joins the builder and the boot: the calls that \<open>Service\<close> makes for the root of
  a container that \<open>Build\<close> wrote mount the image.

  \<^bold>\<open>Interfaces.\<close>  Locales state what one part relies on of another (the tar writer under the package
  database writer, the image source under the bundles, the ring under the daemon), and each is
  interpreted on the definitions of the part that provides it.

  \<^bold>\<open>Bounds.\<close>  Loops over data are structural or have a termination proof, so that no fuel is needed; loops
  that wait for the outside (the daemon, the reaper of \<open>rc.init\<close>) are step relations or take
  the finite sequence of events that they see.  Integers have their width where
  it matters: the 32-bit offsets of the kernel header and of cpio headers, and the identifiers of users.

  \<^bold>\<open>Simplifications.\<close>  Trimming and changing the case of strings treat ASCII only.  A tar header is never
  refused because it cannot be encoded.  A manifest in an index has its digest, platform and annotations, not its
  size, media type, URLs and data.  The daemon that takes a log message and puts it into its ring does so in one step.
  A message that \<open>Logwrite\<close> handles is the value of its variable after decoding, in which a field that is absent keeps the
  value of the message before.  The arguments of a package build have neither the sources of the context nor the options for
  the cache of images, the scanner and the progress.

  \<^bold>\<open>Not modelled.\<close>  The backends that run an image on a hypervisor or a cloud and push to it,
  and the providers of \<^verbatim>\<open>metadata\<close>, are calls of the clients of those services.  The docker
  and buildkit clients (\<^verbatim>\<open>pkglib/dockerimpl.go\<close>, \<^verbatim>\<open>docker\<close>) and the registry only pass requests on.
  Command lines (cobra) only set options.  \<^verbatim>\<open>format\<close>, \<^verbatim>\<open>extend\<close>, \<^verbatim>\<open>mount\<close> and the other small
  programs of the image call disk tools in a fixed order.  YAML and JSON, compression, hashes, the
  runtimes and containerd are parameters.
\<close>

section \<open>From the builder to the boot\<close>

text \<open>
  The builder marshals its runtime configuration with pointers that are left out when they are
  nil; the service reads it back into plain fields, which keep their zero values then.
\<close>

definition opt_str :: "string option \<Rightarrow> string" where
  "opt_str x = (case x of None \<Rightarrow> [] | Some s \<Rightarrow> s)"

definition opt_list :: "'a list option \<Rightarrow> 'a list" where
  "opt_list x = (case x of None \<Rightarrow> [] | Some xs \<Rightarrow> xs)"

definition bindNamespaces :: "Namespaces \<Rightarrow> BindNamespaces" where
  "bindNamespaces n =
     \<lparr>bn_Cgroup = opt_str (ns_Cgroup n), bn_Ipc = opt_str (ns_Ipc n), bn_Mnt = opt_str (ns_Mnt n),
      bn_Net = opt_str (ns_Net n), bn_Pid = opt_str (ns_Pid n), bn_User = opt_str (ns_User n),
      bn_Uts = opt_str (ns_Uts n)\<rparr>"

definition serviceRuntime :: "Runtime \<Rightarrow> RuntimeConfig" where
  "serviceRuntime r =
     \<lparr>rc_Cgroups = opt_list (rt_Cgroups r), rc_Mounts = opt_list (rt_Mounts r),
      rc_Mkdir = opt_list (rt_Mkdir r), rc_Interfaces = opt_list (rt_Interfaces r),
      rc_BindNS = bindNamespaces (rt_BindNS r), rc_Namespace = opt_str (rt_Namespace r)\<rparr>"

text \<open>
  The calls that give a container its root: a bind mount of the unpacked image when it is
  read-only, and otherwise an overlay of it on a private \<^verbatim>\<open>tmpfs\<close>.
\<close>

definition rootCalls :: "bool \<Rightarrow> string \<Rightarrow> string \<Rightarrow> syscall list" where
  "rootCalls readonly pre root =
     (let rootfs = ''/'' @ path_join [pre, ''rootfs''];
          tmp = path_join [pre, ''tmp''];
          upper = ''/'' @ path_join [tmp, ''upper''];
          work = ''/'' @ path_join [tmp, ''work''] in
      if readonly
      then [SMkdirAll rootfs 493, SMount (''/'' @ root) rootfs [] 4096 []]
      else
        [SMkdirAll (''/'' @ tmp) 493, SMount ''tmpfs'' (''/'' @ tmp) ''tmpfs'' 0 [],
         SMkdirAll (''/'' @ tmp) 493, SMount [] (''/'' @ tmp) [] 262176 [],
         SMkdirAll rootfs 493, SMkdirAll upper 493, SMkdirAll work 493,
         SMount ''overlay'' rootfs ''overlay'' 0
           (''lowerdir=/'' @ root @ '',upperdir='' @ upper @ '',workdir='' @ work)])"

lemma no_flag:
  "map_of mountFlags (''lowerdir='' @ s) = None" "map_of mountFlags (''upperdir='' @ s) = None"
  "map_of mountFlags (''workdir='' @ s) = None"
  by (simp_all add: mountFlags_def)

lemma root_flags:
  "map_of mountFlags ''remount'' = Some (False, 32)" "map_of mountFlags ''private'' = Some (False, 262144)"
  "map_of mountFlags ''bind'' = Some (False, 4096)"
  by (simp_all add: mountFlags_def)

lemma mountCalls_abs:
  "mountCalls path (mount (''/'' @ d) tp src opts) =
     SMkdirAll (''/'' @ d) 493 # concat (map overlayCalls opts) @
     [SMount src (''/'' @ d) tp (fst (parseMountOptions opts)) (snd (parseMountOptions opts))]"
  by (simp add: mountCalls_def makeAbsolute_def rooted_def Let_def)

lemma overlay_options:
  "overlayCalls (''lowerdir='' @ v) = []" "overlayCalls (''upperdir='' @ v) = [SMkdirAll v 493]"
  "overlayCalls (''workdir='' @ v) = [SMkdirAll v 493]"
  "overlayCalls ''remount'' = []" "overlayCalls ''private'' = []" "overlayCalls ''bind'' = []"
  by (simp_all add: overlayCalls_def numeral_2_eq_2)

lemma root_options:
  "parseMountOptions [''remount'', ''private''] = (262176, [])"
  "parseMountOptions [''bind''] = (4096, [])" "parseMountOptions [] = (0, [])"
  by (simp_all add: parseMountOptions_def mountOption_def root_flags)

lemma overlay_data:
  "parseMountOptions [''lowerdir='' @ a, ''upperdir='' @ b, ''workdir='' @ c] =
    (0, ''lowerdir='' @ a @ '',upperdir='' @ b @ '',workdir='' @ c)"
  unfolding parseMountOptions_def mountOption_def fold.simps o_apply no_flag by simp

lemmas root_simps = mountCalls_abs overlay_options root_options overlay_data

lemma root_calls:
  "concat (map (mountCalls path) (if readonly then bindMounts pre root else overlayMounts pre root)) =
    rootCalls readonly pre root"
  by (cases readonly)
    (simp_all only: bindMounts_def overlayMounts_def rootCalls_def if_True if_False Let_def list.map
      concat.simps append_Cons append_Nil append_Nil2 fst_conv snd_conv
      root_simps [unfolded append_Cons append_Nil])

lemma fsCalls_mounts:
  assumes "rt_Mounts r = Some ms"
  shows "fsCalls path (serviceRuntime (r\<lparr>rt_Mounts := Some (xs @ ms)\<rparr>)) =
    concat (map (mountCalls path) xs) @ fsCalls path (serviceRuntime r)"
  using assms by (simp add: fsCalls_def serviceRuntime_def opt_list_def)

text \<open>
  C2.  A container runs on the image it was built from: when the service reads the runtime
  configuration that the builder wrote for a container, it mounts, before anything else of the
  configuration and at the container's root, the directory that holds all files of the container's
  image in the archive, as a bind mount for a read-only container and as the lower layer of an
  overlay on a private \<^verbatim>\<open>tmpfs\<close> otherwise; then it makes the mounts and directories that were
  configured, in order, and it stops at the first call that fails.  The hypotheses are that
  decoding inverts the marshalling of a runtime configuration, that the file on the disk is the
  entry of the archive, and that no control groups are configured.
\<close>

theorem boot_mounts_image:
  assumes "ImageBundle env pre location (Some ref) config runtime tarWriter readonly (w, sg, dupMap) =
      Ok (w', sg', dupMap')"
    and "\<not> tw_closed w" and "dup_ok env dupMap (tw_out w)"
    and json: "\<And>rt c. be_marshalRuntime env rt = Ok c \<Longrightarrow> decode c = Ok (serviceRuntime rt)"
    and disk: "sy_read sy tr (path_join [''/'' @ pre, ''runtime.json'']) = RdOk (snd (last (tw_out w')))"
    and cgroups: "opt_list (rt_Cgroups runtime) = []"
  shows "\<exists>root rt. unpacked env (ref_String ref) root (tw_out w') \<and>
    getRuntimeConfig sy decode (''/'' @ pre) tr = (tr, Ok rt) \<and>
    scripted sy (prepareFilesystem sy (''/'' @ pre) rt)
      (rootCalls readonly pre root @ fsCalls (''/'' @ pre) (serviceRuntime runtime))"
proof -
  from ImageBundle_unpacked [OF assms(1-3)] obtain root ms rc where
    un: "unpacked env (ref_String ref) root (tw_out w')" and ms: "rt_Mounts runtime = Some ms" and
    rc: "be_marshalRuntime env (runtime\<lparr>rt_Mounts := Some
        ((if readonly then bindMounts pre root else overlayMounts pre root) @ ms)\<rparr>) = Ok rc" and
    entry: "snd (last (tw_out w')) = rc"
    by (auto simp: on_tape_def)
  define rt where "rt = serviceRuntime (runtime\<lparr>rt_Mounts := Some
    ((if readonly then bindMounts pre root else overlayMounts pre root) @ ms)\<rparr>)"
  have "getRuntimeConfig sy decode (''/'' @ pre) tr = (tr, Ok rt)"
    using disk json [OF rc]
    by (simp add: getRuntimeConfig_def io_bind_def readFile_def io_ask_def entry io_ok_def rt_def)
  moreover have "fsCalls (''/'' @ pre) rt =
      rootCalls readonly pre root @ fsCalls (''/'' @ pre) (serviceRuntime runtime)"
    by (simp only: rt_def fsCalls_mounts [OF ms] root_calls)
  moreover have "rc_Cgroups rt = []"
    using cgroups by (simp add: rt_def serviceRuntime_def)
  ultimately show ?thesis
    using un scripted_prepareFilesystem [of rt sy "''/'' @ pre"]
    by (intro exI [of _ root] exI [of _ rt] conjI) simp_all
qed

definition bootRuntime :: Runtime where
  "bootRuntime = demoRuntime\<lparr>rt_Mounts := Some
     (overlayMounts ''containers/services/sshd'' ''containers/services/sshd/lower'')\<rparr>"

definition bootEnv :: BuildEnv where
  "bootEnv = demoEnv\<lparr>be_marshalRuntime :=
     (\<lambda>rt. if rt = bootRuntime then Ok ''{}'' else Err ''unsupported'')\<rparr>"

definition bootSystem :: System where
  "bootSystem =
     \<lparr>sy_err = (\<lambda>_ _. None), sy_read = (\<lambda>_ _. RdOk ''{}''), sy_stat = (\<lambda>_ _. RdNotExist),
      sy_dir = (\<lambda>_ _. Ok []), sy_temp = ''/tmp''\<rparr>"

theorem boot_mounts_image_witness:
  "\<exists>root rt. getRuntimeConfig bootSystem (\<lambda>_. Ok (serviceRuntime bootRuntime))
      ''/containers/services/sshd'' [] = ([], Ok rt) \<and>
    scripted bootSystem (prepareFilesystem bootSystem ''/containers/services/sshd'' rt)
      (rootCalls False ''containers/services/sshd'' root)"
proof -
  have src: "be_imageSource bootEnv = (\<lambda>r. Ok demoSource)" and mounts: "rt_Mounts demoRuntime = Some []"
    and cgroups: "opt_list (rt_Cgroups demoRuntime) = []"
    and calls: "fsCalls path (serviceRuntime demoRuntime) = []" for path
    by (simp_all add: bootEnv_def demoEnv_def demoRuntime_def Runtime_zero_def fsCalls_def serviceRuntime_def
        opt_list_def)
  have marshal: "be_marshalRuntime bootEnv bootRuntime = Ok ''{}''"
    and json: "be_marshalRuntime bootEnv rt = Ok c \<Longrightarrow> Ok (serviceRuntime bootRuntime) = Ok (serviceRuntime rt)" for rt c
    by (simp_all add: bootEnv_def split: if_splits)
  have root: "''containers/services/sshd/lower'' =
      ''containers/services/sshd/'' @ (if False then ''rootfs'' else ''lower'')" by simp
  have rt: "demoRuntime\<lparr>rt_Mounts := Some ((if False then bindMounts ''containers/services/sshd'' r
      else overlayMounts ''containers/services/sshd'' ''containers/services/sshd/lower'') @ [])\<rparr> = bootRuntime" for r
    by (simp only: bootRuntime_def if_False append_Nil2)
  obtain w' d' where ib: "ImageBundle bootEnv ''containers/services/sshd'' ''services[0]'' (Some demoSpec) ''{}''
      demoRuntime tarWriter False (NewWriter, None, \<lambda>_. []) = Ok (w', None, d')" and
    entry: "snd (last (tw_out w')) = ''{}''"
    using demo_bundle_env [OF src mounts root, unfolded rt, OF marshal, of "''{}''"] by blast
  have disk: "sy_read bootSystem [] p = RdOk (snd (last (tw_out w')))" for p
    by (simp add: entry bootSystem_def)
  have "\<not> tw_closed NewWriter" and "dup_ok bootEnv (\<lambda>_. []) (tw_out NewWriter)"
    by (simp_all add: NewWriter_def dup_ok_def)
  then have "\<exists>root rt. unpacked bootEnv (ref_String demoSpec) root (tw_out w') \<and>
      getRuntimeConfig bootSystem (\<lambda>_. Ok (serviceRuntime bootRuntime)) (''/'' @ ''containers/services/sshd'') [] =
        ([], Ok rt) \<and>
      scripted bootSystem (prepareFilesystem bootSystem (''/'' @ ''containers/services/sshd'') rt)
        (rootCalls False ''containers/services/sshd'' root @
         fsCalls (''/'' @ ''containers/services/sshd'') (serviceRuntime demoRuntime))"
    using ib disk cgroups json by (intro boot_mounts_image) simp_all
  then show ?thesis by (auto simp: calls)
qed

end
